theory Spec2Isabelle
  imports Complex_Main
begin

section \<open>GitLab group and project migration (gitlab\_migration.py)\<close>

text \<open>
  The script talks to two hosting instances through the python-gitlab client. The client
  and the platform behind it are not part of the repository, so every call the script makes
  is answered by an oracle: a record of functions giving, for each call site and its
  arguments, what the platform answered (a value, or the exception the client raised).
  For a call site inside a polling loop the oracle is indexed by the number of the poll.
  Everything the script does beyond computing a value (API calls, sleeps, log lines,
  assignments to a session's timeout) is recorded in an event trace.
\<close>

subsection \<open>Exceptions\<close>

text \<open>
  Instances of Python's \<open>Exception\<close>. The script distinguishes only
  \<open>gitlab.exceptions.GitlabGetError\<close> from everything else; the argument is \<open>str(e)\<close>.
\<close>

datatype exn =
    GitlabGetError string
  | UnboundLocalError string
  | AttributeError string
  | ValueError string
  | OtherException string

fun str :: "exn \<Rightarrow> string" where
  "str (GitlabGetError m) = m"
| "str (UnboundLocalError m) = m"
| "str (AttributeError m) = m"
| "str (ValueError m) = m"
| "str (OtherException m) = m"

subsection \<open>Data\<close>

text \<open>A \<open>gitlab.Gitlab\<close> session: the four attributes the script reads (lines 128-133).\<close>

record session =
  gl_url :: string
  gl_private_token :: string
  gl_timeout :: int
  gl_ssl_verify :: bool

text \<open>An item of \<open>source_group.projects.list(all=True)\<close>: the script reads \<open>.id\<close> and \<open>.name\<close>.\<close>

record project =
  p_id :: nat
  p_name :: string

text \<open>The full source project fetched by id (line 174): \<open>.path\<close> and \<open>.name\<close>.\<close>

record sproject =
  sp_path :: string
  sp_name :: string

text \<open>A group of the target instance, as \<open>groups.get\<close> or \<open>groups.create\<close> answers it.\<close>

record tgroup =
  g_id :: nat
  g_full_path :: string

text \<open>A project found on the target by \<open>projects.get(path)\<close>.\<close>

record tproject =
  tp_id :: nat

text \<open>
  A project object of the target as the import hands it back or as the refetch by id
  answers it. \<open>o_import_status = None\<close> is an object without the attribute
  \<open>import_status\<close> (\<open>hasattr\<close> is false).
\<close>

record pobj =
  o_id :: nat
  o_import_status :: "string option"

text \<open>
  What \<open>projects.import_project\<close> returns: a dict (of which the script reads the key
  \<open>id\<close>; \<open>None\<close> when the key is missing) or an object.
\<close>

datatype import_response = RespDict "nat option" | RespObject pobj

text \<open>The downloaded export: an opaque byte string of which only \<open>len\<close> is inspected.\<close>

datatype blob = Blob nat

fun len :: "blob \<Rightarrow> nat" where
  "len (Blob n) = n"

subsection \<open>Events\<close>

datatype level = INFO | WARNING | ERROR

text \<open>One constructor for each \<open>logger\<close> call of the script, with the values it formats.\<close>

datatype logmsg =
    StartProject string nat          \<comment> \<open>line 141\<close>
  | ExistsDeleting string            \<comment> \<open>line 152\<close>
  | DeletedReimport string           \<comment> \<open>line 156\<close>
  | ExistsSkip string                \<comment> \<open>line 158\<close>
  | NotExistsStart string            \<comment> \<open>line 162\<close>
  | DeleteError string               \<comment> \<open>line 165\<close>
  | ContinueImport string            \<comment> \<open>line 167\<close>
  | CheckError string                \<comment> \<open>line 169\<close>
  | FetchingFull string              \<comment> \<open>line 173\<close>
  | PathExistsDeleting string        \<comment> \<open>line 183\<close>
  | PathExistsSkip string            \<comment> \<open>line 187\<close>
  | PathCheckError string            \<comment> \<open>line 192\<close>
  | ExportFailed string              \<comment> \<open>line 205\<close>
  | ExportSize string nat            \<comment> \<open>line 213\<close>
  | LargeFile nat                    \<comment> \<open>line 217\<close>
  | TimeoutRaised int                \<comment> \<open>line 224\<close>
  | TooLarge string nat              \<comment> \<open>line 240\<close>
  | Advice nat                       \<comment> \<open>lines 241-243\<close>
  | NoProjectId string               \<comment> \<open>line 255\<close>
  | ImportFailed string              \<comment> \<open>line 266\<close>
  | MigrateSuccess string string string  \<comment> \<open>line 269\<close>
  | MigrateError string string       \<comment> \<open>line 273\<close>
  | SourceGroupFound string nat      \<comment> \<open>line 75\<close>
  | SourceGroupNotFound string       \<comment> \<open>line 78\<close>
  | UseExistingGroup string          \<comment> \<open>line 102\<close>
  | CreatedGroup string              \<comment> \<open>line 117\<close>
  | FoundProjects string nat         \<comment> \<open>line 288\<close>
  | ProcessingException string string  \<comment> \<open>line 308\<close>
  | FoundSubgroups string nat        \<comment> \<open>line 313\<close>
  | SubgroupStart string             \<comment> \<open>line 317\<close>
  | GroupDone string nat nat         \<comment> \<open>line 320\<close>

text \<open>The payload of \<open>groups.create\<close> (lines 105-114).\<close>

record group_data =
  gd_name :: string
  gd_path :: string
  gd_visibility :: string
  gd_parent_id :: "nat option"

text \<open>
  A call on the worker's own target session carries the timeout that session has at the
  moment of the call.
\<close>

datatype event =
    Log level logmsg
  | Sleep nat
  | SetTimeout int                            \<comment> \<open>assignment to \<open>thread_target_gl.timeout\<close>\<close>
  | TgtProjectsGet int string                 \<comment> \<open>\<open>thread_target_gl.projects.get(path)\<close>\<close>
  | TgtProjectDelete int tproject             \<comment> \<open>\<open>existing_project.delete()\<close>\<close>
  | SrcProjectsGet nat                        \<comment> \<open>\<open>thread_source_gl.projects.get(id)\<close>\<close>
  | ExportCreate nat                          \<comment> \<open>\<open>thread_project.exports.create()\<close>\<close>
  | ExportRefresh                             \<comment> \<open>\<open>export.refresh()\<close>\<close>
  | ExportDownload                            \<comment> \<open>\<open>export.download()\<close>\<close>
  | TgtImport int blob string nat string      \<comment> \<open>\<open>thread_target_gl.projects.import_project\<close>\<close>
  | SharedProjectsGet nat                     \<comment> \<open>\<open>target_gl.projects.get(project_id)\<close>\<close>
  | ImportRefresh                             \<comment> \<open>\<open>import_project.refresh()\<close>\<close>
  | SrcGroupsGet string                       \<comment> \<open>\<open>source_gl.groups.get(path)\<close>\<close>
  | TgtGroupsGet string                       \<comment> \<open>\<open>target_gl.groups.get(path)\<close>\<close>
  | TgtGroupsCreate group_data                \<comment> \<open>\<open>target_gl.groups.create(data)\<close>\<close>
  | SrcProjectsList string                    \<comment> \<open>\<open>source_group.projects.list(all=True)\<close>\<close>
  | SrcSubgroupsList string                   \<comment> \<open>\<open>source_group.subgroups.list(all=True)\<close>\<close>

subsection \<open>The platform as seen by one worker\<close>

text \<open>
  The answers of the two instances to the calls of one \<open>migrate_project\<close> invocation.
  \<open>export_refresh env k\<close> is the \<open>export_status\<close> read after the \<open>k\<close>-th
  \<open>export.refresh()\<close> (the call of line 198 is number 0); \<open>import_refresh env k\<close> is the
  \<open>import_status\<close> attribute after the \<open>k\<close>-th \<open>import_project.refresh()\<close> (from 0).
  The answer to the import may depend on the timeout in effect.
\<close>

record penv =
  tgt_projects_get :: "string \<Rightarrow> exn + tproject"
  tgt_project_delete :: "tproject \<Rightarrow> exn option"
  src_projects_get :: "nat \<Rightarrow> exn + sproject"
  export_create :: "exn option"
  export_refresh :: "nat \<Rightarrow> exn + string"
  export_download :: "exn + blob"
  tgt_import :: "int \<Rightarrow> blob \<Rightarrow> string \<Rightarrow> nat \<Rightarrow> string \<Rightarrow> exn + import_response"
  shared_projects_get :: "nat \<Rightarrow> exn + pobj"
  import_refresh :: "nat \<Rightarrow> exn + string option"

subsection \<open>The worker's local state and control flow\<close>

text \<open>
  The state of one worker: its own target session (whose timeout it may change) and the
  trace of what it has done so far.
\<close>

record wstate =
  thread_target_gl :: session
  trace :: "event list"

definition emit :: "event list \<Rightarrow> wstate \<Rightarrow> wstate" where
  "emit evs s = s\<lparr>trace := trace s @ evs\<rparr>"

definition tmo :: "wstate \<Rightarrow> int" where
  "tmo s = gl_timeout (thread_target_gl s)"

definition set_timeout :: "int \<Rightarrow> wstate \<Rightarrow> wstate" where
  "set_timeout t s =
     s\<lparr>thread_target_gl := (thread_target_gl s)\<lparr>gl_timeout := t\<rparr>, trace := trace s @ [SetTimeout t]\<rparr>"

text \<open>
  How a block of the \<open>try\<close> body ends: it falls through to the next statement with a
  value, executes \<open>return\<close>, or raises towards the enclosing handler.
\<close>

datatype 'a step = Next 'a | Return "pobj option" | Raise exn

text \<open>Sequencing; \<open>None\<close> is a block that never ends.\<close>

definition then_step ::
  "('a step \<times> wstate) option \<Rightarrow> ('a \<Rightarrow> wstate \<Rightarrow> ('b step \<times> wstate) option) \<Rightarrow> ('b step \<times> wstate) option"
where
  "then_step m f =
     (case m of
        None \<Rightarrow> None
      | Some (Next a, s) \<Rightarrow> f a s
      | Some (Return r, s) \<Rightarrow> Some (Return r, s)
      | Some (Raise e, s) \<Rightarrow> Some (Raise e, s))"

text \<open>Python's \<open>needle in haystack\<close> on strings.\<close>

fun starts_with :: "string \<Rightarrow> string \<Rightarrow> bool" where
  "starts_with [] ys = True"
| "starts_with (x # xs) [] = False"
| "starts_with (x # xs) (y # ys) = (x = y \<and> starts_with xs ys)"

fun contains :: "string \<Rightarrow> string \<Rightarrow> bool" where
  "contains n [] = (n = [])"
| "contains n (y # ys) = (starts_with n (y # ys) \<or> contains n ys)"

subsection \<open>migrate\_project, lines 124-274\<close>

text \<open>The handlers of the first existence check, lines 160-170.\<close>

definition check_name_except :: "exn \<Rightarrow> string \<Rightarrow> bool \<Rightarrow> wstate \<Rightarrow> unit step \<times> wstate" where
  "check_name_except e project_name overwrite s =
     (case e of
        GitlabGetError m \<Rightarrow> (Next (), emit [Log INFO (NotExistsStart project_name)] s)
      | _ \<Rightarrow>
          if overwrite
          then (Next (), emit [Log ERROR (DeleteError (str e)),
                               Log INFO (ContinueImport project_name)] s)
          else (Return None, emit [Log ERROR (CheckError (str e))] s))"

text \<open>The first existence check, by the listed name, lines 149-159.\<close>

definition check_name :: "penv \<Rightarrow> string \<Rightarrow> string \<Rightarrow> bool \<Rightarrow> wstate \<Rightarrow> unit step \<times> wstate" where
  "check_name env project_name target_group_path overwrite s =
     (let p = target_group_path @ ''/'' @ project_name;
          s1 = emit [TgtProjectsGet (tmo s) p] s
      in case tgt_projects_get env p of
           Inl e \<Rightarrow> check_name_except e project_name overwrite s1
         | Inr existing_project \<Rightarrow>
             if overwrite then
               (let s2 = emit [Log WARNING (ExistsDeleting project_name),
                               TgtProjectDelete (tmo s1) existing_project] s1
                in case tgt_project_delete env existing_project of
                     Some e \<Rightarrow> check_name_except e project_name overwrite s2
                   | None \<Rightarrow> (Next (), emit [Sleep 3, Log INFO (DeletedReimport project_name)] s2))
             else (Return None, emit [Log INFO (ExistsSkip project_name)] s1))"

text \<open>The handlers of the second existence check, lines 189-193.\<close>

definition check_path_except :: "exn \<Rightarrow> wstate \<Rightarrow> unit step \<times> wstate" where
  "check_path_except e s =
     (case e of
        GitlabGetError m \<Rightarrow> (Next (), s)
      | _ \<Rightarrow> (Return None, emit [Log ERROR (PathCheckError (str e))] s))"

text \<open>The second existence check, by the canonical path, lines 179-193.\<close>

definition check_path ::
  "penv \<Rightarrow> string \<Rightarrow> string \<Rightarrow> string \<Rightarrow> bool \<Rightarrow> wstate \<Rightarrow> unit step \<times> wstate" where
  "check_path env project_name target_path target_group_path overwrite s =
     (if target_path \<noteq> project_name then
        (let p = target_group_path @ ''/'' @ target_path;
             s1 = emit [TgtProjectsGet (tmo s) p] s
         in case tgt_projects_get env p of
              Inl e \<Rightarrow> check_path_except e s1
            | Inr existing_project \<Rightarrow>
                if overwrite then
                  (let s2 = emit [Log WARNING (PathExistsDeleting target_path),
                                  TgtProjectDelete (tmo s1) existing_project] s1
                   in case tgt_project_delete env existing_project of
                        Some e \<Rightarrow> check_path_except e s2
                      | None \<Rightarrow> (Next (), emit [Sleep 3] s2))
                else (Return None, emit [Log INFO (PathExistsSkip target_path)] s1))
      else (Next (), s))"

text \<open>
  The export wait, lines 201-206. \<open>st\<close> is the status last read and \<open>k\<close> the number of
  refreshes made so far. The loop has no bound of its own, so it is a partial function:
  \<open>None\<close> is a loop that never exits.
\<close>

partial_function (option) export_wait ::
  "penv \<Rightarrow> string \<Rightarrow> string \<Rightarrow> nat \<Rightarrow> wstate \<Rightarrow> (unit step \<times> wstate) option" where
  "export_wait env name st k s =
     (if st \<noteq> ''finished'' then
        (case export_refresh env k of
           Inl e \<Rightarrow> Some (Raise e, emit [Sleep 5, ExportRefresh] s)
         | Inr st' \<Rightarrow>
             if st' = ''failed''
             then Some (Return None, emit [Sleep 5, ExportRefresh, Log ERROR (ExportFailed name)] s)
             else export_wait env name st' (Suc k) (emit [Sleep 5, ExportRefresh] s))
      else Some (Next (), s))"

declare export_wait.simps [code]

text \<open>Requesting the export and reading its first status, lines 197-206.\<close>

definition export_stage :: "penv \<Rightarrow> nat \<Rightarrow> string \<Rightarrow> wstate \<Rightarrow> (unit step \<times> wstate) option" where
  "export_stage env pid name s =
     (let s1 = emit [ExportCreate pid] s
      in case export_create env of
           Some e \<Rightarrow> Some (Raise e, s1)
         | None \<Rightarrow>
             (let s2 = emit [ExportRefresh] s1
              in case export_refresh env 0 of
                   Inl e \<Rightarrow> Some (Raise e, s2)
                 | Inr st \<Rightarrow> export_wait env name st 1 s2))"

text \<open>
  \<open>len(export_file) / (1024 * 1024)\<close>, line 212. Python divides two ints into a float;
  dividing by a power of two is exact for every length below \<open>2^53\<close>, so the comparisons
  of lines 216 and 221 are those of the exact quotient.
\<close>

definition file_size_mb :: "blob \<Rightarrow> real" where
  "file_size_mb export_file = real (len export_file) / (1024 * 1024)"

text \<open>Download and size report, lines 209-217.\<close>

definition download_stage :: "penv \<Rightarrow> string \<Rightarrow> wstate \<Rightarrow> blob step \<times> wstate" where
  "download_stage env name s =
     (let s1 = emit [ExportDownload] s
      in case export_download env of
           Inl e \<Rightarrow> (Raise e, s1)
         | Inr export_file \<Rightarrow>
             (let s2 = emit [Log INFO (ExportSize name (len export_file))] s1;
                  s3 = (if file_size_mb export_file > 100
                        then emit [Log WARNING (LargeFile (len export_file))] s2 else s2)
              in (Next export_file, s3)))"

text \<open>
  The import call with its scoped timeout, lines 220-247. On an exception the handler
  restores the timeout (line 236), reports a 413 rejection, re-raises, and the
  \<open>finally\<close> clause restores the timeout again (line 247).
\<close>

definition import_stage ::
  "penv \<Rightarrow> string \<Rightarrow> blob \<Rightarrow> string \<Rightarrow> nat \<Rightarrow> string \<Rightarrow> wstate \<Rightarrow> import_response step \<times> wstate" where
  "import_stage env name export_file target_path namespace target_name s =
     (let original_timeout = tmo s;
          s1 = (if file_size_mb export_file > 200
                then (let s' = set_timeout (max original_timeout 120) s
                      in emit [Log INFO (TimeoutRaised (tmo s'))] s')
                else s);
          s2 = emit [TgtImport (tmo s1) export_file target_path namespace target_name] s1
      in case tgt_import env (tmo s1) export_file target_path namespace target_name of
           Inl e \<Rightarrow>
             (let s3 = set_timeout original_timeout s2;
                  s4 = (if contains ''413: Request Entity Too Large'' (str e)
                        then emit [Log ERROR (TooLarge name (len export_file)),
                                   Log INFO (Advice 0), Log INFO (Advice 1), Log INFO (Advice 2)] s3
                        else s3)
              in (Raise e, set_timeout original_timeout s4))
         | Inr import_project \<Rightarrow> (Next import_project, set_timeout original_timeout s2))"

text \<open>
  A dict answer is replaced by the full object, fetched by its id through the shared
  session \<open>target_gl\<close>, lines 251-259. \<open>not project_id\<close> holds for a missing id and for 0.
\<close>

definition resolve_handle :: "penv \<Rightarrow> string \<Rightarrow> import_response \<Rightarrow> wstate \<Rightarrow> pobj step \<times> wstate" where
  "resolve_handle env project_name r s =
     (case r of
        RespObject obj \<Rightarrow> (Next obj, s)
      | RespDict project_id \<Rightarrow>
          (case project_id of
             None \<Rightarrow> (Return None, emit [Log ERROR (NoProjectId project_name)] s)
           | Some i \<Rightarrow>
               if i = 0 then (Return None, emit [Log ERROR (NoProjectId project_name)] s)
               else
                 (let s1 = emit [SharedProjectsGet i] s
                  in case shared_projects_get env i of
                       Inl e \<Rightarrow> (Raise e, s1)
                     | Inr obj \<Rightarrow> (Next obj, s1))))"

text \<open>
  The import wait, lines 262-267: \<open>k\<close> is the number of refreshes made so far. As for the
  export, a partial function.
\<close>

partial_function (option) import_wait ::
  "penv \<Rightarrow> string \<Rightarrow> pobj \<Rightarrow> nat \<Rightarrow> wstate \<Rightarrow> (pobj step \<times> wstate) option" where
  "import_wait env project_name obj k s =
     (if o_import_status obj \<noteq> None \<and> o_import_status obj \<noteq> Some ''finished'' then
        (case import_refresh env k of
           Inl e \<Rightarrow> Some (Raise e, emit [Sleep 5, ImportRefresh] s)
         | Inr st' \<Rightarrow>
             if st' = Some ''failed''
             then Some (Return None,
                        emit [Sleep 5, ImportRefresh, Log ERROR (ImportFailed project_name)] s)
             else import_wait env project_name (obj\<lparr>o_import_status := st'\<rparr>) (Suc k)
                    (emit [Sleep 5, ImportRefresh] s))
      else Some (Next obj, s))"

declare import_wait.simps [code]

text \<open>Lines 179-270: everything after the full source project has been fetched.\<close>

definition migrate_fetched ::
  "penv \<Rightarrow> project \<Rightarrow> tgroup \<Rightarrow> bool \<Rightarrow> sproject \<Rightarrow> wstate \<Rightarrow> (pobj step \<times> wstate) option" where
  "migrate_fetched env project target_group overwrite thread_project s =
     (let target_path = sp_path thread_project;
          target_name = sp_name thread_project
      in
      then_step (Some (check_path env (p_name project) target_path (g_full_path target_group)
                         overwrite s)) (\<lambda>_ s.
      then_step (export_stage env (p_id project) (sp_name thread_project) s) (\<lambda>_ s.
      then_step (Some (download_stage env (sp_name thread_project) s)) (\<lambda>export_file s.
      then_step (Some (import_stage env (sp_name thread_project) export_file target_path
                         (g_id target_group) target_name s)) (\<lambda>r s.
      then_step (Some (resolve_handle env (p_name project) r s)) (\<lambda>obj s.
      then_step (import_wait env (p_name project) obj 0 s) (\<lambda>import_project s.
        Some (Next import_project,
              emit [Log INFO (MigrateSuccess (sp_name thread_project)
                                (g_full_path target_group) target_path)] s))))))))"

text \<open>
  The message of the \<open>UnboundLocalError\<close> that line 273 raises when it formats
  \<open>thread_project.name\<close> before line 174 has bound \<open>thread_project\<close>.
\<close>

definition unbound_thread_project :: exn where
  "unbound_thread_project =
     UnboundLocalError ''local variable 'thread_project' referenced before assignment''"

text \<open>
  The worker. The result is \<open>None\<close> when a wait never ends; otherwise the final state and
  either the value returned (\<open>Inr\<close>; Python's \<open>None\<close> is \<open>None\<close>) or the exception that
  leaves the function (\<open>Inl\<close>). \<open>target_group\<close> is what the resolver returned.
  The handler of lines 272-274 runs for every exception of the \<open>try\<close> body.
\<close>

definition migrate_project ::
  "penv \<Rightarrow> session \<Rightarrow> session \<Rightarrow> project \<Rightarrow> tgroup option \<Rightarrow> bool
     \<Rightarrow> ((exn + pobj option) \<times> wstate) option" where
  "migrate_project env source_gl target_gl project target_group overwrite =
     (let thread_target = \<lparr>gl_url = gl_url target_gl,
                           gl_private_token = gl_private_token target_gl,
                           gl_timeout = gl_timeout source_gl,
                           gl_ssl_verify = gl_ssl_verify source_gl\<rparr>;
          s0 = \<lparr>thread_target_gl = thread_target,
                trace = [Log INFO (StartProject (p_name project) (p_id project))]\<rparr>
      in case target_group of
           None \<Rightarrow> Some (Inl unbound_thread_project, s0)
         | Some tg \<Rightarrow>
             (case check_name env (p_name project) (g_full_path tg) overwrite s0 of
                (Return r, s1) \<Rightarrow> Some (Inr r, s1)
              | (Raise e, s1) \<Rightarrow> Some (Inl unbound_thread_project, s1)
              | (Next _, s1) \<Rightarrow>
                  (let s2 = emit [Log INFO (FetchingFull (p_name project)),
                                  SrcProjectsGet (p_id project)] s1
                   in case src_projects_get env (p_id project) of
                        Inl e \<Rightarrow> Some (Inl unbound_thread_project, s2)
                      | Inr thread_project \<Rightarrow>
                          (case migrate_fetched env project tg overwrite thread_project s2 of
                             None \<Rightarrow> None
                           | Some (Next obj, s3) \<Rightarrow> Some (Inr (Some obj), s3)
                           | Some (Return r, s3) \<Rightarrow> Some (Inr r, s3)
                           | Some (Raise e, s3) \<Rightarrow>
                               Some (Inr None,
                                     emit [Log ERROR (MigrateError (sp_name thread_project)
                                                        (str e))] s3)))))"

subsection \<open>create\_target\_group\_structure, lines 82-121\<close>

text \<open>Python's \<open>s.split(c)\<close> for a one-character separator: never an empty list.\<close>

fun split_on :: "char \<Rightarrow> string \<Rightarrow> string list" where
  "split_on c [] = [[]]"
| "split_on c (x # xs) =
     (if x = c then [] # split_on c xs
      else (case split_on c xs of
              [] \<Rightarrow> [[x]]
            | w # ws \<Rightarrow> (x # w) # ws))"

text \<open>
  The answers of the target instance to the calls of one invocation of the resolver,
  indexed by the loop counter \<open>i\<close> of line 93.
\<close>

record renv =
  tgt_groups_get :: "nat \<Rightarrow> string \<Rightarrow> exn + tgroup"
  tgt_groups_create :: "nat \<Rightarrow> group_data \<Rightarrow> exn + tgroup"

definition prepend :: "'e list \<Rightarrow> 'r \<times> 'e list \<Rightarrow> 'r \<times> 'e list" where
  "prepend evs rt = (fst rt, evs @ snd rt)"

text \<open>
  The loop of lines 93-119 over the remaining segments, with the loop variables
  \<open>i\<close>, \<open>current_path\<close> and \<open>parent_group\<close> (Python's \<open>None\<close> is \<open>None\<close>).
  \<open>visibility\<close> is \<open>source_group.visibility\<close>, the only attribute of the argument
  \<open>source_group\<close> that the function reads. Any exception but the \<open>GitlabGetError\<close> of
  the lookup leaves the function.
\<close>

fun resolve_loop ::
  "renv \<Rightarrow> string \<Rightarrow> nat \<Rightarrow> string \<Rightarrow> tgroup option \<Rightarrow> string list
     \<Rightarrow> (exn + tgroup option) \<times> event list" where
  "resolve_loop env visibility i current_path parent_group [] = (Inr parent_group, [])"
| "resolve_loop env visibility i current_path parent_group (part # rest) =
     (let current_path = (if current_path \<noteq> [] then current_path @ ''/'' @ part else part)
      in case tgt_groups_get env i current_path of
           Inr grp \<Rightarrow>
             prepend [TgtGroupsGet current_path, Log INFO (UseExistingGroup current_path)]
               (resolve_loop env visibility (Suc i) current_path (Some grp) rest)
         | Inl e \<Rightarrow>
             (case e of
                GitlabGetError m \<Rightarrow>
                  (let group_data = \<lparr>gd_name = part, gd_path = part,
                                     gd_visibility = visibility, gd_parent_id = None\<rparr>
                   in if i = 0 then
                        (case tgt_groups_create env i group_data of
                           Inl e' \<Rightarrow> (Inl e', [TgtGroupsGet current_path, TgtGroupsCreate group_data])
                         | Inr grp \<Rightarrow>
                             prepend [TgtGroupsGet current_path, TgtGroupsCreate group_data,
                                      Log INFO (CreatedGroup current_path)]
                               (resolve_loop env visibility (Suc i) current_path (Some grp) rest))
                      else
                        (case parent_group of
                           None \<Rightarrow>
                             (Inl (AttributeError ''NoneType object has no attribute id''),
                              [TgtGroupsGet current_path])
                         | Some pg \<Rightarrow>
                             (let group_data = group_data\<lparr>gd_parent_id := Some (g_id pg)\<rparr>
                              in case tgt_groups_create env i group_data of
                                   Inl e' \<Rightarrow>
                                     (Inl e', [TgtGroupsGet current_path, TgtGroupsCreate group_data])
                                 | Inr grp \<Rightarrow>
                                     prepend [TgtGroupsGet current_path, TgtGroupsCreate group_data,
                                              Log INFO (CreatedGroup current_path)]
                                       (resolve_loop env visibility (Suc i) current_path
                                          (Some grp) rest))))
              | _ \<Rightarrow> (Inl e, [TgtGroupsGet current_path])))"

definition create_target_group_structure ::
  "renv \<Rightarrow> string \<Rightarrow> string \<Rightarrow> (exn + tgroup option) \<times> event list" where
  "create_target_group_structure env group_path visibility =
     resolve_loop env visibility 0 [] None (split_on CHR ''/'' group_path)"

subsection \<open>migrate\_group, lines 277-320\<close>

text \<open>
  The source instance holds a tree of groups, read and never changed by the script.
  A node carries what the script reads of a source group: id, name, path segment,
  visibility, its direct projects and its direct subgroups.
\<close>

datatype sgroup =
  SGroup (sg_id: nat) (sg_name: string) (sg_path: string) (sg_visibility: string)
         (sg_projects: "project list") (sg_subgroups: "sgroup list")

text \<open>
  The platform during one run, keyed by the path of the source group being migrated:
  whether the source calls of that step fail (\<open>None\<close>: the call answers; a lookup by full
  path then answers the node of the tree at that path), the answers to the resolver
  invocation of that step, and the answers to the worker of each of its projects.
\<close>

record denv =
  src_groups_get :: "string \<Rightarrow> exn option"
  resolver_env :: "string \<Rightarrow> renv"
  src_projects_list :: "string \<Rightarrow> exn option"
  src_subgroups_list :: "string \<Rightarrow> exn option"
  worker_env :: "string \<Rightarrow> project \<Rightarrow> penv"

text \<open>
  How a function of the main thread ends: it returns, an exception leaves it, or
  \<open>sys.exit\<close> ends the process.
\<close>

datatype 'a outcome = Ok 'a | Raised exn | SysExit nat

text \<open>
  The trace of a run: events of the main thread, events of the worker of a project
  (tagged with the path of its source group and the project), and the collection of a
  worker's result by the coordinator (lines 299-309), which records the source group
  path, the target group the worker was given, the project and what the future held.
\<close>

datatype devent =
    Main event
  | InWorker string project event
  | Collected string "tgroup option" project "exn + pobj option"

text \<open>Lines 71-79. \<open>g\<close> is the node the source holds at \<open>group_path\<close>.\<close>

definition get_source_group :: "denv \<Rightarrow> string \<Rightarrow> sgroup \<Rightarrow> sgroup outcome \<times> event list" where
  "get_source_group env group_path g =
     (case src_groups_get env group_path of
        None \<Rightarrow> (Ok g, [SrcGroupsGet group_path, Log INFO (SourceGroupFound (sg_name g) (sg_id g))])
      | Some e \<Rightarrow>
          (case e of
             GitlabGetError m \<Rightarrow>
               (SysExit 1, [SrcGroupsGet group_path, Log ERROR (SourceGroupNotFound group_path)])
           | _ \<Rightarrow> (Raised e, [SrcGroupsGet group_path])))"

text \<open>
  The coordinator, lines 290-309: one worker per project, every result collected and
  counted. The pool runs the workers concurrently and yields them in completion order;
  a worker depends only on the answers to its own calls and the two counters do not
  depend on the order, so the workers are run here one after the other, in list order.
  The \<open>with\<close> block ends only when every worker has ended: a worker that never ends
  keeps the coordinator from ending. \<open>if result\<close> holds for every object.
\<close>

fun run_batch ::
  "(project \<Rightarrow> penv) \<Rightarrow> string \<Rightarrow> session \<Rightarrow> session \<Rightarrow> tgroup option \<Rightarrow> bool
     \<Rightarrow> project list \<Rightarrow> nat \<times> nat \<Rightarrow> ((nat \<times> nat) \<times> devent list) option" where
  "run_batch wenv path source_gl target_gl target_group overwrite [] counts = Some (counts, [])"
| "run_batch wenv path source_gl target_gl target_group overwrite (project # rest) counts =
     (case migrate_project (wenv project) source_gl target_gl project target_group overwrite of
        None \<Rightarrow> None
      | Some (Inr result, ws) \<Rightarrow>
          map_option
            (prepend (map (InWorker path project) (trace ws) @ [Collected path target_group project (Inr result)]))
            (run_batch wenv path source_gl target_gl target_group overwrite rest
               (if result \<noteq> None then (Suc (fst counts), snd counts)
                else (fst counts, Suc (snd counts))))
      | Some (Inl e, ws) \<Rightarrow>
          map_option
            (prepend (map (InWorker path project) (trace ws) @
                      [Collected path target_group project (Inl e),
                       Main (Log ERROR (ProcessingException (p_name project) (str e)))]))
            (run_batch wenv path source_gl target_gl target_group overwrite rest
               (fst counts, Suc (snd counts))))"

text \<open>
  The recursion driver. \<open>migrate_group\<close> is the function of lines 277-320 and
  \<open>migrate_subgroups\<close> its loop of lines 315-318. No call of the body is guarded, so an
  exception of the resolver, of a listing or of a recursive call leaves the function;
  \<open>ThreadPoolExecutor\<close> raises \<open>ValueError\<close> for \<open>max_workers \<le> 0\<close>.
\<close>

function migrate_group ::
  "denv \<Rightarrow> session \<Rightarrow> session \<Rightarrow> int \<Rightarrow> bool \<Rightarrow> string \<Rightarrow> sgroup
     \<Rightarrow> (unit outcome \<times> devent list) option"
and migrate_subgroups ::
  "denv \<Rightarrow> session \<Rightarrow> session \<Rightarrow> int \<Rightarrow> bool \<Rightarrow> string \<Rightarrow> sgroup list
     \<Rightarrow> (unit outcome \<times> devent list) option"
where
  "migrate_group env source_gl target_gl max_workers overwrite source_group_path g =
     (case get_source_group env source_group_path g of
        (SysExit n, t0) \<Rightarrow> Some (SysExit n, map Main t0)
      | (Raised e, t0) \<Rightarrow> Some (Raised e, map Main t0)
      | (Ok source_group, t0) \<Rightarrow>
          (case create_target_group_structure (resolver_env env source_group_path)
                  source_group_path (sg_visibility source_group) of
             (Inl e, t1) \<Rightarrow> Some (Raised e, map Main (t0 @ t1))
           | (Inr target_group, t1) \<Rightarrow>
               (case src_projects_list env source_group_path of
                  Some e \<Rightarrow> Some (Raised e, map Main (t0 @ t1 @ [SrcProjectsList source_group_path]))
                | None \<Rightarrow>
                    (let projects = sg_projects source_group;
                         t2 = t0 @ t1 @ [SrcProjectsList source_group_path,
                                Log INFO (FoundProjects source_group_path (length projects))]
                     in if max_workers \<le> 0
                        then Some (Raised (ValueError ''max_workers must be greater than 0''),
                                   map Main t2)
                        else
                          (case run_batch (worker_env env source_group_path) source_group_path
                                  source_gl target_gl target_group overwrite projects (0, 0) of
                             None \<Rightarrow> None
                           | Some (counts, t3) \<Rightarrow>
                               (case src_subgroups_list env source_group_path of
                                  Some e \<Rightarrow>
                                    Some (Raised e,
                                          map Main t2 @ t3 @ [Main (SrcSubgroupsList source_group_path)])
                                | None \<Rightarrow>
                                    (let subgroups = sg_subgroups g;
                                         t4 = [Main (SrcSubgroupsList source_group_path),
                                               Main (Log INFO (FoundSubgroups source_group_path
                                                                 (length subgroups)))]
                                     in case migrate_subgroups env source_gl target_gl max_workers
                                               overwrite source_group_path subgroups of
                                          None \<Rightarrow> None
                                        | Some (Ok u, t5) \<Rightarrow>
                                            Some (Ok (),
                                                  map Main t2 @ t3 @ t4 @ t5 @
                                                  [Main (Log INFO (GroupDone source_group_path
                                                                     (fst counts) (snd counts)))])
                                        | Some (Raised e, t5) \<Rightarrow>
                                            Some (Raised e, map Main t2 @ t3 @ t4 @ t5)
                                        | Some (SysExit n, t5) \<Rightarrow>
                                            Some (SysExit n, map Main t2 @ t3 @ t4 @ t5))))))))"
| "migrate_subgroups env source_gl target_gl max_workers overwrite source_group_path [] =
     Some (Ok (), [])"
| "migrate_subgroups env source_gl target_gl max_workers overwrite source_group_path
     (subgroup # rest) =
     (let subgroup_path = source_group_path @ ''/'' @ sg_path subgroup
      in case migrate_group env source_gl target_gl max_workers overwrite subgroup_path subgroup of
           None \<Rightarrow> None
         | Some (Ok u, t) \<Rightarrow>
             map_option (prepend (Main (Log INFO (SubgroupStart subgroup_path)) # t))
               (migrate_subgroups env source_gl target_gl max_workers overwrite
                  source_group_path rest)
         | Some (Raised e, t) \<Rightarrow>
             Some (Raised e, Main (Log INFO (SubgroupStart subgroup_path)) # t)
         | Some (SysExit n, t) \<Rightarrow>
             Some (SysExit n, Main (Log INFO (SubgroupStart subgroup_path)) # t))"
  by pat_completeness auto
termination
  apply (relation "measure (\<lambda>x. case x of
                            Inl (env, sgl, tgl, mw, ov, p, g) \<Rightarrow> size g
                          | Inr (env, sgl, tgl, mw, ov, p, gs) \<Rightarrow> size_list size gs)")
     apply simp
  subgoal for env sgl tgl mw ov p g by (cases g) simp
   apply simp
  apply simp
  done

declare migrate_group.simps [simp del]

section \<open>Specification functions\<close>

text \<open>
  The resolver as the specification words it: split the path, walk the levels left to
  right; level \<open>i\<close> is looked up by the full path of the first \<open>i + 1\<close> segments and, if
  absent, created with the segment as name and path, the previous level as parent for all
  levels but the first, and the given visibility.
\<close>

fun join_slash :: "string list \<Rightarrow> string" where
  "join_slash [] = []"
| "join_slash [x] = x"
| "join_slash (x # y # ys) = x @ ''/'' @ join_slash (y # ys)"

definition level_prefix :: "string list \<Rightarrow> nat \<Rightarrow> string" where
  "level_prefix segments i = join_slash (take (Suc i) segments)"

text \<open>\<open>walk_levels env visibility segments m i previous\<close> walks the \<open>m\<close> levels from \<open>i\<close> on.\<close>

fun walk_levels ::
  "renv \<Rightarrow> string \<Rightarrow> string list \<Rightarrow> nat \<Rightarrow> nat \<Rightarrow> tgroup option
     \<Rightarrow> (exn + tgroup option) \<times> event list" where
  "walk_levels env visibility segments 0 i previous = (Inr previous, [])"
| "walk_levels env visibility segments (Suc m) i previous =
     (let prefix = level_prefix segments i;
          segment = segments ! i
      in case tgt_groups_get env i prefix of
           Inr found \<Rightarrow>
             prepend [TgtGroupsGet prefix, Log INFO (UseExistingGroup prefix)]
               (walk_levels env visibility segments m (Suc i) (Some found))
         | Inl e \<Rightarrow>
             (case e of
                GitlabGetError msg \<Rightarrow>
                  (let data = \<lparr>gd_name = segment, gd_path = segment, gd_visibility = visibility,
                               gd_parent_id = (if i = 0 then None else map_option g_id previous)\<rparr>
                   in case tgt_groups_create env i data of
                        Inl e' \<Rightarrow> (Inl e', [TgtGroupsGet prefix, TgtGroupsCreate data])
                      | Inr created \<Rightarrow>
                          prepend [TgtGroupsGet prefix, TgtGroupsCreate data,
                                   Log INFO (CreatedGroup prefix)]
                            (walk_levels env visibility segments m (Suc i) (Some created)))
              | _ \<Rightarrow> (Inl e, [TgtGroupsGet prefix])))"

text \<open>
  \<open>g\<close> is what the target answered for level \<open>k\<close>: the group found by its full path, or,
  the lookup having answered not-found, the group created for the segment.
\<close>

definition answered :: "renv \<Rightarrow> string \<Rightarrow> string list \<Rightarrow> nat \<Rightarrow> tgroup \<Rightarrow> bool" where
  "answered env visibility segments k g =
     (tgt_groups_get env k (level_prefix segments k) = Inr g \<or>
      (\<exists>msg d. tgt_groups_get env k (level_prefix segments k) = Inl (GitlabGetError msg) \<and>
               tgt_groups_create env k d = Inr g \<and>
               gd_name d = segments ! k \<and> gd_path d = segments ! k \<and>
               gd_visibility d = visibility))"

text \<open>Reading a trace of a run.\<close>

definition run_trace :: "('r \<times> devent list) option \<Rightarrow> devent list" where
  "run_trace m = (case m of None \<Rightarrow> [] | Some x \<Rightarrow> snd x)"

fun created_of :: "devent \<Rightarrow> group_data list" where
  "created_of (Main (TgtGroupsCreate d)) = [d]"
| "created_of ev = []"

text \<open>The payloads of the groups created during a run, in order.\<close>

definition created :: "devent list \<Rightarrow> group_data list" where
  "created tr = concat (map created_of tr)"

text \<open>
  Reading the trace of a run: the results the coordinator collected, the tallies logged at
  line 320, the source groups looked up at line 74, the projects whose worker logged a
  skip (lines 158 and 187), and the projects whose worker returned an object.
\<close>

fun collected_of :: "devent \<Rightarrow> (string \<times> tgroup option \<times> project \<times> (exn + pobj option)) list" where
  "collected_of (Collected path tg p r) = [(path, tg, p, r)]"
| "collected_of ev = []"

definition collected :: "devent list \<Rightarrow> (string \<times> tgroup option \<times> project \<times> (exn + pobj option)) list" where
  "collected tr = concat (map collected_of tr)"

fun tally_of :: "devent \<Rightarrow> (string \<times> nat \<times> nat) list" where
  "tally_of (Main (Log l (GroupDone path s f))) = [(path, s, f)]"
| "tally_of ev = []"

definition tallies :: "devent list \<Rightarrow> (string \<times> nat \<times> nat) list" where
  "tallies tr = concat (map tally_of tr)"

fun visit_of :: "devent \<Rightarrow> string list" where
  "visit_of (Main (SrcGroupsGet path)) = [path]"
| "visit_of ev = []"

definition visits :: "devent list \<Rightarrow> string list" where
  "visits tr = concat (map visit_of tr)"

text \<open>
  The source tree as the specification sees it: the full paths of all groups below a path
  (depth first, a group before its subgroups), the projects of all groups with the path
  of their group, and the number of direct projects of every group (a group after its
  subgroups, as line 320 logs them).
\<close>

fun group_paths :: "string \<Rightarrow> sgroup \<Rightarrow> string list" where
  "group_paths path (SGroup gid name seg vis projects subgroups) =
     path # concat (map (\<lambda>c. group_paths (path @ ''/'' @ sg_path c) c) subgroups)"

fun group_projects :: "string \<Rightarrow> sgroup \<Rightarrow> (string \<times> project) list" where
  "group_projects path (SGroup gid name seg vis projects subgroups) =
     map (Pair path) projects @
     concat (map (\<lambda>c. group_projects (path @ ''/'' @ sg_path c) c) subgroups)"

fun group_sizes :: "string \<Rightarrow> sgroup \<Rightarrow> (string \<times> nat) list" where
  "group_sizes path (SGroup gid name seg vis projects subgroups) =
     concat (map (\<lambda>c. group_sizes (path @ ''/'' @ sg_path c) c) subgroups) @
     [(path, length projects)]"

text \<open>
  A worker run that ends in a skip: its last event is one of the two skip log lines and it
  made no deleting, exporting or importing call.
\<close>

fun is_skip_log :: "event \<Rightarrow> bool" where
  "is_skip_log (Log l (ExistsSkip n)) = True"
| "is_skip_log (Log l (PathExistsSkip n)) = True"
| "is_skip_log ev = False"

fun migrating_call :: "event \<Rightarrow> bool" where
  "migrating_call (TgtImport t f pa ns nm) = True"
| "migrating_call (TgtProjectDelete t x) = True"
| "migrating_call (ExportCreate i) = True"
| "migrating_call ev = False"

definition skipped_run :: "wstate \<Rightarrow> bool" where
  "skipped_run ws = (trace ws \<noteq> [] \<and> is_skip_log (last (trace ws)) \<and>
                     (\<forall>ev\<in>set (trace ws). \<not> migrating_call ev))"

text \<open>
  \<open>already_there env tg p\<close>: the target already holds the project, as the two existence
  checks see it: the lookup under the listed name finds a project, or it answers not-found
  and the lookup under the canonical path, which differs from the name, finds one.
\<close>

definition target_has :: "penv \<Rightarrow> string \<Rightarrow> bool" where
  "target_has env p = (case tgt_projects_get env p of Inr x \<Rightarrow> True | Inl e \<Rightarrow> False)"

definition target_lacks :: "penv \<Rightarrow> string \<Rightarrow> bool" where
  "target_lacks env p =
     (case tgt_projects_get env p of
        Inr x \<Rightarrow> False
      | Inl e \<Rightarrow> (case e of GitlabGetError m \<Rightarrow> True | _ \<Rightarrow> False))"

definition already_there :: "penv \<Rightarrow> tgroup \<Rightarrow> project \<Rightarrow> bool" where
  "already_there env tg p =
     (target_has env (g_full_path tg @ ''/'' @ p_name p) \<or>
      (target_lacks env (g_full_path tg @ ''/'' @ p_name p) \<and>
       (case src_projects_get env (p_id p) of
          Inl e \<Rightarrow> False
        | Inr tp \<Rightarrow> sp_path tp \<noteq> p_name p \<and>
                    target_has env (g_full_path tg @ ''/'' @ sp_path tp))))"

fun migrated_of :: "string \<times> tgroup option \<times> project \<times> (exn + pobj option) \<Rightarrow> (string \<times> project) list" where
  "migrated_of (gp, tg, p, Inr (Some h)) = [(gp, p)]"
| "migrated_of x = []"

definition migrated :: "devent list \<Rightarrow> (string \<times> project) list" where
  "migrated tr = concat (map migrated_of (collected tr))"

text \<open>
  What a run leaves on the target. \<open>import_calls tr\<close> are the import calls the workers of a run
  made: source group path, project, and the \<open>namespace\<close> and \<open>path\<close> arguments of the call.
  \<open>held tr\<close> are the full paths of the projects the run imported: for every worker whose
  collected result is the imported project, the \<open>path\<close> of its import call below the full
  path of the target group whose id was the \<open>namespace\<close> of the call.
\<close>

fun import_of :: "devent \<Rightarrow> (string \<times> project \<times> nat \<times> string) list" where
  "import_of (InWorker gp p (TgtImport t f pa ns nm)) = [(gp, p, ns, pa)]"
| "import_of ev = []"

definition import_calls :: "devent list \<Rightarrow> (string \<times> project \<times> nat \<times> string) list" where
  "import_calls tr = concat (map import_of tr)"

fun held_of ::
  "(string \<times> project \<times> nat \<times> string) list
     \<Rightarrow> string \<times> tgroup option \<times> project \<times> (exn + pobj option) \<Rightarrow> string list" where
  "held_of calls (gp, Some tg, p, Inr (Some h)) =
     map (\<lambda>c. g_full_path tg @ ''/'' @ snd (snd (snd c)))
       (filter (\<lambda>c. fst c = gp \<and> fst (snd c) = p \<and> fst (snd (snd c)) = g_id tg) calls)"
| "held_of calls x = []"

definition held :: "devent list \<Rightarrow> string list" where
  "held tr = concat (map (held_of (import_calls tr)) (collected tr))"

text \<open>
  The target instance during a later run, as far as the existence checks of a worker see
  it. \<open>target_keeps paths env\<close>: the target finds a project under every path of \<open>paths\<close>,
  and it answers every lookup of a project with a project or with not-found.
\<close>

definition target_keeps :: "string list \<Rightarrow> penv \<Rightarrow> bool" where
  "target_keeps paths env =
     (\<forall>q. (q \<in> set paths \<longrightarrow> target_has env q) \<and> (target_has env q \<or> target_lacks env q))"

text \<open>
  \<open>true_paths env group_path\<close>: during the resolver invocation for \<open>group_path\<close> the target
  answers a lookup with a group of the full path asked for, and a creation at level \<open>i\<close>
  with a group whose full path is that of level \<open>i\<close>.
\<close>

definition true_paths :: "renv \<Rightarrow> string \<Rightarrow> bool" where
  "true_paths env group_path =
     (\<forall>i q d tg. (tgt_groups_get env i q = Inr tg \<longrightarrow> g_full_path tg = q) \<and>
                 (tgt_groups_create env i d = Inr tg \<longrightarrow>
                    g_full_path tg = level_prefix (split_on CHR ''/'' group_path) i))"

text \<open>
  What the trace of a completed run records for a collected result: the worker run that
  produced it, whose events are in the trace; the resolver invocation that returned the
  target group; and the source group path, which extends the path the run started from.
\<close>

definition recorded ::
  "denv \<Rightarrow> session \<Rightarrow> session \<Rightarrow> bool \<Rightarrow> string \<Rightarrow> devent list
     \<Rightarrow> string \<times> tgroup option \<times> project \<times> (exn + pobj option) \<Rightarrow> bool" where
  "recorded env sgl tgl ov path tr x =
     ((\<exists>ws. migrate_project (worker_env env (fst x) (fst (snd (snd x)))) sgl tgl
               (fst (snd (snd x))) (fst (snd x)) ov = Some (snd (snd (snd x)), ws) \<and>
            (\<forall>ev\<in>set (trace ws). InWorker (fst x) (fst (snd (snd x))) ev \<in> set tr))
    \<and> (\<exists>vis t1. create_target_group_structure (resolver_env env (fst x)) (fst x) vis =
                   (Inr (fst (snd x)), t1))
    \<and> (\<exists>suffix. fst x = path @ suffix))"

fun skip_of :: "devent \<Rightarrow> (string \<times> project) list" where
  "skip_of (InWorker path p (Log l (ExistsSkip n))) = [(path, p)]"
| "skip_of (InWorker path p (Log l (PathExistsSkip n))) = [(path, p)]"
| "skip_of ev = []"

definition skipped :: "devent list \<Rightarrow> (string \<times> project) list" where
  "skipped tr = concat (map skip_of tr)"

definition non_skipped :: "devent list \<Rightarrow> string \<Rightarrow> project list \<Rightarrow> nat" where
  "non_skipped tr path ps = length (filter (\<lambda>p. (path, p) \<notin> set (skipped tr)) ps)"

text \<open>What a completed run of the driver on a tree covers.\<close>

definition covers :: "denv \<Rightarrow> session \<Rightarrow> session \<Rightarrow> int \<Rightarrow> bool \<Rightarrow> string \<Rightarrow> sgroup \<Rightarrow> devent list \<Rightarrow> bool" where
  "covers env sgl tgl mw ov path g tr =
     (visits tr = group_paths path g
    \<and> map (\<lambda>x. (fst x, fst (snd (snd x)))) (collected tr) = group_projects path g
    \<and> map (\<lambda>x. (fst x, fst (snd x) + snd (snd x))) (tallies tr) = group_sizes path g
    \<and> (\<forall>x \<in> set (collected tr). \<exists>ws.
          migrate_project (worker_env env (fst x) (fst (snd (snd x)))) sgl tgl
            (fst (snd (snd x))) (fst (snd x)) ov = Some (snd (snd (snd x)), ws)))"

section \<open>Example platforms\<close>

text \<open>
  Concrete sessions, projects and platform answers on which the properties below are
  evaluated. \<open>env_fresh\<close> is a target that holds nothing yet and a source whose export
  finishes at the third poll; the other platforms differ from it in one answer.
\<close>

definition gl_src :: session where
  "gl_src = \<lparr>gl_url = ''https://old.example.com'', gl_private_token = ''s3cret'',
             gl_timeout = 30, gl_ssl_verify = True\<rparr>"

definition gl_tgt :: session where
  "gl_tgt = \<lparr>gl_url = ''https://new.example.com'', gl_private_token = ''t0ken'',
             gl_timeout = 30, gl_ssl_verify = True\<rparr>"

definition svc1 :: project where
  "svc1 = \<lparr>p_id = 1, p_name = ''svc1''\<rparr>"

definition svc_one :: project where
  "svc_one = \<lparr>p_id = 9, p_name = ''Service One''\<rparr>"

definition tg_alpha :: tgroup where
  "tg_alpha = \<lparr>g_id = 10, g_full_path = ''team/alpha''\<rparr>"

definition not_found :: exn where
  "not_found = GitlabGetError ''404: Not Found''"

definition server_error :: exn where
  "server_error = OtherException ''500: Internal Server Error''"

definition env_fresh :: penv where
  "env_fresh = \<lparr>
     tgt_projects_get = (\<lambda>p. Inl not_found),
     tgt_project_delete = (\<lambda>x. None),
     src_projects_get = (\<lambda>i. Inr \<lparr>sp_path = ''svc1'', sp_name = ''svc1''\<rparr>),
     export_create = None,
     export_refresh = (\<lambda>k. Inr (if k < 2 then ''started'' else ''finished'')),
     export_download = Inr (Blob 4096),
     tgt_import = (\<lambda>t f pa ns nm. Inr (RespDict (Some 7))),
     shared_projects_get = (\<lambda>i. Inr \<lparr>o_id = i, o_import_status = Some ''started''\<rparr>),
     import_refresh = (\<lambda>k. Inr (Some (if k < 1 then ''started'' else ''finished'')))\<rparr>"

text \<open>The source answers the fetch of the full project with a server error.\<close>

definition env_fetch_fails :: penv where
  "env_fetch_fails = env_fresh\<lparr>src_projects_get := (\<lambda>i. Inl server_error)\<rparr>"

text \<open>
  A project whose path differs from its name; the target answers the lookup by path
  (\<open>env_path_error\<close>) or the lookup by name (\<open>env_name_error\<close>) with a server error.
\<close>

definition env_path_error :: penv where
  "env_path_error = env_fresh\<lparr>
      src_projects_get := (\<lambda>i. Inr \<lparr>sp_path = ''service-one'', sp_name = ''Service One''\<rparr>),
      tgt_projects_get := (\<lambda>p. if p = ''team/alpha/service-one'' then Inl server_error
                                 else Inl not_found)\<rparr>"

definition env_name_error :: penv where
  "env_name_error = env_fresh\<lparr>
      src_projects_get := (\<lambda>i. Inr \<lparr>sp_path = ''service-one'', sp_name = ''Service One''\<rparr>),
      tgt_projects_get := (\<lambda>p. if p = ''team/alpha/Service One'' then Inl server_error
                                 else Inl not_found)\<rparr>"

text \<open>An export that stays \<open>started\<close> for ever.\<close>

definition env_stuck :: penv where
  "env_stuck = env_fresh\<lparr>export_refresh := (\<lambda>k. Inr ''started'')\<rparr>"

text \<open>
  \<open>call_ok orig ev\<close>: a call on the worker's own target session was made with the
  timeout it should have had, \<open>orig\<close> being the timeout the session was created with:
  the raised one for the import of a file above 200 MB, the original one otherwise.
\<close>

fun call_ok :: "int \<Rightarrow> event \<Rightarrow> bool" where
  "call_ok orig (TgtImport t f pa ns nm) =
     (t = (if 200 < file_size_mb f then max orig 120 else orig))"
| "call_ok orig (TgtProjectsGet t pa) = (t = orig)"
| "call_ok orig (TgtProjectDelete t x) = (t = orig)"
| "call_ok orig ev = True"

definition scoped :: "int \<Rightarrow> wstate \<Rightarrow> bool" where
  "scoped orig s = (tmo s = orig \<and> (\<forall>ev\<in>set (trace s). call_ok orig ev))"

text \<open>The refetched import handle is still \<open>started\<close> and the first poll reads \<open>failed\<close>.\<close>

definition env_import_fails :: penv where
  "env_import_fails = env_fresh\<lparr>import_refresh := (\<lambda>k. Inr (Some ''failed''))\<rparr>"

text \<open>
  An export of 250 MB. On \<open>env_big\<close> the target accepts the upload only within a timeout
  of 120 seconds or more; on \<open>env_big_rejected\<close> it rejects the payload.
\<close>

definition env_big :: penv where
  "env_big = env_fresh\<lparr>
     export_download := Inr (Blob 262144000),
     tgt_import := (\<lambda>t f pa ns nm. if 120 \<le> t then Inr (RespDict (Some 7))
                                     else Inl (OtherException ''Read timed out''))\<rparr>"

definition env_big_rejected :: penv where
  "env_big_rejected = env_fresh\<lparr>
     export_download := Inr (Blob 262144000),
     tgt_import := (\<lambda>t f pa ns nm. Inl (OtherException ''413: Request Entity Too Large''))\<rparr>"

definition big_final :: wstate where
  "big_final =
     \<lparr>thread_target_gl = gl_tgt,
      trace = [Log INFO (StartProject ''svc1'' 1), TgtProjectsGet 30 ''team/alpha/svc1'',
               Log INFO (NotExistsStart ''svc1''), Log INFO (FetchingFull ''svc1''),
               SrcProjectsGet 1, ExportCreate 1, ExportRefresh, Sleep 5, ExportRefresh,
               Sleep 5, ExportRefresh, ExportDownload,
               Log INFO (ExportSize ''svc1'' 262144000),
               Log WARNING (LargeFile 262144000),
               SetTimeout 120, Log INFO (TimeoutRaised 120),
               TgtImport 120 (Blob 262144000) ''svc1'' 10 ''svc1'', SetTimeout 30,
               SharedProjectsGet 7, Sleep 5, ImportRefresh, Sleep 5, ImportRefresh,
               Log INFO (MigrateSuccess ''svc1'' ''team/alpha'' ''svc1'')]\<rparr>"

definition big_rejected_final :: wstate where
  "big_rejected_final =
     \<lparr>thread_target_gl = gl_tgt,
      trace = [Log INFO (StartProject ''svc1'' 1), TgtProjectsGet 30 ''team/alpha/svc1'',
               Log INFO (NotExistsStart ''svc1''), Log INFO (FetchingFull ''svc1''),
               SrcProjectsGet 1, ExportCreate 1, ExportRefresh, Sleep 5, ExportRefresh,
               Sleep 5, ExportRefresh, ExportDownload,
               Log INFO (ExportSize ''svc1'' 262144000),
               Log WARNING (LargeFile 262144000),
               SetTimeout 120, Log INFO (TimeoutRaised 120),
               TgtImport 120 (Blob 262144000) ''svc1'' 10 ''svc1'', SetTimeout 30,
               Log ERROR (TooLarge ''svc1'' 262144000), Log INFO (Advice 0),
               Log INFO (Advice 1), Log INFO (Advice 2), SetTimeout 30,
               Log ERROR (MigrateError ''svc1'' ''413: Request Entity Too Large'')]\<rparr>"

text \<open>
  The scenario of the specification: the source group \<open>team/alpha\<close> (private) holds the
  projects \<open>svc1\<close> and \<open>svc2\<close> and the subgroup \<open>beta\<close> (public) with the project
  \<open>svc3\<close>. \<open>env_of p\<close> answers the worker of \<open>p\<close>: nothing on the target yet, export and
  import finished at the first look. \<open>target_groups existing step\<close>
  is a target that holds the groups \<open>existing\<close> (path and id) while the resolver runs for
  the source path \<open>step\<close>, and answers a creation at level \<open>i\<close> with the id \<open>100 + i\<close>.
  On \<open>denv_fresh\<close> the target holds nothing before the run.
\<close>

definition svc2 :: project where
  "svc2 = \<lparr>p_id = 2, p_name = ''svc2''\<rparr>"

definition svc3 :: project where
  "svc3 = \<lparr>p_id = 3, p_name = ''svc3''\<rparr>"

definition env_of :: "project \<Rightarrow> penv" where
  "env_of p = \<lparr>
     tgt_projects_get = (\<lambda>q. Inl not_found),
     tgt_project_delete = (\<lambda>x. None),
     src_projects_get = (\<lambda>i. Inr \<lparr>sp_path = p_name p, sp_name = p_name p\<rparr>),
     export_create = None,
     export_refresh = (\<lambda>k. Inr ''finished''),
     export_download = Inr (Blob 4096),
     tgt_import = (\<lambda>t f pa ns nm. Inr (RespDict (Some (200 + p_id p)))),
     shared_projects_get = (\<lambda>i. Inr \<lparr>o_id = i, o_import_status = Some ''finished''\<rparr>),
     import_refresh = (\<lambda>k. Inr (Some ''finished''))\<rparr>"

definition target_groups :: "(string \<times> nat) list \<Rightarrow> string \<Rightarrow> renv" where
  "target_groups existing step =
     \<lparr>tgt_groups_get = (\<lambda>i p. case map_of existing p of
                                  Some gid \<Rightarrow> Inr \<lparr>g_id = gid, g_full_path = p\<rparr>
                                | None \<Rightarrow> Inl not_found),
      tgt_groups_create = (\<lambda>i d. Inr \<lparr>g_id = 100 + i,
                                       g_full_path = level_prefix (split_on CHR ''/'' step) i\<rparr>)\<rparr>"

definition alpha_tree :: sgroup where
  "alpha_tree = SGroup 11 ''alpha'' ''alpha'' ''private'' [svc1, svc2]
                  [SGroup 12 ''beta'' ''beta'' ''public'' [svc3] []]"

definition denv_fresh :: denv where
  "denv_fresh = \<lparr>
     src_groups_get = (\<lambda>p. None),
     resolver_env = (\<lambda>step. if step = ''team/alpha'' then target_groups [] step
                             else target_groups [(''team'', 100), (''team/alpha'', 101)] step),
     src_projects_list = (\<lambda>p. None),
     src_subgroups_list = (\<lambda>p. None),
     worker_env = (\<lambda>path p. env_of p)\<rparr>"

text \<open>
  After a first run the target holds the three groups and the three projects
  (\<open>denv_rerun\<close>); on \<open>denv_partial\<close> it holds the groups and \<open>svc1\<close> only. \<open>env_exists\<close> is a
  target that answers every lookup with a project.
\<close>

definition denv_rerun :: denv where
  "denv_rerun = \<lparr>
     src_groups_get = (\<lambda>p. None),
     resolver_env = target_groups [(''team'', 100), (''team/alpha'', 101), (''team/alpha/beta'', 102)],
     src_projects_list = (\<lambda>p. None),
     src_subgroups_list = (\<lambda>p. None),
     worker_env = (\<lambda>path p. (env_of p)\<lparr>tgt_projects_get :=
                      (\<lambda>q. if q = path @ ''/'' @ p_name p then Inr \<lparr>tp_id = 200 + p_id p\<rparr>
                           else Inl not_found)\<rparr>)\<rparr>"

definition denv_partial :: denv where
  "denv_partial = denv_rerun\<lparr>
     worker_env := (\<lambda>path p. if p = svc1 then worker_env denv_rerun path p else env_of p)\<rparr>"

definition env_exists :: penv where
  "env_exists = env_fresh\<lparr>tgt_projects_get := (\<lambda>q. Inr \<lparr>tp_id = 201\<rparr>)\<rparr>"

definition wenv_exists :: "project \<Rightarrow> penv" where
  "wenv_exists p = env_exists"

definition wenv_mixed :: "project \<Rightarrow> penv" where
  "wenv_mixed p = (if p = svc1 then env_exists else env_of p)"

text \<open>The trace of the first scenario run.\<close>

definition fresh_trace :: "devent list" where
  "fresh_trace = run_trace (migrate_group denv_fresh gl_src gl_tgt 2 False ''team/alpha'' alpha_tree)"

text \<open>
  Two runs of the scenario, the second on the target the first one left. In the run on
  \<open>denv_flaky\<close> the target does not answer the import call of \<open>svc2\<close> in time, so
  that nothing of \<open>svc2\<close> reaches the target; the other projects are migrated. \<open>stored paths p\<close> answers the worker of \<open>p\<close> on a target that
  holds projects under exactly the paths \<open>paths\<close>, and \<open>denv_after tr\<close> is the platform of
  a run that follows a run with the trace \<open>tr\<close>: the target holds the three groups and the
  projects \<open>held tr\<close>, and every export and import finishes at the first look.
\<close>

definition denv_flaky :: denv where
  "denv_flaky = denv_fresh\<lparr>
     worker_env := (\<lambda>path p. if p = svc2
                      then (env_of p)\<lparr>tgt_import :=
                             (\<lambda>t f pa ns nm. Inl (OtherException ''Read timed out''))\<rparr>
                      else env_of p)\<rparr>"

definition stored :: "string list \<Rightarrow> project \<Rightarrow> penv" where
  "stored paths p = (env_of p)\<lparr>tgt_projects_get :=
      (\<lambda>q. if q \<in> set paths then Inr \<lparr>tp_id = 300\<rparr> else Inl not_found)\<rparr>"

definition denv_after :: "devent list \<Rightarrow> denv" where
  "denv_after tr = \<lparr>
     src_groups_get = (\<lambda>p. None),
     resolver_env = target_groups [(''team'', 100), (''team/alpha'', 101), (''team/alpha/beta'', 102)],
     src_projects_list = (\<lambda>p. None),
     src_subgroups_list = (\<lambda>p. None),
     worker_env = (\<lambda>path p. stored (held tr) p)\<rparr>"

definition flaky_trace :: "devent list" where
  "flaky_trace = run_trace (migrate_group denv_flaky gl_src gl_tgt 2 False ''team/alpha'' alpha_tree)"

definition after_fresh_trace :: "devent list" where
  "after_fresh_trace =
     run_trace (migrate_group (denv_after fresh_trace) gl_src gl_tgt 2 False ''team/alpha'' alpha_tree)"

definition after_flaky_trace :: "devent list" where
  "after_flaky_trace =
     run_trace (migrate_group (denv_after flaky_trace) gl_src gl_tgt 2 False ''team/alpha'' alpha_tree)"

section \<open>Properties\<close>

subsection \<open>State and loop equations\<close>

lemma trace_emit [simp]: "trace (emit evs s) = trace s @ evs"
  by (simp add: emit_def)

lemma tmo_emit [simp]: "tmo (emit evs s) = tmo s"
  by (simp add: emit_def tmo_def)

lemma tmo_set_timeout [simp]: "tmo (set_timeout t s) = t"
  by (simp add: set_timeout_def tmo_def)

lemma trace_set_timeout [simp]: "trace (set_timeout t s) = trace s @ [SetTimeout t]"
  by (simp add: set_timeout_def)

text \<open>
  The loop equations of the two waits, split by the loop test so that they can be used as
  rewrite rules.
\<close>

lemma export_wait_finished: "export_wait env name ''finished'' k s = Some (Next (), s)"
  by (subst export_wait.simps) simp

lemma export_wait_poll:
  "st \<noteq> ''finished'' \<Longrightarrow> export_wait env name st k s =
     (case export_refresh env k of
           Inl e \<Rightarrow> Some (Raise e, emit [Sleep 5, ExportRefresh] s)
         | Inr st' \<Rightarrow>
             if st' = ''failed''
             then Some (Return None, emit [Sleep 5, ExportRefresh, Log ERROR (ExportFailed name)] s)
             else export_wait env name st' (Suc k) (emit [Sleep 5, ExportRefresh] s))"
  by (subst export_wait.simps) simp

lemma import_wait_done:
  "o_import_status obj = None \<or> o_import_status obj = Some ''finished'' \<Longrightarrow>
   import_wait env name obj k s = Some (Next obj, s)"
  by (subst import_wait.simps) auto

lemma import_wait_poll:
  "o_import_status obj = Some st \<Longrightarrow> st \<noteq> ''finished'' \<Longrightarrow>
   import_wait env name obj k s =
     (case import_refresh env k of
           Inl e \<Rightarrow> Some (Raise e, emit [Sleep 5, ImportRefresh] s)
         | Inr st' \<Rightarrow>
             if st' = Some ''failed''
             then Some (Return None,
                        emit [Sleep 5, ImportRefresh, Log ERROR (ImportFailed name)] s)
             else import_wait env name (obj\<lparr>o_import_status := st'\<rparr>) (Suc k)
                    (emit [Sleep 5, ImportRefresh] s))"
  by (subst import_wait.simps) simp

lemmas worker_defs = migrate_project_def check_name_def check_name_except_def
  check_path_def check_path_except_def export_stage_def download_stage_def import_stage_def
  resolve_handle_def migrate_fetched_def then_step_def emit_def tmo_def set_timeout_def
  file_size_mb_def unbound_thread_project_def Let_def
  export_wait_finished export_wait_poll import_wait_done import_wait_poll

lemmas example_defs = env_fresh_def gl_src_def gl_tgt_def svc1_def svc_one_def tg_alpha_def
  not_found_def server_error_def

subsection \<open>Failure isolation of the worker\<close>

text \<open>
  C2 (code defect). The claim: whatever error is raised at whatever state, the worker
  returns a failed outcome that carries the message, and no error leaves the worker.
  The handler of lines 272-274 formats \<open>thread_project.name\<close>, which line 174 binds.
  When the fetch of line 174 itself raises, the handler raises \<open>UnboundLocalError\<close> and
  that exception leaves \<open>migrate_project\<close>; the message of the original error is not
  logged. The sibling log lines 255 and 266 format \<open>project.name\<close>, which is always bound.
\<close>

theorem fetch_error_leaves_worker:
  "migrate_project env_fetch_fails gl_src gl_tgt svc1 (Some tg_alpha) False =
     Some (Inl unbound_thread_project,
           \<lparr>thread_target_gl = gl_tgt,
            trace = [Log INFO (StartProject ''svc1'' 1), TgtProjectsGet 30 ''team/alpha/svc1'',
                     Log INFO (NotExistsStart ''svc1''), Log INFO (FetchingFull ''svc1''),
                     SrcProjectsGet 1]\<rparr>)"
  by (simp add: worker_defs example_defs env_fetch_fails_def)

subsection \<open>The second existence check\<close>

text \<open>
  C6 (code defect). The claim: when the canonical path differs from the name, the check by
  path repeats the logic of the check by name; a lookup error other than not-found with
  \<open>overwrite=true\<close> is logged and the migration is still attempted. The handler of lines
  191-193 returns \<open>None\<close> whatever \<open>overwrite\<close> is: with \<open>overwrite=true\<close> a server error
  of the lookup by path ends the worker before any export, while the same error of the
  lookup by name (handler of lines 163-170) lets the migration go on to a successful import.
\<close>

theorem path_check_error_ends_overwrite:
  "migrate_project env_path_error gl_src gl_tgt svc_one (Some tg_alpha) True =
     Some (Inr None,
           \<lparr>thread_target_gl = gl_tgt,
            trace = [Log INFO (StartProject ''Service One'' 9),
                     TgtProjectsGet 30 ''team/alpha/Service One'',
                     Log INFO (NotExistsStart ''Service One''),
                     Log INFO (FetchingFull ''Service One''), SrcProjectsGet 9,
                     TgtProjectsGet 30 ''team/alpha/service-one'',
                     Log ERROR (PathCheckError ''500: Internal Server Error'')]\<rparr>)
   \<and> migrate_project env_name_error gl_src gl_tgt svc_one (Some tg_alpha) True =
     Some (Inr (Some \<lparr>o_id = 7, o_import_status = Some ''finished''\<rparr>),
           \<lparr>thread_target_gl = gl_tgt,
            trace = [Log INFO (StartProject ''Service One'' 9),
                     TgtProjectsGet 30 ''team/alpha/Service One'',
                     Log ERROR (DeleteError ''500: Internal Server Error''),
                     Log INFO (ContinueImport ''Service One''),
                     Log INFO (FetchingFull ''Service One''), SrcProjectsGet 9,
                     TgtProjectsGet 30 ''team/alpha/service-one'', ExportCreate 9,
                     ExportRefresh, Sleep 5, ExportRefresh, Sleep 5, ExportRefresh,
                     ExportDownload, Log INFO (ExportSize ''Service One'' 4096),
                     TgtImport 30 (Blob 4096) ''service-one'' 10 ''Service One'',
                     SetTimeout 30, SharedProjectsGet 7, Sleep 5, ImportRefresh,
                     Sleep 5, ImportRefresh,
                     Log INFO (MigrateSuccess ''Service One'' ''team/alpha'' ''service-one'')]\<rparr>)"
  by (simp add: worker_defs example_defs env_path_error_def env_name_error_def)

subsection \<open>The two waits\<close>

lemma export_wait_returns:
  "\<forall>j<n. \<exists>st'. export_refresh env (k + j) = Inr st' \<and> st' \<noteq> ''finished'' \<and> st' \<noteq> ''failed'' \<Longrightarrow>
   export_refresh env (k + n) = Inr stn \<Longrightarrow> stn = ''finished'' \<or> stn = ''failed'' \<Longrightarrow>
   st \<noteq> ''finished'' \<Longrightarrow>
   export_wait env name st k s =
     Some (if stn = ''failed'' then Return None else Next (),
           emit (concat (replicate (Suc n) [Sleep 5, ExportRefresh]) @
                 (if stn = ''failed'' then [Log ERROR (ExportFailed name)] else [])) s)"
proof (induction n arbitrary: k st s)
  case 0
  then show ?case
    by (auto simp: export_wait_poll export_wait_finished emit_def)
next
  case (Suc n)
  from Suc.prems(1) obtain st' where st': "export_refresh env k = Inr st'" "st' \<noteq> ''finished''" "st' \<noteq> ''failed''"
    by force
  have "\<forall>j<n. \<exists>st'. export_refresh env (Suc k + j) = Inr st' \<and> st' \<noteq> ''finished'' \<and> st' \<noteq> ''failed''"
  proof (intro allI impI)
    fix j assume "j < n"
    then have "Suc j < Suc n" by simp
    from Suc.prems(1)[rule_format, OF this] show "\<exists>st'. export_refresh env (Suc k + j) = Inr st' \<and> st' \<noteq> ''finished'' \<and> st' \<noteq> ''failed''"
      by simp
  qed
  moreover have "export_refresh env (Suc k + n) = Inr stn" using Suc.prems(2) by simp
  ultimately have "export_wait env name st' (Suc k) (emit [Sleep 5, ExportRefresh] s) =
     Some (if stn = ''failed'' then Return None else Next (),
           emit (concat (replicate (Suc n) [Sleep 5, ExportRefresh]) @
                 (if stn = ''failed'' then [Log ERROR (ExportFailed name)] else [])) (emit [Sleep 5, ExportRefresh] s))"
    using Suc.IH[of "Suc k" st'] Suc.prems(3) st' by blast
  then show ?case using st' Suc.prems(4)
    by (simp add: export_wait_poll emit_def)
qed

lemma export_wait_Some_terminal:
  assumes run: "export_wait env name st k s = Some y"
      and ans: "\<forall>j. \<exists>st'. export_refresh env j = Inr st'"
  shows "st = ''finished'' \<or>
         (\<exists>j\<ge>k. export_refresh env j = Inr ''finished'' \<or> export_refresh env j = Inr ''failed'')"
proof -
  have "(\<forall>j. \<exists>st'. export_refresh env j = Inr st') \<longrightarrow>
         st = ''finished'' \<or>
         (\<exists>j\<ge>k. export_refresh env j = Inr ''finished'' \<or> export_refresh env j = Inr ''failed'')"
  proof (rule export_wait.raw_induct[where P = "\<lambda>env name st k s y.
           (\<forall>j. \<exists>st'. export_refresh env j = Inr st') \<longrightarrow>
           st = ''finished'' \<or>
           (\<exists>j\<ge>k. export_refresh env j = Inr ''finished'' \<or> export_refresh env j = Inr ''failed'')",
           OF _ run],
         goal_cases)
    case (1 ew env name st k s y)
    show ?case
    proof (intro impI)
      assume a: "\<forall>j. \<exists>st'. export_refresh env j = Inr st'"
      then obtain st' where st': "export_refresh env k = Inr st'" by blast
      show "st = ''finished'' \<or>
            (\<exists>j\<ge>k. export_refresh env j = Inr ''finished'' \<or> export_refresh env j = Inr ''failed'')"
      proof (cases "st = ''finished'' \<or> st' = ''failed''")
        case True
        then show ?thesis using st' by auto
      next
        case False
        then have "ew env name st' (Suc k) (emit [Sleep 5, ExportRefresh] s) = Some y"
          using 1(2) st' by simp
        from 1(1)[OF this] a
        have "st' = ''finished'' \<or>
              (\<exists>j\<ge>Suc k. export_refresh env j = Inr ''finished'' \<or> export_refresh env j = Inr ''failed'')"
          by blast
        then show ?thesis
        proof
          assume "st' = ''finished''"
          then show ?thesis using st' by auto
        next
          assume "\<exists>j\<ge>Suc k. export_refresh env j = Inr ''finished'' \<or> export_refresh env j = Inr ''failed''"
          then obtain j where "Suc k \<le> j" "export_refresh env j = Inr ''finished'' \<or> export_refresh env j = Inr ''failed''"
            by blast
          then have "k \<le> j \<and> (export_refresh env j = Inr ''finished'' \<or> export_refresh env j = Inr ''failed'')"
            by simp
          then show ?thesis by blast
        qed
      qed
    qed
  qed
  then show ?thesis using ans by blast
qed


lemma import_wait_returns:
  "\<forall>j<n. \<exists>st'. import_refresh env (k + j) = Inr (Some st') \<and> st' \<noteq> ''finished'' \<and> st' \<noteq> ''failed'' \<Longrightarrow>
   import_refresh env (k + n) = Inr (Some stn) \<Longrightarrow> stn = ''finished'' \<or> stn = ''failed'' \<Longrightarrow>
   o_import_status obj = Some st \<Longrightarrow> st \<noteq> ''finished'' \<Longrightarrow>
   import_wait env name obj k s =
     Some (if stn = ''failed'' then Return None else Next (obj\<lparr>o_import_status := Some stn\<rparr>),
           emit (concat (replicate (Suc n) [Sleep 5, ImportRefresh]) @
                 (if stn = ''failed'' then [Log ERROR (ImportFailed name)] else [])) s)"
proof (induction n arbitrary: k st s obj)
  case 0
  then show ?case
    by (auto simp: import_wait_poll import_wait_done emit_def)
next
  case (Suc n)
  from Suc.prems(1) obtain st' where st': "import_refresh env k = Inr (Some st')" "st' \<noteq> ''finished''" "st' \<noteq> ''failed''"
    by force
  have "\<forall>j<n. \<exists>st'. import_refresh env (Suc k + j) = Inr (Some st') \<and> st' \<noteq> ''finished'' \<and> st' \<noteq> ''failed''"
  proof (intro allI impI)
    fix j assume "j < n"
    then have "Suc j < Suc n" by simp
    from Suc.prems(1)[rule_format, OF this]
    show "\<exists>st'. import_refresh env (Suc k + j) = Inr (Some st') \<and> st' \<noteq> ''finished'' \<and> st' \<noteq> ''failed''"
      by simp
  qed
  moreover have "import_refresh env (Suc k + n) = Inr (Some stn)" using Suc.prems(2) by simp
  moreover have "o_import_status (obj\<lparr>o_import_status := Some st'\<rparr>) = Some st'" by simp
  ultimately have "import_wait env name (obj\<lparr>o_import_status := Some st'\<rparr>) (Suc k) (emit [Sleep 5, ImportRefresh] s) =
     Some (if stn = ''failed'' then Return None else Next (obj\<lparr>o_import_status := Some st'\<rparr>\<lparr>o_import_status := Some stn\<rparr>),
           emit (concat (replicate (Suc n) [Sleep 5, ImportRefresh]) @
                 (if stn = ''failed'' then [Log ERROR (ImportFailed name)] else [])) (emit [Sleep 5, ImportRefresh] s))"
    using Suc.IH[of "Suc k" "obj\<lparr>o_import_status := Some st'\<rparr>" st'] Suc.prems(3) st' by blast
  then show ?case using st' Suc.prems(4,5)
    by (simp add: import_wait_poll emit_def)
qed

lemma import_wait_Some_terminal:
  assumes run: "import_wait env name obj k s = Some y"
      and ans: "\<forall>j. \<exists>st'. import_refresh env j = Inr (Some st')"
  shows "o_import_status obj = None \<or> o_import_status obj = Some ''finished'' \<or>
         (\<exists>j\<ge>k. import_refresh env j = Inr (Some ''finished'') \<or>
                import_refresh env j = Inr (Some ''failed''))"
proof -
  have "(\<forall>j. \<exists>st'. import_refresh env j = Inr (Some st')) \<longrightarrow>
         o_import_status obj = None \<or> o_import_status obj = Some ''finished'' \<or>
         (\<exists>j\<ge>k. import_refresh env j = Inr (Some ''finished'') \<or>
                import_refresh env j = Inr (Some ''failed''))"
  proof (rule import_wait.raw_induct[where P = "\<lambda>env name obj k s y.
           (\<forall>j. \<exists>st'. import_refresh env j = Inr (Some st')) \<longrightarrow>
           o_import_status obj = None \<or> o_import_status obj = Some ''finished'' \<or>
           (\<exists>j\<ge>k. import_refresh env j = Inr (Some ''finished'') \<or>
                  import_refresh env j = Inr (Some ''failed''))",
           OF _ run],
         goal_cases)
    case (1 iw env name obj k s y)
    show ?case
    proof (intro impI)
      assume a: "\<forall>j. \<exists>st'. import_refresh env j = Inr (Some st')"
      then obtain st' where st': "import_refresh env k = Inr (Some st')" by blast
      show "o_import_status obj = None \<or> o_import_status obj = Some ''finished'' \<or>
            (\<exists>j\<ge>k. import_refresh env j = Inr (Some ''finished'') \<or>
                   import_refresh env j = Inr (Some ''failed''))"
      proof (cases "o_import_status obj = None \<or> o_import_status obj = Some ''finished'' \<or> st' = ''failed''")
        case True
        then show ?thesis using st' by auto
      next
        case False
        then have "iw env name (obj\<lparr>o_import_status := Some st'\<rparr>) (Suc k) (emit [Sleep 5, ImportRefresh] s) = Some y"
          using 1(2) st' by simp
        from 1(1)[OF this] a
        have "st' = ''finished'' \<or>
              (\<exists>j\<ge>Suc k. import_refresh env j = Inr (Some ''finished'') \<or>
                        import_refresh env j = Inr (Some ''failed''))"
          by simp
        then show ?thesis
        proof
          assume "st' = ''finished''"
          then show ?thesis using st' by auto
        next
          assume "\<exists>j\<ge>Suc k. import_refresh env j = Inr (Some ''finished'') \<or>
                        import_refresh env j = Inr (Some ''failed'')"
          then obtain j where "Suc k \<le> j" "import_refresh env j = Inr (Some ''finished'') \<or>
                        import_refresh env j = Inr (Some ''failed'')"
            by blast
          then have "k \<le> j \<and> (import_refresh env j = Inr (Some ''finished'') \<or>
                        import_refresh env j = Inr (Some ''failed''))"
            by simp
          then show ?thesis by blast
        qed
      qed
    qed
  qed
  then show ?thesis using ans by blast
qed

lemma first_terminal:
  fixes P :: "nat \<Rightarrow> bool"
  assumes "P j" "k \<le> j"
  shows "\<exists>n. P (k + n) \<and> (\<forall>i<n. \<not> P (k + i))"
proof -
  define Q where "Q n = P (k + n)" for n
  have "Q (j - k)" using assms by (simp add: Q_def)
  then have "Q (LEAST n. Q n)" by (rule LeastI)
  moreover have "\<forall>i<(LEAST n. Q n). \<not> Q i" using not_less_Least by blast
  ultimately show ?thesis unfolding Q_def by blast
qed

lemma run_batch_blocks:
  "project \<in> set ps \<Longrightarrow>
   migrate_project (wenv project) source_gl target_gl project target_group overwrite = None \<Longrightarrow>
   run_batch wenv path source_gl target_gl target_group overwrite ps counts = None"
proof (induction ps arbitrary: counts)
  case Nil
  then show ?case by simp
next
  case (Cons a ps)
  show ?case
  proof (cases "a = project")
    case True
    then show ?thesis using Cons.prems(2) by simp
  next
    case False
    then have "project \<in> set ps" using Cons.prems(1) by simp
    then have "\<And>c. run_batch wenv path source_gl target_gl target_group overwrite ps c = None"
      using Cons.IH Cons.prems(2) by blast
    then show ?thesis
      by (simp split: option.splits sum.splits prod.splits)
  qed
qed


lemma export_stage_returns_iff:
  assumes ex: "\<forall>j. export_refresh env j = Inr (est j)"
      and ex0: "est 0 = ''failed'' \<longrightarrow> est 1 = ''failed''"
      and cr: "export_create env = None"
  shows "(export_stage env pid name s \<noteq> None) = (\<exists>j. est j = ''finished'' \<or> est j = ''failed'')"
proof -
  let ?s = "emit [ExportRefresh] (emit [ExportCreate pid] s)"
  have unfold: "export_stage env pid name s = export_wait env name (est 0) 1 ?s"
    using cr ex by (simp add: export_stage_def Let_def)
  have ans: "\<forall>j. \<exists>st'. export_refresh env j = Inr st'" using ex by simp
  show ?thesis
  proof
    assume "export_stage env pid name s \<noteq> None"
    then obtain y where "export_wait env name (est 0) 1 ?s = Some y" using unfold by auto
    from export_wait_Some_terminal[OF this ans] show "\<exists>j. est j = ''finished'' \<or> est j = ''failed''"
      using ex by auto
  next
    assume t: "\<exists>j. est j = ''finished'' \<or> est j = ''failed''"
    show "export_stage env pid name s \<noteq> None"
    proof (cases "est 0 = ''finished''")
      case True
      then show ?thesis using unfold by (simp add: export_wait_finished)
    next
      case False
      from t obtain j where j: "est j = ''finished'' \<or> est j = ''failed''" by blast
      have "\<exists>j\<ge>1. est j = ''finished'' \<or> est j = ''failed''"
      proof (cases "j = 0")
        case True
        then have "est 1 = ''failed''" using j False ex0 by simp
        then show ?thesis by blast
      next
        case False
        then have "1 \<le> j" by simp
        then show ?thesis using j by blast
      qed
      then obtain j' where "est j' = ''finished'' \<or> est j' = ''failed''" "1 \<le> j'" by blast
      from first_terminal[of "\<lambda>j. est j = ''finished'' \<or> est j = ''failed''", OF this]
      obtain n where n: "est (1 + n) = ''finished'' \<or> est (1 + n) = ''failed''"
        "\<forall>i<n. \<not> (est (1 + i) = ''finished'' \<or> est (1 + i) = ''failed'')" by blast
      have "\<forall>j<n. \<exists>st'. export_refresh env (1 + j) = Inr st' \<and> st' \<noteq> ''finished'' \<and> st' \<noteq> ''failed''"
        using n(2) ex by simp
      moreover have "export_refresh env (1 + n) = Inr (est (1 + n))" using ex by simp
      ultimately show ?thesis
        using export_wait_returns[of n env 1 "est (1 + n)" "est 0" name ?s] n(1) False unfold
        by simp
    qed
  qed
qed

lemma import_wait_returns_iff:
  assumes im: "\<forall>j. import_refresh env j = Inr (Some (ist j))"
      and h: "o_import_status obj = Some st0"
      and im0: "st0 = ''failed'' \<longrightarrow> ist 0 = ''failed''"
  shows "(import_wait env pn obj 0 s \<noteq> None) =
         (st0 = ''finished'' \<or> st0 = ''failed'' \<or> (\<exists>j. ist j = ''finished'' \<or> ist j = ''failed''))"
proof -
  have ans: "\<forall>j. \<exists>st'. import_refresh env j = Inr (Some st')" using im by simp
  show ?thesis
  proof
    assume "import_wait env pn obj 0 s \<noteq> None"
    then obtain y where "import_wait env pn obj 0 s = Some y" by auto
    from import_wait_Some_terminal[OF this ans]
    show "st0 = ''finished'' \<or> st0 = ''failed'' \<or> (\<exists>j. ist j = ''finished'' \<or> ist j = ''failed'')"
      using im h by auto
  next
    assume t: "st0 = ''finished'' \<or> st0 = ''failed'' \<or> (\<exists>j. ist j = ''finished'' \<or> ist j = ''failed'')"
    show "import_wait env pn obj 0 s \<noteq> None"
    proof (cases "st0 = ''finished''")
      case True
      then show ?thesis using h by (simp add: import_wait_done)
    next
      case False
      then have "\<exists>j. ist j = ''finished'' \<or> ist j = ''failed''" using t im0 by blast
      then obtain j' where "ist j' = ''finished'' \<or> ist j' = ''failed''" "0 \<le> j'" by blast
      from first_terminal[of "\<lambda>j. ist j = ''finished'' \<or> ist j = ''failed''", OF this]
      obtain n where n: "ist (0 + n) = ''finished'' \<or> ist (0 + n) = ''failed''"
        "\<forall>i<n. \<not> (ist (0 + i) = ''finished'' \<or> ist (0 + i) = ''failed'')" by blast
      have "\<forall>j<n. \<exists>st'. import_refresh env (0 + j) = Inr (Some st') \<and> st' \<noteq> ''finished'' \<and> st' \<noteq> ''failed''"
        using n(2) im by simp
      moreover have "import_refresh env (0 + n) = Inr (Some (ist (0 + n)))" using im by simp
      ultimately show ?thesis
        using import_wait_returns[of n env 0 "ist (0 + n)" obj st0 pn s] n(1) False h
        by simp
    qed
  qed
qed

lemma check_name_not_found:
  "tgt_projects_get env (tgp @ ''/'' @ pn) = Inl (GitlabGetError m) \<Longrightarrow>
   check_name env pn tgp overwrite s =
     (Next (), emit [TgtProjectsGet (tmo s) (tgp @ ''/'' @ pn), Log INFO (NotExistsStart pn)] s)"
  by (simp add: check_name_def check_name_except_def Let_def emit_def)

lemma check_path_not_found:
  "tgt_projects_get env (tgp @ ''/'' @ tpath) = Inl (GitlabGetError m) \<Longrightarrow>
   check_path env pn tpath tgp overwrite s =
     (Next (), if tpath \<noteq> pn then emit [TgtProjectsGet (tmo s) (tgp @ ''/'' @ tpath)] s else s)"
  by (simp add: check_path_def check_path_except_def Let_def)

lemma worker_blocks_on_export:
  assumes stuck: "\<forall>s. export_stage env (p_id project) (sp_name tp) s = None"
      and nf: "\<forall>p. \<exists>m. tgt_projects_get env p = Inl (GitlabGetError m)"
      and src: "src_projects_get env (p_id project) = Inr tp"
  shows "migrate_project env source_gl target_gl project (Some tg) overwrite = None"
proof -
  obtain m where m: "tgt_projects_get env (g_full_path tg @ ''/'' @ p_name project) = Inl (GitlabGetError m)"
    using nf by blast
  obtain m' where m': "tgt_projects_get env (g_full_path tg @ ''/'' @ sp_path tp) = Inl (GitlabGetError m')"
    using nf by blast
  have "migrate_fetched env project tg overwrite tp s = None" for s
    by (simp add: migrate_fetched_def Let_def check_path_not_found[OF m'] then_step_def stuck)
  then show ?thesis
    by (simp add: migrate_project_def Let_def check_name_not_found[OF m] src)
qed

text \<open>
  C10. Neither wait has a retry cap or a maximum total wait. Provided the polls themselves
  answer (a poll that raises ends the worker through the handler) and a status first read
  as \<open>failed\<close> is still \<open>failed\<close> at the next poll (the status read at line 198, or
  carried by the import handle, is tested against \<open>finished\<close> only), each wait ends if and
  only if some poll reads \<open>finished\<close> or \<open>failed\<close>, however late. A job that never
  reaches either status makes the worker never return, and with it the coordinator of
  every batch that contains the project.
\<close>

theorem wait_loops_unbounded:
  assumes ex: "\<forall>j. export_refresh env j = Inr (est j)"
      and ex0: "est 0 = ''failed'' \<longrightarrow> est 1 = ''failed''"
      and cr: "export_create env = None"
      and im: "\<forall>j. import_refresh env j = Inr (Some (ist j))"
      and h: "o_import_status obj = Some st0"
      and im0: "st0 = ''failed'' \<longrightarrow> ist 0 = ''failed''"
  shows "((export_stage env pid name s \<noteq> None) = (\<exists>j. est j = ''finished'' \<or> est j = ''failed''))
       \<and> ((import_wait env pn obj 0 s' \<noteq> None) =
            (st0 = ''finished'' \<or> st0 = ''failed'' \<or> (\<exists>j. ist j = ''finished'' \<or> ist j = ''failed'')))
       \<and> ((\<forall>j. est j \<noteq> ''finished'' \<and> est j \<noteq> ''failed'') \<longrightarrow>
            (\<forall>p. \<exists>m. tgt_projects_get env p = Inl (GitlabGetError m)) \<longrightarrow>
            (\<exists>tp. src_projects_get env (p_id project) = Inr tp) \<longrightarrow>
              migrate_project env source_gl target_gl project (Some tg) overwrite = None
              \<and> (\<forall>wenv ps path counts. project \<in> set ps \<and> wenv project = env \<longrightarrow>
                     run_batch wenv path source_gl target_gl (Some tg) overwrite ps counts = None))"
proof (intro conjI impI)
  show "(export_stage env pid name s \<noteq> None) = (\<exists>j. est j = ''finished'' \<or> est j = ''failed'')"
    by (rule export_stage_returns_iff[OF ex ex0 cr])
  show "(import_wait env pn obj 0 s' \<noteq> None) =
            (st0 = ''finished'' \<or> st0 = ''failed'' \<or> (\<exists>j. ist j = ''finished'' \<or> ist j = ''failed''))"
    by (rule import_wait_returns_iff[OF im h im0])
next
  assume never: "\<forall>j. est j \<noteq> ''finished'' \<and> est j \<noteq> ''failed''"
     and nf: "\<forall>p. \<exists>m. tgt_projects_get env p = Inl (GitlabGetError m)"
     and src: "\<exists>tp. src_projects_get env (p_id project) = Inr tp"
  from src obtain tp where tp: "src_projects_get env (p_id project) = Inr tp" by blast
  have "\<forall>s. export_stage env (p_id project) (sp_name tp) s = None"
    using export_stage_returns_iff[OF ex ex0 cr] never by blast
  from worker_blocks_on_export[OF this nf tp]
  show w: "migrate_project env source_gl target_gl project (Some tg) overwrite = None" .
  show "\<forall>wenv ps path counts. project \<in> set ps \<and> wenv project = env \<longrightarrow>
                     run_batch wenv path source_gl target_gl (Some tg) overwrite ps counts = None"
    using w run_batch_blocks by blast
qed

theorem wait_loops_unbounded_witness:
  "export_stage env_fresh 1 ''svc1'' \<lparr>thread_target_gl = gl_tgt, trace = []\<rparr> \<noteq> None
   \<and> import_wait env_fresh ''svc1'' \<lparr>o_id = 7, o_import_status = Some ''started''\<rparr> 0
         \<lparr>thread_target_gl = gl_tgt, trace = []\<rparr> \<noteq> None
   \<and> export_stage env_stuck 1 ''svc1'' \<lparr>thread_target_gl = gl_tgt, trace = []\<rparr> = None
   \<and> migrate_project env_stuck gl_src gl_tgt svc1 (Some tg_alpha) False = None
   \<and> run_batch (\<lambda>p. env_stuck) ''team/alpha'' gl_src gl_tgt (Some tg_alpha) False [svc1] (0, 0) = None"
proof -
  let ?est = "\<lambda>k::nat. if k < 2 then ''started'' else ''finished''"
  let ?ist = "\<lambda>k::nat. if k < 1 then ''started'' else ''finished''"
  let ?stuck = "\<lambda>k::nat. ''started''"
  let ?obj = "\<lparr>o_id = 7, o_import_status = Some ''started''\<rparr>"
  let ?s = "\<lparr>thread_target_gl = gl_tgt, trace = []\<rparr>"
  have ex: "\<forall>j. export_refresh env_fresh j = Inr (?est j)" by (simp add: env_fresh_def)
  have ex0: "?est 0 = ''failed'' \<longrightarrow> ?est 1 = ''failed''" by simp
  have cr: "export_create env_fresh = None" by (simp add: env_fresh_def)
  have im: "\<forall>j. import_refresh env_fresh j = Inr (Some (?ist j))" by (simp add: env_fresh_def)
  have h: "o_import_status ?obj = Some ''started''" by simp
  have im0: "''started'' = ''failed'' \<longrightarrow> ?ist 0 = ''failed''" by simp
  have sx: "\<forall>j. export_refresh env_stuck j = Inr (?stuck j)" by (simp add: env_stuck_def)
  have sx0: "?stuck 0 = ''failed'' \<longrightarrow> ?stuck 1 = ''failed''" by simp
  have scr: "export_create env_stuck = None" by (simp add: env_stuck_def env_fresh_def)
  have sim: "\<forall>j. import_refresh env_stuck j = Inr (Some (?ist j))"
    by (simp add: env_stuck_def env_fresh_def)
  have fin: "\<exists>j. ?est j = ''finished'' \<or> ?est j = ''failed''" by (rule exI[of _ 2]) simp
  have ifin: "\<exists>j. ?ist j = ''finished'' \<or> ?ist j = ''failed''" by (rule exI[of _ 1]) simp
  have never: "\<forall>j. ?stuck j \<noteq> ''finished'' \<and> ?stuck j \<noteq> ''failed''" by simp
  have nf: "\<forall>p. \<exists>m. tgt_projects_get env_stuck p = Inl (GitlabGetError m)"
    by (simp add: env_stuck_def env_fresh_def not_found_def)
  have src: "\<exists>tp. src_projects_get env_stuck (p_id svc1) = Inr tp"
    by (simp add: env_stuck_def env_fresh_def)
  note A = wait_loops_unbounded[OF ex ex0 cr im h im0, of 1 "''svc1''" ?s "''svc1''" ?s
             svc1 gl_src gl_tgt tg_alpha False]
  note B = wait_loops_unbounded[OF sx sx0 scr sim h im0, of 1 "''svc1''" ?s "''svc1''" ?s
             svc1 gl_src gl_tgt tg_alpha False]
  have 1: "export_stage env_fresh 1 ''svc1'' ?s \<noteq> None" using A fin by blast
  have 2: "import_wait env_fresh ''svc1'' ?obj 0 ?s \<noteq> None" using A ifin by blast
  have 3: "export_stage env_stuck 1 ''svc1'' ?s = None" using B never by blast
  have 4: "migrate_project env_stuck gl_src gl_tgt svc1 (Some tg_alpha) False = None"
    using B never nf src by blast
  have every: "\<forall>wenv ps path counts. svc1 \<in> set ps \<and> wenv svc1 = env_stuck \<longrightarrow>
                 run_batch wenv path gl_src gl_tgt (Some tg_alpha) False ps counts = None"
    using B never nf src by blast
  have 5: "run_batch (\<lambda>p. env_stuck) ''team/alpha'' gl_src gl_tgt (Some tg_alpha) False [svc1] (0, 0) = None"
    using every[rule_format, where wenv = "\<lambda>p. env_stuck" and ps = "[svc1]"] by simp
  show ?thesis using 1 2 3 4 5 by blast
qed

subsection \<open>The scoped timeout of the import\<close>

text \<open>
  Every block of the worker keeps the invariant \<open>scoped\<close>: the session has its original
  timeout, and every call made so far had the timeout \<open>call_ok\<close> asks for.
\<close>

lemma scoped_emit: "scoped orig s \<Longrightarrow> \<forall>ev\<in>set evs. call_ok orig ev \<Longrightarrow> scoped orig (emit evs s)"
  by (auto simp: scoped_def)

lemma check_name_scoped:
  "scoped orig s \<Longrightarrow> scoped orig (snd (check_name env pn tgp ov s))"
  by (auto simp: check_name_def check_name_except_def Let_def scoped_def
           split: sum.splits option.splits exn.splits)

lemma check_path_scoped:
  "scoped orig s \<Longrightarrow> scoped orig (snd (check_path env pn tp tgp ov s))"
  by (auto simp: check_path_def check_path_except_def Let_def scoped_def
           split: sum.splits option.splits exn.splits)

lemma download_scoped:
  "scoped orig s \<Longrightarrow> scoped orig (snd (download_stage env name s))"
  by (auto simp: download_stage_def Let_def scoped_def split: sum.splits)

lemma resolve_handle_scoped:
  "scoped orig s \<Longrightarrow> scoped orig (snd (resolve_handle env pn r s))"
  by (auto simp: resolve_handle_def Let_def scoped_def
           split: sum.splits option.splits import_response.splits)

lemma import_stage_scoped:
  "scoped orig s \<Longrightarrow> scoped orig (snd (import_stage env name f pa ns nm s))"
  by (auto simp: import_stage_def Let_def scoped_def split: sum.splits)

lemma export_wait_scoped:
  assumes run: "export_wait env name st k s = Some y"
  shows "scoped orig s \<longrightarrow> scoped orig (snd y)"
proof (rule export_wait.raw_induct[where P = "\<lambda>env name st k s y. scoped orig s \<longrightarrow> scoped orig (snd y)",
        OF _ run], goal_cases)
  case (1 ew env name st k s y)
  show ?case
  proof
    assume sc: "scoped orig s"
    show "scoped orig (snd y)"
    proof (cases "st = ''finished''")
      case True
      then show ?thesis using 1(2) sc by auto
    next
      case False
      show ?thesis
      proof (cases "export_refresh env k")
        case (Inl e)
        then show ?thesis using 1(2) False sc by (auto simp: scoped_emit)
      next
        case (Inr st')
        show ?thesis
        proof (cases "st' = ''failed''")
          case True
          then show ?thesis using 1(2) False Inr sc by (auto simp: scoped_emit)
        next
          case f: False
          then have "ew env name st' (Suc k) (emit [Sleep 5, ExportRefresh] s) = Some y"
            using 1(2) False Inr by simp
          from 1(1)[OF this] show ?thesis using sc by (simp add: scoped_emit)
        qed
      qed
    qed
  qed
qed

lemma import_wait_scoped:
  assumes run: "import_wait env name obj k s = Some y"
  shows "scoped orig s \<longrightarrow> scoped orig (snd y)"
proof (rule import_wait.raw_induct[where P = "\<lambda>env name obj k s y. scoped orig s \<longrightarrow> scoped orig (snd y)",
        OF _ run], goal_cases)
  case (1 iw env name obj k s y)
  show ?case
  proof
    assume sc: "scoped orig s"
    show "scoped orig (snd y)"
    proof (cases "o_import_status obj \<noteq> None \<and> o_import_status obj \<noteq> Some ''finished''")
      case False
      then show ?thesis using 1(2) sc by auto
    next
      case True
      show ?thesis
      proof (cases "import_refresh env k")
        case (Inl e)
        then show ?thesis using 1(2) True sc by (auto simp: scoped_emit)
      next
        case (Inr st')
        show ?thesis
        proof (cases "st' = Some ''failed''")
          case t: True
          then show ?thesis using 1(2) True Inr sc by (auto simp: scoped_emit)
        next
          case f: False
          then have "iw env name (obj\<lparr>o_import_status := st'\<rparr>) (Suc k) (emit [Sleep 5, ImportRefresh] s) = Some y"
            using 1(2) True Inr by simp
          from 1(1)[OF this] show ?thesis using sc by (simp add: scoped_emit)
        qed
      qed
    qed
  qed
qed

lemma export_stage_scoped:
  "export_stage env pid name s = Some y \<Longrightarrow> scoped orig s \<Longrightarrow> scoped orig (snd y)"
  by (auto simp: export_stage_def Let_def scoped_emit split: option.splits sum.splits
           dest!: export_wait_scoped[where orig = orig])

lemma then_step_cases:
  assumes "then_step m f = Some y"
  obtains (continue) a s1 where "m = Some (Next a, s1)" "f a s1 = Some y"
        | (return) r where "m = Some (Return r, snd y)"
        | (raise) e where "m = Some (Raise e, snd y)"
  using assms by (auto simp: then_step_def split: option.splits prod.splits step.splits)

lemma migrate_fetched_scoped:
  assumes run: "migrate_fetched env project tg ov tp s = Some y" and sc: "scoped orig s"
  shows "scoped orig (snd y)"
proof -
  let ?cp = "check_path env (p_name project) (sp_path tp) (g_full_path tg) ov s"
  have 1: "scoped orig (snd ?cp)" by (rule check_path_scoped[OF sc])
  from run show ?thesis unfolding migrate_fetched_def Let_def
  proof (cases rule: then_step_cases)
    case (continue a s1)
    then have s1: "scoped orig s1" using 1 by (metis option.inject snd_conv)
    from continue(2) show ?thesis
    proof (cases rule: then_step_cases)
      case (continue b s2)
      then have s2: "scoped orig s2" using export_stage_scoped[OF continue(1) s1] by simp
      from continue(2) show ?thesis
      proof (cases rule: then_step_cases)
        case (continue f s3)
        then have s3: "scoped orig s3" using download_scoped[OF s2] by (metis option.inject snd_conv)
        from continue(2) show ?thesis
        proof (cases rule: then_step_cases)
          case (continue r s4)
          then have s4: "scoped orig s4" using import_stage_scoped[OF s3] by (metis option.inject snd_conv)
          from continue(2) show ?thesis
          proof (cases rule: then_step_cases)
            case (continue obj s5)
            then have s5: "scoped orig s5" using resolve_handle_scoped[OF s4] by (metis option.inject snd_conv)
            from continue(2) show ?thesis
            proof (cases rule: then_step_cases)
              case (continue ip s6)
              then have "scoped orig s6" using import_wait_scoped[OF continue(1)] s5 by simp
              then show ?thesis using continue(2) by (auto simp: scoped_emit)
            next
              case (return r)
              then show ?thesis using import_wait_scoped[OF return] s5 by simp
            next
              case (raise e)
              then show ?thesis using import_wait_scoped[OF raise] s5 by simp
            qed
          next
            case (return r)
            then show ?thesis using resolve_handle_scoped[OF s4] by (metis option.inject snd_conv)
          next
            case (raise e)
            then show ?thesis using resolve_handle_scoped[OF s4] by (metis option.inject snd_conv)
          qed
        next
          case (return r)
          then show ?thesis using import_stage_scoped[OF s3] by (metis option.inject snd_conv)
        next
          case (raise e)
          then show ?thesis using import_stage_scoped[OF s3] by (metis option.inject snd_conv)
        qed
      next
        case (return r)
        then show ?thesis using download_scoped[OF s2] by (metis option.inject snd_conv)
      next
        case (raise e)
        then show ?thesis using download_scoped[OF s2] by (metis option.inject snd_conv)
      qed
    next
      case (return r)
      then show ?thesis using export_stage_scoped[OF return s1] by simp
    next
      case (raise e)
      then show ?thesis using export_stage_scoped[OF raise s1] by simp
    qed
  next
    case (return r)
    then show ?thesis using 1 by (metis option.inject snd_conv)
  next
    case (raise e)
    then show ?thesis using 1 by (metis option.inject snd_conv)
  qed
qed


lemma migrate_project_scoped:
  assumes run: "migrate_project env source_gl target_gl project target_group overwrite = Some (r, s')"
  shows "scoped (gl_timeout source_gl) s'"
proof -
  let ?s0 = "\<lparr>thread_target_gl = \<lparr>gl_url = gl_url target_gl,
                           gl_private_token = gl_private_token target_gl,
                           gl_timeout = gl_timeout source_gl,
                           gl_ssl_verify = gl_ssl_verify source_gl\<rparr>,
                trace = [Log INFO (StartProject (p_name project) (p_id project))]\<rparr>"
  have s0: "scoped (gl_timeout source_gl) ?s0" by (simp add: scoped_def tmo_def)
  show ?thesis
  proof (cases target_group)
    case None
    then show ?thesis using run s0 by (auto simp: migrate_project_def Let_def)
  next
    case (Some tg)
    let ?cn = "check_name env (p_name project) (g_full_path tg) overwrite ?s0"
    have s1: "scoped (gl_timeout source_gl) (snd ?cn)" by (rule check_name_scoped[OF s0])
    obtain st s1 where cn: "?cn = (st, s1)" by (cases ?cn)
    then have s1': "scoped (gl_timeout source_gl) s1" using s1 by simp
    let ?s2 = "emit [Log INFO (FetchingFull (p_name project)), SrcProjectsGet (p_id project)] s1"
    have s2: "scoped (gl_timeout source_gl) ?s2" using s1' by (simp add: scoped_emit)
    show ?thesis
    proof (cases st)
      case (Return x)
      then show ?thesis using run Some cn s1' by (auto simp: migrate_project_def Let_def)
    next
      case (Raise e)
      then show ?thesis using run Some cn s1' by (auto simp: migrate_project_def Let_def)
    next
      case (Next u)
      show ?thesis
      proof (cases "src_projects_get env (p_id project)")
        case (Inl e)
        then show ?thesis using run Some cn Next s2 by (auto simp: migrate_project_def Let_def)
      next
        case (Inr tp)
        show ?thesis
        proof (cases "migrate_fetched env project tg overwrite tp ?s2")
          case None
          then show ?thesis using run Some cn Next Inr by (auto simp: migrate_project_def Let_def)
        next
          case (Some y)
          from migrate_fetched_scoped[OF this s2] have "scoped (gl_timeout source_gl) (snd y)" .
          then show ?thesis using run \<open>target_group = Some tg\<close> cn Next Inr Some
            by (cases y; cases "fst y") (auto simp: migrate_project_def Let_def scoped_emit)
        qed
      qed
    qed
  qed
qed

lemma import_stage_shape:
  assumes big: "200 < file_size_mb f"
  shows "fst (import_stage env name f pa ns nm s) =
           (case tgt_import env (max (tmo s) 120) f pa ns nm of Inl e \<Rightarrow> Raise e | Inr h \<Rightarrow> Next h)
       \<and> tmo (snd (import_stage env name f pa ns nm s)) = tmo s
       \<and> (\<exists>evs. trace (snd (import_stage env name f pa ns nm s)) =
             trace s @ [SetTimeout (max (tmo s) 120), Log INFO (TimeoutRaised (max (tmo s) 120)),
                        TgtImport (max (tmo s) 120) f pa ns nm, SetTimeout (tmo s)] @ evs)"
  using big by (auto simp: import_stage_def Let_def split: sum.splits)


text \<open>
  C5. Whenever the worker returns, with whatever outcome, its target session has the
  timeout it was created with; an import call for an export above 200 MB (250 MB, say)
  was made with \<open>max original 120\<close>, at least 120 seconds; every other call on that
  session, and an import of a smaller file, was made with the original timeout. The block
  of lines 220-247 itself raises the timeout, makes the call with it and assigns the
  original value right after the call, whether the call returns a handle or raises.
\<close>

theorem import_timeout_scoped:
  assumes run: "migrate_project env source_gl target_gl project target_group overwrite = Some (r, s')"
  shows "tmo s' = gl_timeout source_gl
       \<and> (\<forall>t f pa ns nm. TgtImport t f pa ns nm \<in> set (trace s') \<longrightarrow> 200 < file_size_mb f \<longrightarrow>
              t = max (gl_timeout source_gl) 120 \<and> 120 \<le> t)
       \<and> (\<forall>t f pa ns nm. TgtImport t f pa ns nm \<in> set (trace s') \<longrightarrow> \<not> 200 < file_size_mb f \<longrightarrow>
              t = gl_timeout source_gl)
       \<and> (\<forall>t pa. TgtProjectsGet t pa \<in> set (trace s') \<longrightarrow> t = gl_timeout source_gl)
       \<and> (\<forall>t x. TgtProjectDelete t x \<in> set (trace s') \<longrightarrow> t = gl_timeout source_gl)
       \<and> (\<forall>name f pa ns nm s. 200 < file_size_mb f \<longrightarrow>
            fst (import_stage env name f pa ns nm s) =
              (case tgt_import env (max (tmo s) 120) f pa ns nm of
                 Inl e \<Rightarrow> Raise e | Inr h \<Rightarrow> Next h)
            \<and> tmo (snd (import_stage env name f pa ns nm s)) = tmo s
            \<and> (\<exists>evs. trace (snd (import_stage env name f pa ns nm s)) =
                  trace s @ [SetTimeout (max (tmo s) 120),
                             Log INFO (TimeoutRaised (max (tmo s) 120)),
                             TgtImport (max (tmo s) 120) f pa ns nm,
                             SetTimeout (tmo s)] @ evs))"
proof -
  have sc: "scoped (gl_timeout source_gl) s'" by (rule migrate_project_scoped[OF run])
  then have ok: "\<And>ev. ev \<in> set (trace s') \<Longrightarrow> call_ok (gl_timeout source_gl) ev"
    by (simp add: scoped_def)
  have 1: "tmo s' = gl_timeout source_gl" using sc by (simp add: scoped_def)
  have 2: "\<forall>t f pa ns nm. TgtImport t f pa ns nm \<in> set (trace s') \<longrightarrow> 200 < file_size_mb f \<longrightarrow>
              t = max (gl_timeout source_gl) 120 \<and> 120 \<le> t"
    using ok by fastforce
  have 3: "\<forall>t f pa ns nm. TgtImport t f pa ns nm \<in> set (trace s') \<longrightarrow> \<not> 200 < file_size_mb f \<longrightarrow>
              t = gl_timeout source_gl"
    using ok by fastforce
  have 4: "\<forall>t pa. TgtProjectsGet t pa \<in> set (trace s') \<longrightarrow> t = gl_timeout source_gl"
    using ok by fastforce
  have 5: "\<forall>t x. TgtProjectDelete t x \<in> set (trace s') \<longrightarrow> t = gl_timeout source_gl"
    using ok by fastforce
  have 6: "\<forall>name f pa ns nm s. 200 < file_size_mb f \<longrightarrow>
            fst (import_stage env name f pa ns nm s) =
              (case tgt_import env (max (tmo s) 120) f pa ns nm of
                 Inl e \<Rightarrow> Raise e | Inr h \<Rightarrow> Next h)
            \<and> tmo (snd (import_stage env name f pa ns nm s)) = tmo s
            \<and> (\<exists>evs. trace (snd (import_stage env name f pa ns nm s)) =
                  trace s @ [SetTimeout (max (tmo s) 120),
                             Log INFO (TimeoutRaised (max (tmo s) 120)),
                             TgtImport (max (tmo s) 120) f pa ns nm,
                             SetTimeout (tmo s)] @ evs)"
    by (intro allI impI) (rule import_stage_shape)
  show ?thesis
    by (rule conjI[OF 1 conjI[OF 2 conjI[OF 3 conjI[OF 4 conjI[OF 5 6]]]]])
qed

lemma big_run:
  "migrate_project env_big gl_src gl_tgt svc1 (Some tg_alpha) False =
     Some (Inr (Some \<lparr>o_id = 7, o_import_status = Some ''finished''\<rparr>), big_final)"
  by (simp add: worker_defs example_defs env_big_def big_final_def)

lemma rejected_run:
  "migrate_project env_big_rejected gl_src gl_tgt svc1 (Some tg_alpha) False =
     Some (Inr None, big_rejected_final)"
  by (simp add: worker_defs example_defs env_big_rejected_def big_rejected_final_def)

theorem import_timeout_scoped_witness:
  "migrate_project env_big gl_src gl_tgt svc1 (Some tg_alpha) False =
     Some (Inr (Some \<lparr>o_id = 7, o_import_status = Some ''finished''\<rparr>), big_final)
   \<and> migrate_project env_big_rejected gl_src gl_tgt svc1 (Some tg_alpha) False =
     Some (Inr None, big_rejected_final)
   \<and> tmo big_final = 30 \<and> tmo big_rejected_final = 30
   \<and> TgtImport 120 (Blob 262144000) ''svc1'' 10 ''svc1'' \<in> set (trace big_final)
   \<and> TgtImport 120 (Blob 262144000) ''svc1'' 10 ''svc1'' \<in> set (trace big_rejected_final)
   \<and> 200 < file_size_mb (Blob 262144000)
   \<and> tmo (snd (import_stage env_big_rejected ''svc1'' (Blob 262144000) ''svc1'' 10 ''svc1''
                  \<lparr>thread_target_gl = gl_tgt, trace = []\<rparr>)) = 30
   \<and> fst (import_stage env_big_rejected ''svc1'' (Blob 262144000) ''svc1'' 10 ''svc1''
                  \<lparr>thread_target_gl = gl_tgt, trace = []\<rparr>) =
        Raise (OtherException ''413: Request Entity Too Large'')
   \<and> fst (import_stage env_big ''svc1'' (Blob 262144000) ''svc1'' 10 ''svc1''
                  \<lparr>thread_target_gl = gl_tgt, trace = []\<rparr>) = Next (RespDict (Some 7))"
proof -
  have big: "200 < file_size_mb (Blob 262144000)" by (simp add: file_size_mb_def)
  note A = import_timeout_scoped[OF rejected_run]
  note B = import_timeout_scoped[OF big_run]
  have t: "tmo \<lparr>thread_target_gl = gl_tgt, trace = []\<rparr> = 30" by (simp add: tmo_def gl_tgt_def)
  have C: "fst (import_stage env_big_rejected ''svc1'' (Blob 262144000) ''svc1'' 10 ''svc1''
                  \<lparr>thread_target_gl = gl_tgt, trace = []\<rparr>) =
             Raise (OtherException ''413: Request Entity Too Large'')
         \<and> tmo (snd (import_stage env_big_rejected ''svc1'' (Blob 262144000) ''svc1'' 10 ''svc1''
                  \<lparr>thread_target_gl = gl_tgt, trace = []\<rparr>)) = 30"
    using A[THEN conjunct2, THEN conjunct2, THEN conjunct2, THEN conjunct2, THEN conjunct2,
            rule_format, OF big, of "''svc1''" "''svc1''" 10 "''svc1''"
              "\<lparr>thread_target_gl = gl_tgt, trace = []\<rparr>"] t
    by (simp add: env_big_rejected_def env_fresh_def)
  have D: "fst (import_stage env_big ''svc1'' (Blob 262144000) ''svc1'' 10 ''svc1''
                  \<lparr>thread_target_gl = gl_tgt, trace = []\<rparr>) = Next (RespDict (Some 7))"
    using B[THEN conjunct2, THEN conjunct2, THEN conjunct2, THEN conjunct2, THEN conjunct2,
            rule_format, OF big, of "''svc1''" "''svc1''" 10 "''svc1''"
              "\<lparr>thread_target_gl = gl_tgt, trace = []\<rparr>"] t
    by (simp add: env_big_def env_fresh_def)
  have E: "TgtImport 120 (Blob 262144000) ''svc1'' 10 ''svc1'' \<in> set (trace big_final)"
          "TgtImport 120 (Blob 262144000) ''svc1'' 10 ''svc1'' \<in> set (trace big_rejected_final)"
    by (simp_all add: big_final_def big_rejected_final_def)
  show ?thesis using A[THEN conjunct1] B[THEN conjunct1] big C D E big_run rejected_run
    by (simp add: gl_src_def)
qed

subsection \<open>The import handle\<close>

text \<open>
  C7, as stated, fails: a dict answer (a bare identifier) is not treated as finished after
  the refetch. On \<open>env_import_fails\<close> the import answers a dict with id 7, the refetched
  object is still \<open>started\<close>, the worker polls it, reads \<open>failed\<close> and returns \<open>None\<close>.
\<close>

theorem refetched_handle_is_polled:
  "migrate_project env_import_fails gl_src gl_tgt svc1 (Some tg_alpha) False =
     Some (Inr None,
           \<lparr>thread_target_gl = gl_tgt,
            trace = [Log INFO (StartProject ''svc1'' 1), TgtProjectsGet 30 ''team/alpha/svc1'',
                     Log INFO (NotExistsStart ''svc1''), Log INFO (FetchingFull ''svc1''),
                     SrcProjectsGet 1, ExportCreate 1, ExportRefresh, Sleep 5, ExportRefresh,
                     Sleep 5, ExportRefresh, ExportDownload, Log INFO (ExportSize ''svc1'' 4096),
                     TgtImport 30 (Blob 4096) ''svc1'' 10 ''svc1'', SetTimeout 30,
                     SharedProjectsGet 7, Sleep 5, ImportRefresh,
                     Log ERROR (ImportFailed ''svc1'')]\<rparr>)"
  by (simp add: worker_defs example_defs env_import_fails_def)

text \<open>
  C7, amended. A dict answer is first replaced by the full object refetched by its id
  (with no id, or the id 0, the worker fails at once); an object answer is taken as it is.
  The resulting handle is treated as finished without a poll only when it exposes no
  import status or its status is already \<open>finished\<close>. Otherwise it is polled until a
  poll reads \<open>finished\<close> (the worker goes on with the refreshed handle) or \<open>failed\<close>
  (the worker logs the failure and returns \<open>None\<close>).
\<close>

theorem import_handle_polling:
  assumes rh: "resolve_handle env pn r s0 = (Next obj, s)"
      and polls: "\<forall>j<n. \<exists>st'. import_refresh env j = Inr (Some st') \<and>
                               st' \<noteq> ''finished'' \<and> st' \<noteq> ''failed''"
      and last: "import_refresh env n = Inr (Some stn)"
      and terminal: "stn = ''finished'' \<or> stn = ''failed''"
  shows "(case r of
            RespObject ob \<Rightarrow> obj = ob \<and> s = s0
          | RespDict i \<Rightarrow>
              (\<exists>pid. i = Some pid \<and> pid \<noteq> 0 \<and> shared_projects_get env pid = Inr obj \<and>
                     s = emit [SharedProjectsGet pid] s0))
       \<and> import_wait env pn obj 0 s =
           (if o_import_status obj = None \<or> o_import_status obj = Some ''finished''
            then Some (Next obj, s)
            else if stn = ''failed''
            then Some (Return None,
                       emit (concat (replicate (Suc n) [Sleep 5, ImportRefresh]) @
                             [Log ERROR (ImportFailed pn)]) s)
            else Some (Next (obj\<lparr>o_import_status := Some ''finished''\<rparr>),
                       emit (concat (replicate (Suc n) [Sleep 5, ImportRefresh])) s))
       \<and> resolve_handle env pn (RespDict None) s0 =
           (Return None, emit [Log ERROR (NoProjectId pn)] s0)
       \<and> resolve_handle env pn (RespDict (Some 0)) s0 =
           (Return None, emit [Log ERROR (NoProjectId pn)] s0)"
proof (intro conjI)
  show "case r of
            RespObject ob \<Rightarrow> obj = ob \<and> s = s0
          | RespDict i \<Rightarrow>
              (\<exists>pid. i = Some pid \<and> pid \<noteq> 0 \<and> shared_projects_get env pid = Inr obj \<and>
                     s = emit [SharedProjectsGet pid] s0)"
    using rh by (auto simp: resolve_handle_def Let_def
                      split: import_response.splits option.splits if_splits sum.splits)
  show "import_wait env pn obj 0 s =
           (if o_import_status obj = None \<or> o_import_status obj = Some ''finished''
            then Some (Next obj, s)
            else if stn = ''failed''
            then Some (Return None,
                       emit (concat (replicate (Suc n) [Sleep 5, ImportRefresh]) @
                             [Log ERROR (ImportFailed pn)]) s)
            else Some (Next (obj\<lparr>o_import_status := Some ''finished''\<rparr>),
                       emit (concat (replicate (Suc n) [Sleep 5, ImportRefresh])) s))"
  proof (cases "o_import_status obj = None \<or> o_import_status obj = Some ''finished''")
    case True
    then show ?thesis by (simp add: import_wait_done)
  next
    case False
    then obtain st where st: "o_import_status obj = Some st" "st \<noteq> ''finished''" by auto
    have p: "\<forall>j<n. \<exists>st'. import_refresh env (0 + j) = Inr (Some st') \<and>
                               st' \<noteq> ''finished'' \<and> st' \<noteq> ''failed''"
      using polls by simp
    have l: "import_refresh env (0 + n) = Inr (Some stn)" using last by simp
    from import_wait_returns[OF p l terminal st, of pn s] show ?thesis
      using False terminal by auto
  qed
  show "resolve_handle env pn (RespDict None) s0 =
           (Return None, emit [Log ERROR (NoProjectId pn)] s0)"
    by (simp add: resolve_handle_def)
  show "resolve_handle env pn (RespDict (Some 0)) s0 =
           (Return None, emit [Log ERROR (NoProjectId pn)] s0)"
    by (simp add: resolve_handle_def)
qed

theorem import_handle_polling_witness:
  "resolve_handle env_fresh ''svc1'' (RespDict (Some 7)) \<lparr>thread_target_gl = gl_tgt, trace = []\<rparr> =
     (Next \<lparr>o_id = 7, o_import_status = Some ''started''\<rparr>,
      \<lparr>thread_target_gl = gl_tgt, trace = [SharedProjectsGet 7]\<rparr>)
   \<and> import_refresh env_fresh 0 = Inr (Some ''started'')
   \<and> import_refresh env_fresh 1 = Inr (Some ''finished'')
   \<and> import_wait env_fresh ''svc1'' \<lparr>o_id = 7, o_import_status = Some ''started''\<rparr> 0
        \<lparr>thread_target_gl = gl_tgt, trace = [SharedProjectsGet 7]\<rparr> =
       Some (Next \<lparr>o_id = 7, o_import_status = Some ''finished''\<rparr>,
             \<lparr>thread_target_gl = gl_tgt,
              trace = [SharedProjectsGet 7, Sleep 5, ImportRefresh, Sleep 5, ImportRefresh]\<rparr>)"
proof -
  have rh: "resolve_handle env_fresh ''svc1'' (RespDict (Some 7)) \<lparr>thread_target_gl = gl_tgt, trace = []\<rparr> =
     (Next \<lparr>o_id = 7, o_import_status = Some ''started''\<rparr>,
      \<lparr>thread_target_gl = gl_tgt, trace = [SharedProjectsGet 7]\<rparr>)"
    by (simp add: resolve_handle_def env_fresh_def emit_def)
  have polls: "\<forall>j<1. \<exists>st'. import_refresh env_fresh j = Inr (Some st') \<and>
                               st' \<noteq> ''finished'' \<and> st' \<noteq> ''failed''"
    by (simp add: env_fresh_def)
  have last: "import_refresh env_fresh 1 = Inr (Some ''finished'')" by (simp add: env_fresh_def)
  have first: "import_refresh env_fresh 0 = Inr (Some ''started'')" by (simp add: env_fresh_def)
  have terminal: "''finished'' = ''finished'' \<or> ''finished'' = ''failed''" by simp
  from import_handle_polling[OF rh polls last terminal] rh first last
  show ?thesis by (simp add: emit_def)
qed

subsection \<open>Reading traces\<close>

lemma collected_append [simp]: "collected (a @ b) = collected a @ collected b"
  by (simp add: collected_def)
lemma tallies_append [simp]: "tallies (a @ b) = tallies a @ tallies b"
  by (simp add: tallies_def)
lemma visits_append [simp]: "visits (a @ b) = visits a @ visits b"
  by (simp add: visits_def)
lemma collected_Cons [simp]: "collected (x # b) = collected_of x @ collected b"
  by (simp add: collected_def)
lemma tallies_Cons [simp]: "tallies (x # b) = tally_of x @ tallies b"
  by (simp add: tallies_def)
lemma visits_Cons [simp]: "visits (x # b) = visit_of x @ visits b"
  by (simp add: visits_def)
lemma collected_Nil [simp]: "collected [] = []" by (simp add: collected_def)
lemma tallies_Nil [simp]: "tallies [] = []" by (simp add: tallies_def)
lemma visits_Nil [simp]: "visits [] = []" by (simp add: visits_def)

lemma collected_InWorker [simp]: "collected (map (InWorker path p) evs) = []"
  by (induction evs) auto
lemma tallies_InWorker [simp]: "tallies (map (InWorker path p) evs) = []"
  by (induction evs) auto
lemma visits_InWorker [simp]: "visits (map (InWorker path p) evs) = []"
  by (induction evs) auto
lemma collected_Main [simp]: "collected (map Main evs) = []"
  by (induction evs) auto

lemma fst_prepend [simp]: "fst (prepend evs x) = fst x"
  by (simp add: prepend_def)

lemma snd_prepend [simp]: "snd (prepend evs x) = evs @ snd x"
  by (simp add: prepend_def)

subsection \<open>The scenario runs\<close>

lemmas driver_defs = migrate_group.simps get_source_group_def create_target_group_structure_def
  prepend_def run_trace_def

lemmas scenario_defs = denv_fresh_def alpha_tree_def target_groups_def env_of_def svc2_def
  svc3_def level_prefix_def

lemmas scenario2_defs = denv_rerun_def denv_partial_def env_exists_def wenv_exists_def
  wenv_mixed_def

lemmas reader_defs = created_def skipped_def non_skipped_def migrated_def

lemma fresh_eval:
  "\<exists>t. migrate_group denv_fresh gl_src gl_tgt 2 False ''team/alpha'' alpha_tree = Some (Ok (), t)
     \<and> created t =
         [\<lparr>gd_name = ''team'', gd_path = ''team'', gd_visibility = ''private'', gd_parent_id = None\<rparr>,
          \<lparr>gd_name = ''alpha'', gd_path = ''alpha'', gd_visibility = ''private'', gd_parent_id = Some 100\<rparr>,
          \<lparr>gd_name = ''beta'', gd_path = ''beta'', gd_visibility = ''public'', gd_parent_id = Some 101\<rparr>]
     \<and> visits t = [''team/alpha'', ''team/alpha/beta'']
     \<and> tallies t = [(''team/alpha/beta'', 1, 0), (''team/alpha'', 2, 0)]
     \<and> migrated t = [(''team/alpha'', svc1), (''team/alpha'', svc2), (''team/alpha/beta'', svc3)]"
  by (simp add: driver_defs worker_defs example_defs scenario_defs reader_defs)

lemma fresh_facts:
  "migrate_group denv_fresh gl_src gl_tgt 2 False ''team/alpha'' alpha_tree = Some (Ok (), fresh_trace)"
  "created fresh_trace =
         [\<lparr>gd_name = ''team'', gd_path = ''team'', gd_visibility = ''private'', gd_parent_id = None\<rparr>,
          \<lparr>gd_name = ''alpha'', gd_path = ''alpha'', gd_visibility = ''private'', gd_parent_id = Some 100\<rparr>,
          \<lparr>gd_name = ''beta'', gd_path = ''beta'', gd_visibility = ''public'', gd_parent_id = Some 101\<rparr>]"
  "visits fresh_trace = [''team/alpha'', ''team/alpha/beta'']"
  "tallies fresh_trace = [(''team/alpha/beta'', 1, 0), (''team/alpha'', 2, 0)]"
  "migrated fresh_trace = [(''team/alpha'', svc1), (''team/alpha'', svc2), (''team/alpha/beta'', svc3)]"
  using fresh_eval unfolding fresh_trace_def by (auto simp: run_trace_def)

lemma partial_eval:
  "\<exists>t. migrate_group denv_partial gl_src gl_tgt 2 False ''team/alpha'' alpha_tree = Some (Ok (), t)
     \<and> tallies t = [(''team/alpha/beta'', 1, 0), (''team/alpha'', 1, 1)]
     \<and> skipped t = [(''team/alpha'', svc1)]
     \<and> non_skipped t ''team/alpha'' [svc1, svc2] = 1"
  by (simp add: driver_defs worker_defs example_defs scenario_defs scenario2_defs reader_defs)

subsection \<open>The group resolver\<close>

text \<open>
  C4, as stated, fails for the visibility. \<open>migrate_group\<close> fetches the source group of
  every recursion step and passes that group to the resolver (lines 281-284), so a group
  created for a subgroup gets the visibility of the subgroup, not that of the top-level
  source group of the run: in the scenario, \<open>beta\<close> is created \<open>public\<close> although the
  top-level source group \<open>team/alpha\<close> is \<open>private\<close>. In the first step the ancestor
  \<open>team\<close> gets the visibility of \<open>team/alpha\<close>, the group at the end of the path.
\<close>

theorem subgroup_gets_own_visibility:
  "created (run_trace (migrate_group denv_fresh gl_src gl_tgt 2 False ''team/alpha'' alpha_tree)) =
     [\<lparr>gd_name = ''team'', gd_path = ''team'', gd_visibility = ''private'', gd_parent_id = None\<rparr>,
      \<lparr>gd_name = ''alpha'', gd_path = ''alpha'', gd_visibility = ''private'', gd_parent_id = Some 100\<rparr>,
      \<lparr>gd_name = ''beta'', gd_path = ''beta'', gd_visibility = ''public'', gd_parent_id = Some 101\<rparr>]"
  using fresh_eval by (auto simp: run_trace_def)


lemma split_on_not_Nil [simp]: "split_on c s \<noteq> []"
  by (induction s) (auto split: list.splits)

lemma join_split: "join_slash (split_on CHR ''/'' s) = s"
proof (induction s)
  case Nil
  show ?case by simp
next
  case (Cons x s)
  obtain w ws where w: "split_on CHR ''/'' s = w # ws"
    by (cases "split_on CHR ''/'' s") auto
  show ?case
  proof (cases "x = CHR ''/''")
    case True
    then show ?thesis using Cons w by simp
  next
    case False
    then show ?thesis using Cons w by (cases ws) auto
  qed
qed

lemma join_slash_snoc: "pre \<noteq> [] \<Longrightarrow> join_slash (pre @ [x]) = join_slash pre @ ''/'' @ x"
  by (induction pre rule: join_slash.induct) auto

lemma join_slash_nonempty: "pre \<noteq> [] \<Longrightarrow> hd pre \<noteq> [] \<Longrightarrow> join_slash pre \<noteq> []"
  by (induction pre rule: join_slash.induct) auto

lemma resolve_loop_walks:
  assumes "segments = pre @ rest" "i = length pre" "current_path = join_slash pre"
      and "pre \<noteq> [] \<longrightarrow> parent \<noteq> None" and "segments \<noteq> [] \<longrightarrow> hd segments \<noteq> []"
  shows "resolve_loop env visibility i current_path parent rest =
         walk_levels env visibility segments (length rest) i parent"
  using assms
proof (induction rest arbitrary: pre i current_path parent)
  case Nil
  then show ?case by simp
next
  case (Cons part rest)
  let ?cur = "if current_path \<noteq> [] then current_path @ ''/'' @ part else part"
  have seg: "segments ! i = part" using Cons.prems(1,2) by simp
  have tk: "take (Suc i) segments = pre @ [part]" using Cons.prems(1,2) by simp
  have hdne: "hd segments \<noteq> []" using Cons.prems(1,5) by auto
  have cur: "?cur = level_prefix segments i"
  proof (cases "pre = []")
    case True
    then show ?thesis using Cons.prems(3) tk by (simp add: level_prefix_def)
  next
    case False
    then have "hd pre \<noteq> []" using hdne Cons.prems(1) by simp
    then have "current_path \<noteq> []" using False Cons.prems(3) join_slash_nonempty by simp
    then show ?thesis using Cons.prems(3) tk False by (simp add: level_prefix_def join_slash_snoc)
  qed
  have i0: "(i = 0) = (pre = [])" using Cons.prems(2) by auto
  have next_ok: "resolve_loop env visibility (Suc i) (level_prefix segments i) (Some g) rest =
          walk_levels env visibility segments (length rest) (Suc i) (Some g)" for g
  proof (rule Cons.IH[of "pre @ [part]"])
    show "segments = (pre @ [part]) @ rest" using Cons.prems(1) by simp
    show "Suc i = length (pre @ [part])" using Cons.prems(2) by simp
    show "level_prefix segments i = join_slash (pre @ [part])" using tk by (simp add: level_prefix_def)
    show "pre @ [part] \<noteq> [] \<longrightarrow> Some g \<noteq> None" by simp
    show "segments \<noteq> [] \<longrightarrow> hd segments \<noteq> []" by (rule Cons.prems(5))
  qed
  show ?case
  proof (cases "tgt_groups_get env i (level_prefix segments i)")
    case (Inr g)
    then show ?thesis using cur seg next_ok by (simp add: Let_def)
  next
    case (Inl e)
    show ?thesis
    proof (cases "\<exists>m. e = GitlabGetError m")
      case False
      then show ?thesis using Inl cur seg by (cases e) (simp_all add: Let_def)
    next
      case True
      then obtain m where e: "e = GitlabGetError m" by blast
      show ?thesis
      proof (cases "i = 0")
        case True
        then show ?thesis using Inl e cur seg next_ok
          by (simp add: Let_def split: sum.splits)
      next
        case False
        then obtain pg where pg: "parent = Some pg" using i0 Cons.prems(4) by auto
        then show ?thesis using Inl e cur seg next_ok False
          by (simp add: Let_def split: sum.splits)
      qed
    qed
  qed
qed

lemma resolver_refines:
  assumes "group_path \<noteq> []" "hd group_path \<noteq> CHR ''/''"
  shows "create_target_group_structure env group_path visibility =
         walk_levels env visibility (split_on CHR ''/'' group_path)
           (length (split_on CHR ''/'' group_path)) 0 None"
proof -
  obtain x xs where p: "group_path = x # xs" using assms(1) by (cases group_path) auto
  then have "x \<noteq> CHR ''/''" using assms(2) by simp
  then have "hd (split_on CHR ''/'' group_path) \<noteq> []"
    using p by (cases "split_on CHR ''/'' xs") auto
  then show ?thesis
    unfolding create_target_group_structure_def
    by (intro resolve_loop_walks[of _ "[]"]) auto
qed



lemma walk_levels_creates:
  "TgtGroupsCreate d \<in> set (snd (walk_levels env visibility segments m i previous)) \<Longrightarrow>
   gd_visibility d = visibility \<and> gd_name d = gd_path d"
proof (induction m arbitrary: i previous)
  case 0
  then show ?case by simp
next
  case (Suc m)
  then show ?case
    by (auto simp: Let_def split: sum.splits exn.splits)
qed

lemma walk_levels_result:
  "fst (walk_levels env visibility segments m i previous) = Inr r \<Longrightarrow>
   (m = 0 \<and> r = previous) \<or>
   (0 < m \<and> (\<exists>g. r = Some g \<and> answered env visibility segments (i + m - 1) g))"
proof (induction m arbitrary: i previous)
  case 0
  then show ?case by simp
next
  case (Suc m)
  show ?case
  proof (cases "tgt_groups_get env i (level_prefix segments i)")
    case (Inr found)
    then have "fst (walk_levels env visibility segments m (Suc i) (Some found)) = Inr r"
      using Suc.prems by (simp add: Let_def)
    from Suc.IH[OF this] show ?thesis using Inr by (auto simp: answered_def)
  next
    case (Inl e)
    then obtain msg where e: "e = GitlabGetError msg"
      using Suc.prems by (cases e) (auto simp: Let_def)
    let ?d = "\<lparr>gd_name = segments ! i, gd_path = segments ! i, gd_visibility = visibility,
               gd_parent_id = (if i = 0 then None else map_option g_id previous)\<rparr>"
    obtain created where c: "tgt_groups_create env i ?d = Inr created"
      using Suc.prems Inl e by (cases "tgt_groups_create env i ?d") (auto simp: Let_def)
    then have "fst (walk_levels env visibility segments m (Suc i) (Some created)) = Inr r"
      using Suc.prems Inl e by (simp add: Let_def)
    from Suc.IH[OF this] show ?thesis using Inl e c
      by (cases "m = 0") (auto simp: answered_def)
  qed
qed

lemma level_prefix_last: "segments \<noteq> [] \<Longrightarrow> level_prefix segments (length segments - 1) = join_slash segments"
  by (simp add: level_prefix_def)

text \<open>
  C4, amended. For every group path that does not begin with a slash (a path the source
  lookup of line 281 can have answered), the resolver is the walk of the specification:
  it looks every prefix up by its full path, left to right, and creates an absent one with
  the segment as name and path and the previous level's group as parent for all but the
  first segment. Every group it creates, at any depth, gets the one visibility passed to
  this invocation, the visibility of the source group at the full \<open>group_path\<close>; it is not
  derived per level. The last prefix is \<open>group_path\<close> itself, and the group returned is
  what the target answered for it, by lookup or by creation.
\<close>

theorem resolver_walks_prefixes:
  assumes ne: "group_path \<noteq> []" and first: "hd group_path \<noteq> CHR ''/''"
  shows "create_target_group_structure env group_path visibility =
           walk_levels env visibility (split_on CHR ''/'' group_path)
             (length (split_on CHR ''/'' group_path)) 0 None
       \<and> level_prefix (split_on CHR ''/'' group_path)
            (length (split_on CHR ''/'' group_path) - 1) = group_path
       \<and> (\<forall>d. TgtGroupsCreate d \<in> set (snd (create_target_group_structure env group_path visibility))
              \<longrightarrow> gd_visibility d = visibility \<and> gd_name d = gd_path d)
       \<and> (\<forall>r. fst (create_target_group_structure env group_path visibility) = Inr r \<longrightarrow>
              (\<exists>g. r = Some g \<and>
                   answered env visibility (split_on CHR ''/'' group_path)
                     (length (split_on CHR ''/'' group_path) - 1) g))"
proof -
  let ?segs = "split_on CHR ''/'' group_path"
  have eq: "create_target_group_structure env group_path visibility =
           walk_levels env visibility ?segs (length ?segs) 0 None"
    by (rule resolver_refines[OF ne first])
  have lp: "level_prefix ?segs (length ?segs - 1) = group_path"
    using level_prefix_last[of ?segs] by (simp add: join_split)
  have cr: "\<forall>d. TgtGroupsCreate d \<in> set (snd (create_target_group_structure env group_path visibility))
              \<longrightarrow> gd_visibility d = visibility \<and> gd_name d = gd_path d"
    unfolding eq using walk_levels_creates by blast
  have len: "0 < length ?segs" by simp
  have res: "\<forall>r. fst (create_target_group_structure env group_path visibility) = Inr r \<longrightarrow>
              (\<exists>g. r = Some g \<and> answered env visibility ?segs (length ?segs - 1) g)"
  proof (intro allI impI)
    fix r assume "fst (create_target_group_structure env group_path visibility) = Inr r"
    then have "fst (walk_levels env visibility ?segs (length ?segs) 0 None) = Inr r"
      using eq by simp
    from walk_levels_result[OF this] len
    show "\<exists>g. r = Some g \<and> answered env visibility ?segs (length ?segs - 1) g" by simp
  qed
  show ?thesis by (rule conjI[OF eq conjI[OF lp conjI[OF cr res]]])
qed


theorem resolver_walks_prefixes_witness:
  "''team/alpha'' \<noteq> [] \<and> hd ''team/alpha'' \<noteq> CHR ''/''
   \<and> create_target_group_structure (target_groups [] ''team/alpha'') ''team/alpha'' ''private'' =
       (Inr (Some \<lparr>g_id = 101, g_full_path = ''team/alpha''\<rparr>),
        [TgtGroupsGet ''team'',
         TgtGroupsCreate \<lparr>gd_name = ''team'', gd_path = ''team'', gd_visibility = ''private'',
                          gd_parent_id = None\<rparr>,
         Log INFO (CreatedGroup ''team''),
         TgtGroupsGet ''team/alpha'',
         TgtGroupsCreate \<lparr>gd_name = ''alpha'', gd_path = ''alpha'', gd_visibility = ''private'',
                          gd_parent_id = Some 100\<rparr>,
         Log INFO (CreatedGroup ''team/alpha'')])
   \<and> answered (target_groups [] ''team/alpha'') ''private'' [''team'', ''alpha''] 1
       \<lparr>g_id = 101, g_full_path = ''team/alpha''\<rparr>"
proof -
  have ne: "''team/alpha'' \<noteq> []" by simp
  have first: "hd ''team/alpha'' \<noteq> CHR ''/''" by simp
  have sp: "split_on CHR ''/'' ''team/alpha'' = [''team'', ''alpha'']" by simp
  note A = resolver_walks_prefixes[OF ne first, of "target_groups [] ''team/alpha''" "''private''"]
  have run: "create_target_group_structure (target_groups [] ''team/alpha'') ''team/alpha'' ''private'' =
       (Inr (Some \<lparr>g_id = 101, g_full_path = ''team/alpha''\<rparr>),
        [TgtGroupsGet ''team'',
         TgtGroupsCreate \<lparr>gd_name = ''team'', gd_path = ''team'', gd_visibility = ''private'',
                          gd_parent_id = None\<rparr>,
         Log INFO (CreatedGroup ''team''),
         TgtGroupsGet ''team/alpha'',
         TgtGroupsCreate \<lparr>gd_name = ''alpha'', gd_path = ''alpha'', gd_visibility = ''private'',
                          gd_parent_id = Some 100\<rparr>,
         Log INFO (CreatedGroup ''team/alpha'')])"
    using A[THEN conjunct1]
    by (simp add: sp target_groups_def level_prefix_def not_found_def prepend_def
                  numeral_2_eq_2 Let_def)
  have "answered (target_groups [] ''team/alpha'') ''private'' [''team'', ''alpha''] 1
       \<lparr>g_id = 101, g_full_path = ''team/alpha''\<rparr>"
    using A[THEN conjunct2, THEN conjunct2, THEN conjunct2] run by (simp add: sp)
  then show ?thesis using ne first run by blast
qed

subsection \<open>The coordinator\<close>

lemma run_batch_shape:
  "run_batch wenv path sgl tgl tg ov ps (s, f) = Some ((s', f'), tr) \<Longrightarrow>
     map (\<lambda>x. (fst x, fst (snd (snd x)))) (collected tr) = map (Pair path) ps
   \<and> s' + f' = s + f + length ps
   \<and> visits tr = [] \<and> tallies tr = []
   \<and> (\<forall>x \<in> set (collected tr). fst x = path \<and> fst (snd x) = tg \<and> (\<exists>ws.
         migrate_project (wenv (fst (snd (snd x)))) sgl tgl (fst (snd (snd x))) tg ov =
           Some (snd (snd (snd x)), ws)))"
proof (induction ps arbitrary: s f tr)
  case Nil
  then show ?case by simp
next
  case (Cons p ps)
  show ?case
  proof (cases "migrate_project (wenv p) sgl tgl p tg ov")
    case None
    then show ?thesis using Cons.prems by simp
  next
    case (Some y)
    obtain r ws where y: "y = (r, ws)" by (cases y)
    show ?thesis
    proof (cases r)
      case (Inl e)
      with Some y Cons.prems obtain tr' where
        rec: "run_batch wenv path sgl tgl tg ov ps (s, Suc f) = Some ((s', f'), tr')" and
        tr: "tr = (map (InWorker path p) (trace ws) @
                      [Collected path tg p (Inl e),
                       Main (Log ERROR (ProcessingException (p_name p) (str e)))]) @ tr'"
        by (auto simp: prepend_def)
      from Cons.IH[OF rec] show ?thesis using tr Some y Inl by auto
    next
      case (Inr res)
      show ?thesis
      proof (cases res)
        case (Some obj)
        with \<open>migrate_project (wenv p) sgl tgl p tg ov = Some y\<close> y Inr Cons.prems obtain tr' where
          rec: "run_batch wenv path sgl tgl tg ov ps (Suc s, f) = Some ((s', f'), tr')" and
          tr: "tr = (map (InWorker path p) (trace ws) @ [Collected path tg p (Inr res)]) @ tr'"
          by (auto simp: prepend_def)
        from Cons.IH[OF rec] show ?thesis
          using tr \<open>migrate_project (wenv p) sgl tgl p tg ov = Some y\<close> y Inr by auto
      next
        case None
        with \<open>migrate_project (wenv p) sgl tgl p tg ov = Some y\<close> y Inr Cons.prems obtain tr' where
          rec: "run_batch wenv path sgl tgl tg ov ps (s, Suc f) = Some ((s', f'), tr')" and
          tr: "tr = (map (InWorker path p) (trace ws) @ [Collected path tg p (Inr res)]) @ tr'"
          by (auto simp: prepend_def)
        from Cons.IH[OF rec] show ?thesis
          using tr \<open>migrate_project (wenv p) sgl tgl p tg ov = Some y\<close> y Inr by auto
      qed
    qed
  qed
qed


lemma worker_skips:
  assumes "already_there env tg p"
  shows "\<exists>ws. migrate_project env sgl tgl p (Some tg) False = Some (Inr None, ws) \<and> skipped_run ws"
proof (cases "target_has env (g_full_path tg @ ''/'' @ p_name p)")
  case True
  then obtain x where "tgt_projects_get env (g_full_path tg @ ''/'' @ p_name p) = Inr x"
    by (auto simp: target_has_def split: sum.splits)
  then show ?thesis
    by (simp add: migrate_project_def check_name_def Let_def skipped_run_def)
next
  case False
  with assms obtain m tp x where
    nf: "tgt_projects_get env (g_full_path tg @ ''/'' @ p_name p) = Inl (GitlabGetError m)" and
    tp: "src_projects_get env (p_id p) = Inr tp" and ne: "sp_path tp \<noteq> p_name p" and
    fd: "tgt_projects_get env (g_full_path tg @ ''/'' @ sp_path tp) = Inr x"
    by (auto simp: already_there_def target_has_def target_lacks_def
             split: sum.splits exn.splits)
  show ?thesis
    using nf tp ne fd
    by (simp add: migrate_project_def check_name_def check_name_except_def Let_def
                  migrate_fetched_def check_path_def then_step_def skipped_run_def)
qed

lemma run_batch_counts_skips:
  "run_batch wenv path sgl tgl (Some tg) False ps (s, f) = Some ((s', f'), tr) \<Longrightarrow>
   f + length (filter (\<lambda>p. already_there (wenv p) tg p) ps) \<le> f' \<and> s \<le> s'"
proof (induction ps arbitrary: s f tr)
  case Nil
  then show ?case by simp
next
  case (Cons p ps)
  show ?case
  proof (cases "already_there (wenv p) tg p")
    case True
    from worker_skips[OF this, of sgl tgl] obtain ws where
      w: "migrate_project (wenv p) sgl tgl p (Some tg) False = Some (Inr None, ws)" by blast
    with Cons.prems obtain tr' where
      "run_batch wenv path sgl tgl (Some tg) False ps (s, Suc f) = Some ((s', f'), tr')"
      by (auto simp: prepend_def)
    from Cons.IH[OF this] show ?thesis using True by simp
  next
    case False
    from Cons.prems obtain c tr' where
      rec: "run_batch wenv path sgl tgl (Some tg) False ps c = Some ((s', f'), tr')" and
      c: "c = (Suc s, f) \<or> c = (s, Suc f)"
      by (auto simp: prepend_def split: option.splits sum.splits prod.splits if_splits)
    from c show ?thesis
    proof
      assume "c = (Suc s, f)"
      with rec Cons.IH[of "Suc s" f tr'] show ?thesis using False by simp
    next
      assume "c = (s, Suc f)"
      with rec Cons.IH[of s "Suc f" tr'] show ?thesis using False by simp
    qed
  qed
qed

text \<open>
  C1, as stated, fails: the coordinator has two counters and no third outcome. A worker
  that skips returns \<open>None\<close>, like one that fails, and \<open>if result\<close> at line 303 sends
  both to \<open>failed_count\<close>. For the one project \<open>svc1\<close>, already on the target, with
  overwrite disabled, the tally is \<open>(0, 1)\<close>, not \<open>(0, 0)\<close>.
\<close>

theorem skip_is_tallied_as_failure:
  "run_batch wenv_exists ''team/alpha'' gl_src gl_tgt (Some tg_alpha) False [svc1] (0, 0) =
     Some ((0, 1),
           [InWorker ''team/alpha'' svc1 (Log INFO (StartProject ''svc1'' 1)),
            InWorker ''team/alpha'' svc1 (TgtProjectsGet 30 ''team/alpha/svc1''),
            InWorker ''team/alpha'' svc1 (Log INFO (ExistsSkip ''svc1'')),
            Collected ''team/alpha'' (Some tg_alpha) svc1 (Inr None)])"
  by (simp add: worker_defs example_defs scenario2_defs prepend_def)

text \<open>
  C1, amended. For every project whose target already exists, with overwrite disabled,
  the worker logs the skip, makes no deleting, exporting or importing call and returns
  \<open>None\<close>. The coordinator counts every project of the batch exactly once: a skipped
  project is counted in \<open>failed_count\<close> and never in \<open>success_count\<close>.
\<close>

theorem skipped_counts_as_failed:
  assumes batch: "run_batch wenv path sgl tgl (Some tg) False ps (s, f) = Some ((s', f'), tr)"
  shows "s' + f' = s + f + length ps
       \<and> f + length (filter (\<lambda>p. already_there (wenv p) tg p) ps) \<le> f'
       \<and> s' \<le> s + length (filter (\<lambda>p. \<not> already_there (wenv p) tg p) ps)
       \<and> (\<forall>p\<in>set ps. already_there (wenv p) tg p \<longrightarrow>
            (\<exists>ws. migrate_project (wenv p) sgl tgl p (Some tg) False = Some (Inr None, ws) \<and>
                  skipped_run ws))"
proof -
  have 1: "s' + f' = s + f + length ps" using run_batch_shape[OF batch] by simp
  have 2: "f + length (filter (\<lambda>p. already_there (wenv p) tg p) ps) \<le> f'"
    using run_batch_counts_skips[OF batch] by simp
  have "length (filter (\<lambda>p. already_there (wenv p) tg p) ps) +
        length (filter (\<lambda>p. \<not> already_there (wenv p) tg p) ps) = length ps"
    by (rule sum_length_filter_compl)
  with 1 2 have 3: "s' \<le> s + length (filter (\<lambda>p. \<not> already_there (wenv p) tg p) ps)"
    by linarith
  have 4: "\<forall>p\<in>set ps. already_there (wenv p) tg p \<longrightarrow>
            (\<exists>ws. migrate_project (wenv p) sgl tgl p (Some tg) False = Some (Inr None, ws) \<and>
                  skipped_run ws)"
    using worker_skips by blast
  show ?thesis by (rule conjI[OF 1 conjI[OF 2 conjI[OF 3 4]]])
qed

theorem skipped_counts_as_failed_witness:
  "(\<exists>tr. run_batch wenv_mixed ''team/alpha'' gl_src gl_tgt (Some tg_alpha) False [svc1, svc2] (0, 0) =
           Some ((1, 1), tr))
   \<and> already_there (wenv_mixed svc1) tg_alpha svc1
   \<and> \<not> already_there (wenv_mixed svc2) tg_alpha svc2
   \<and> (\<exists>ws. migrate_project (wenv_mixed svc1) gl_src gl_tgt svc1 (Some tg_alpha) False =
             Some (Inr None, ws) \<and> skipped_run ws)"
proof -
  have "\<exists>tr. run_batch wenv_mixed ''team/alpha'' gl_src gl_tgt (Some tg_alpha) False [svc1, svc2] (0, 0) =
           Some ((1, 1), tr)"
    by (simp add: worker_defs example_defs scenario_defs scenario2_defs prepend_def)
  then obtain tr where
    b: "run_batch wenv_mixed ''team/alpha'' gl_src gl_tgt (Some tg_alpha) False [svc1, svc2] (0, 0) =
           Some ((1, 1), tr)" by blast
  note A = skipped_counts_as_failed[OF b]
  have y: "already_there (wenv_mixed svc1) tg_alpha svc1"
    by (simp add: already_there_def target_has_def scenario2_defs example_defs)
  have n: "\<not> already_there (wenv_mixed svc2) tg_alpha svc2"
    by (simp add: already_there_def target_has_def target_lacks_def scenario2_defs
                  scenario_defs example_defs)
  have "svc1 \<in> set [svc1, svc2]" by simp
  with A y have "\<exists>ws. migrate_project (wenv_mixed svc1) gl_src gl_tgt svc1 (Some tg_alpha) False =
             Some (Inr None, ws) \<and> skipped_run ws" by blast
  with b y n show ?thesis by blast
qed

subsection \<open>The recursion driver\<close>

lemma resolve_loop_quiet:
  "visits (map Main (snd (resolve_loop env vis i cur parent rest))) = [] \<and>
   tallies (map Main (snd (resolve_loop env vis i cur parent rest))) = []"
proof (induction rest arbitrary: i cur parent)
  case Nil
  show ?case by simp
next
  case (Cons part rest)
  show ?case
    using Cons.IH
    by (auto simp: Let_def split: sum.splits exn.splits option.splits)
qed

lemma resolver_quiet:
  "create_target_group_structure renv path vis = (r, t1) \<Longrightarrow>
   visits (map Main t1) = [] \<and> tallies (map Main t1) = []"
  using resolve_loop_quiet[of renv vis 0 "[]" None "split_on CHR ''/'' path"]
  by (simp add: create_target_group_structure_def)

lemma migrate_group_Ok:
  assumes "migrate_group env sgl tgl mw ov path g = Some (Ok (), tr)"
  obtains t1 target_group counts batch t5 where
    "src_groups_get env path = None"
    "create_target_group_structure (resolver_env env path) path (sg_visibility g) =
       (Inr target_group, t1)"
    "src_projects_list env path = None" "0 < mw"
    "run_batch (worker_env env path) path sgl tgl target_group ov (sg_projects g) (0, 0) =
       Some (counts, batch)"
    "src_subgroups_list env path = None"
    "migrate_subgroups env sgl tgl mw ov path (sg_subgroups g) = Some (Ok (), t5)"
    "tr = map Main ([SrcGroupsGet path, Log INFO (SourceGroupFound (sg_name g) (sg_id g))] @ t1 @
                    [SrcProjectsList path, Log INFO (FoundProjects path (length (sg_projects g)))]) @
          batch @
          [Main (SrcSubgroupsList path),
           Main (Log INFO (FoundSubgroups path (length (sg_subgroups g))))] @
          t5 @ [Main (Log INFO (GroupDone path (fst counts) (snd counts)))]"
  using assms
  by (auto simp: migrate_group.simps get_source_group_def Let_def
           split: option.splits sum.splits prod.splits outcome.splits exn.splits if_splits)

lemma migrate_subgroups_Ok:
  "migrate_subgroups env sgl tgl mw ov path cs = Some (Ok (), t) \<Longrightarrow>
   \<exists>subs. list_all2 (\<lambda>c s. migrate_group env sgl tgl mw ov (path @ ''/'' @ sg_path c) c =
                              Some (Ok (), s)) cs subs \<and>
          t = concat (map2 (\<lambda>c s. Main (Log INFO (SubgroupStart (path @ ''/'' @ sg_path c))) # s)
                        cs subs)"
proof (induction cs arbitrary: t)
  case Nil
  then show ?case by simp
next
  case (Cons c cs)
  let ?p = "path @ ''/'' @ sg_path c"
  from Cons.prems obtain s t' where
    c: "migrate_group env sgl tgl mw ov ?p c = Some (Ok (), s)" and
    r: "migrate_subgroups env sgl tgl mw ov path cs = Some (Ok (), t')" and
    t: "t = Main (Log INFO (SubgroupStart ?p)) # s @ t'"
    by (auto simp: Let_def prepend_def split: option.splits prod.splits outcome.splits)
  from Cons.IH[OF r] obtain subs where
    subs: "list_all2 (\<lambda>c s. migrate_group env sgl tgl mw ov (path @ ''/'' @ sg_path c) c =
                              Some (Ok (), s)) cs subs"
      "t' = concat (map2 (\<lambda>c s. Main (Log INFO (SubgroupStart (path @ ''/'' @ sg_path c))) # s)
                        cs subs)"
    by blast
  show ?case
    by (rule exI[of _ "s # subs"]) (use c subs t in simp)
qed


lemma subgroups_covered:
  assumes "list_all2 (\<lambda>c s. migrate_group env sgl tgl mw ov (path @ ''/'' @ sg_path c) c =
                              Some (Ok (), s)) cs subs"
      and "\<And>c p tr. c \<in> set cs \<Longrightarrow> migrate_group env sgl tgl mw ov p c = Some (Ok (), tr) \<Longrightarrow>
                     covers env sgl tgl mw ov p c tr"
  shows "visits (concat (map2 (\<lambda>c s. Main (Log INFO (SubgroupStart (path @ ''/'' @ sg_path c))) # s) cs subs))
           = concat (map (\<lambda>c. group_paths (path @ ''/'' @ sg_path c) c) cs)
       \<and> map (\<lambda>x. (fst x, fst (snd (snd x))))
            (collected (concat (map2 (\<lambda>c s. Main (Log INFO (SubgroupStart (path @ ''/'' @ sg_path c))) # s) cs subs)))
           = concat (map (\<lambda>c. group_projects (path @ ''/'' @ sg_path c) c) cs)
       \<and> map (\<lambda>x. (fst x, fst (snd x) + snd (snd x)))
            (tallies (concat (map2 (\<lambda>c s. Main (Log INFO (SubgroupStart (path @ ''/'' @ sg_path c))) # s) cs subs)))
           = concat (map (\<lambda>c. group_sizes (path @ ''/'' @ sg_path c) c) cs)
       \<and> (\<forall>x \<in> set (collected (concat (map2 (\<lambda>c s. Main (Log INFO (SubgroupStart (path @ ''/'' @ sg_path c))) # s) cs subs))).
            \<exists>ws. migrate_project (worker_env env (fst x) (fst (snd (snd x)))) sgl tgl
                    (fst (snd (snd x))) (fst (snd x)) ov = Some (snd (snd (snd x)), ws))"
  using assms
proof (induction cs subs rule: list_all2_induct)
  case Nil
  then show ?case by simp
next
  case (Cons c cs s subs)
  have "covers env sgl tgl mw ov (path @ ''/'' @ sg_path c) c s"
    using Cons.prems Cons.hyps(1) by simp
  moreover have "\<And>c p tr. c \<in> set cs \<Longrightarrow> migrate_group env sgl tgl mw ov p c = Some (Ok (), tr) \<Longrightarrow>
                     covers env sgl tgl mw ov p c tr"
    using Cons.prems by simp
  note Cons.IH[OF this]
  ultimately show ?case by (auto simp: covers_def)
qed

lemma run_covers:
  "migrate_group env sgl tgl mw ov path g = Some (Ok (), tr) \<Longrightarrow> covers env sgl tgl mw ov path g tr"
proof (induction g arbitrary: path tr)
  case (SGroup gid name seg vis projects subgroups)
  let ?g = "SGroup gid name seg vis projects subgroups"
  from SGroup.prems show ?case
  proof (cases rule: migrate_group_Ok)
    case (1 t1 target_group counts batch t5)
    from resolver_quiet[OF 1(2)] have q: "visits (map Main t1) = []" "tallies (map Main t1) = []"
      by simp_all
    obtain s f where counts: "counts = (s, f)" by (cases counts)
    note b = run_batch_shape[OF 1(5)[unfolded counts]]
    from migrate_subgroups_Ok[OF 1(7)] obtain subs where
      subs: "list_all2 (\<lambda>c s. migrate_group env sgl tgl mw ov (path @ ''/'' @ sg_path c) c =
                              Some (Ok (), s)) subgroups subs"
      and t5: "t5 = concat (map2 (\<lambda>c s. Main (Log INFO (SubgroupStart (path @ ''/'' @ sg_path c))) # s)
                        subgroups subs)"
      by auto
    have ih: "\<And>c p tr. c \<in> set subgroups \<Longrightarrow> migrate_group env sgl tgl mw ov p c = Some (Ok (), tr) \<Longrightarrow>
                     covers env sgl tgl mw ov p c tr"
      using SGroup.IH by blast
    note sc = subgroups_covered[OF subs ih, folded t5]
    show ?thesis
      unfolding covers_def 1(8)
      using q b sc counts
      by (auto simp: comp_def)
  qed
qed


text \<open>
  C8, as stated, fails in its last part: a group's \<open>success_count + failed_count\<close> is the
  number of all its direct projects, the skipped ones included. In the scenario with
  \<open>svc1\<close> already on the target, \<open>team/alpha\<close> is tallied \<open>(1, 1)\<close> for its two projects,
  of which only one is not skipped.
\<close>

theorem tally_includes_skipped:
  "tallies (run_trace (migrate_group denv_partial gl_src gl_tgt 2 False ''team/alpha'' alpha_tree)) =
     [(''team/alpha/beta'', 1, 0), (''team/alpha'', 1, 1)]
   \<and> non_skipped (run_trace (migrate_group denv_partial gl_src gl_tgt 2 False ''team/alpha'' alpha_tree))
        ''team/alpha'' [svc1, svc2] = 1"
  using partial_eval by (auto simp: run_trace_def)

text \<open>
  C8, amended. In every run of the driver that completes, every group of the source tree
  is looked up exactly once, depth first; the direct projects of every group are handed
  to the one batch of that group, so that every project of the tree has exactly one
  collected result; and for every group \<open>success_count + failed_count\<close> is the number of
  its direct projects (a skipped project counts as failed).
\<close>

theorem every_group_and_project_once:
  assumes run: "migrate_group env sgl tgl mw ov path g = Some (Ok (), tr)"
  shows "visits tr = group_paths path g
       \<and> map (\<lambda>(gp, tg, p, r). (gp, p)) (collected tr) = group_projects path g
       \<and> map (\<lambda>(gp, s, f). (gp, s + f)) (tallies tr) = group_sizes path g"
  using run_covers[OF run] by (simp add: covers_def case_prod_unfold)

theorem every_group_and_project_once_witness:
  "migrate_group denv_fresh gl_src gl_tgt 2 False ''team/alpha'' alpha_tree = Some (Ok (), fresh_trace)
   \<and> visits fresh_trace = [''team/alpha'', ''team/alpha/beta'']
   \<and> map (\<lambda>(gp, tg, p, r). (gp, p)) (collected fresh_trace) =
        [(''team/alpha'', svc1), (''team/alpha'', svc2), (''team/alpha/beta'', svc3)]
   \<and> map (\<lambda>(gp, s, f). (gp, s + f)) (tallies fresh_trace) =
        [(''team/alpha/beta'', 1), (''team/alpha'', 2)]"
  using every_group_and_project_once[OF fresh_facts(1)] fresh_facts(1)
  by (simp add: alpha_tree_def)

text \<open>
  C9. In every run that completes, the trace of a group is: the events of the main thread
  up to the listing of the projects, then the whole batch (the events and the collected
  result of the worker of every direct project), and only then the listing of the
  subgroups and, one after the other in list order, the complete run of each subgroup,
  each a run of the same driver; the tally of the group is logged last. The pool is
  modelled by what the \<open>with\<close> block of line 294 guarantees: it is left only when every
  worker has ended.
\<close>

theorem subgroups_after_batch:
  assumes run: "migrate_group env sgl tgl mw ov path g = Some (Ok (), tr)"
  shows "\<exists>pre target_group counts batch subs.
       tr = map Main pre @ batch @
            [Main (SrcSubgroupsList path),
             Main (Log INFO (FoundSubgroups path (length (sg_subgroups g))))] @
            concat (map2 (\<lambda>c s. Main (Log INFO (SubgroupStart (path @ ''/'' @ sg_path c))) # s)
                      (sg_subgroups g) subs) @
            [Main (Log INFO (GroupDone path (fst counts) (snd counts)))]
     \<and> run_batch (worker_env env path) path sgl tgl target_group ov (sg_projects g) (0, 0) =
         Some (counts, batch)
     \<and> map (\<lambda>(gp, tg, p, r). p) (collected batch) = sg_projects g
     \<and> list_all2 (\<lambda>c s. migrate_group env sgl tgl mw ov (path @ ''/'' @ sg_path c) c =
                           Some (Ok (), s)) (sg_subgroups g) subs"
  using run
proof (cases rule: migrate_group_Ok)
  case (1 t1 target_group counts batch t5)
  obtain s f where counts: "counts = (s, f)" by (cases counts)
  from run_batch_shape[OF 1(5)[unfolded counts]]
  have "map (\<lambda>x. (fst x, fst (snd (snd x)))) (collected batch) = map (Pair path) (sg_projects g)"
    by simp
  then have "map snd (map (\<lambda>x. (fst x, fst (snd (snd x)))) (collected batch)) =
             map snd (map (Pair path) (sg_projects g))" by simp
  then have c: "map (\<lambda>(gp, tg, p, r). p) (collected batch) = sg_projects g"
    by (simp add: comp_def case_prod_unfold)
  from migrate_subgroups_Ok[OF 1(7)] obtain subs where
    subs: "list_all2 (\<lambda>c s. migrate_group env sgl tgl mw ov (path @ ''/'' @ sg_path c) c =
                            Some (Ok (), s)) (sg_subgroups g) subs"
    and t5: "t5 = concat (map2 (\<lambda>c s. Main (Log INFO (SubgroupStart (path @ ''/'' @ sg_path c))) # s)
                      (sg_subgroups g) subs)"
    by auto
  show ?thesis
    apply (rule exI[of _ "[SrcGroupsGet path, Log INFO (SourceGroupFound (sg_name g) (sg_id g))] @ t1 @
                    [SrcProjectsList path, Log INFO (FoundProjects path (length (sg_projects g)))]"])
    apply (rule exI[of _ target_group])
    apply (rule exI[of _ counts])
    apply (rule exI[of _ batch])
    apply (rule exI[of _ subs])
    using 1(5) 1(8) c subs t5 by simp
qed


theorem subgroups_after_batch_witness:
  "migrate_group denv_fresh gl_src gl_tgt 2 False ''team/alpha'' alpha_tree = Some (Ok (), fresh_trace)
   \<and> (\<exists>pre target_group counts batch subs.
       fresh_trace = map Main pre @ batch @
            [Main (SrcSubgroupsList ''team/alpha''),
             Main (Log INFO (FoundSubgroups ''team/alpha'' (length (sg_subgroups alpha_tree))))] @
            concat (map2 (\<lambda>c s. Main (Log INFO (SubgroupStart (''team/alpha'' @ ''/'' @ sg_path c))) # s)
                      (sg_subgroups alpha_tree) subs) @
            [Main (Log INFO (GroupDone ''team/alpha'' (fst counts) (snd counts)))]
     \<and> run_batch (worker_env denv_fresh ''team/alpha'') ''team/alpha'' gl_src gl_tgt target_group False
          (sg_projects alpha_tree) (0, 0) = Some (counts, batch)
     \<and> map (\<lambda>(gp, tg, p, r). p) (collected batch) = sg_projects alpha_tree
     \<and> list_all2 (\<lambda>c s. migrate_group denv_fresh gl_src gl_tgt 2 False (''team/alpha'' @ ''/'' @ sg_path c) c =
                           Some (Ok (), s)) (sg_subgroups alpha_tree) subs)"
  using subgroups_after_batch[OF fresh_facts(1)] fresh_facts(1) by blast

subsection \<open>Running the driver again\<close>

lemma check_name_result:
  "check_name env pn tgp ov s = (r, s') \<Longrightarrow> r = Next () \<or> r = Return None"
  by (auto simp: check_name_def check_name_except_def Let_def
           split: sum.splits option.splits exn.splits if_splits)

lemma migrated_was_fetched:
  "migrate_project env sgl tgl p tg ov = Some (Inr (Some h), ws) \<Longrightarrow>
   \<exists>tp. src_projects_get env (p_id p) = Inr tp"
  by (auto simp: migrate_project_def Let_def dest: check_name_result
           split: option.splits prod.splits step.splits sum.splits)

lemma migrated_iff:
  "((gp, p) \<in> set (migrated tr)) = (\<exists>tg h. (gp, tg, p, Inr (Some h)) \<in> set (collected tr))"
proof -
  have "((gp, p) \<in> set (migrated_of x)) = (\<exists>tg h. x = (gp, tg, p, Inr (Some h)))" for x
    by (cases x rule: migrated_of.cases) auto
  then show ?thesis by (auto simp: migrated_def)
qed

lemma recorded_mono:
  "recorded env sgl tgl ov path tr x \<Longrightarrow> set tr \<subseteq> set tr' \<Longrightarrow> recorded env sgl tgl ov path tr' x"
  unfolding recorded_def by blast

lemma recorded_below:
  "recorded env sgl tgl ov (path @ ext) tr x \<Longrightarrow> recorded env sgl tgl ov path tr x"
  unfolding recorded_def by auto

lemma run_batch_records:
  "run_batch wenv path sgl tgl tg ov ps c = Some (c', tr) \<Longrightarrow>
   \<forall>x \<in> set (collected tr). fst x = path \<and> fst (snd x) = tg \<and> (\<exists>ws.
         migrate_project (wenv (fst (snd (snd x)))) sgl tgl (fst (snd (snd x))) tg ov =
           Some (snd (snd (snd x)), ws) \<and>
         (\<forall>ev\<in>set (trace ws). InWorker path (fst (snd (snd x))) ev \<in> set tr))"
proof (induction ps arbitrary: c tr)
  case Nil
  then show ?case by simp
next
  case (Cons p ps)
  obtain r ws where w: "migrate_project (wenv p) sgl tgl p tg ov = Some (r, ws)"
    using Cons.prems by (cases "migrate_project (wenv p) sgl tgl p tg ov") auto
  have "\<exists>c1 tr' extra. run_batch wenv path sgl tgl tg ov ps c1 = Some (c', tr') \<and>
          tr = (map (InWorker path p) (trace ws) @ Collected path tg p r # extra) @ tr' \<and>
          collected extra = []"
  proof (cases r)
    case (Inl e)
    with w Cons.prems obtain tr' where
      "run_batch wenv path sgl tgl tg ov ps (fst c, Suc (snd c)) = Some (c', tr')"
      "tr = (map (InWorker path p) (trace ws) @ Collected path tg p r #
               [Main (Log ERROR (ProcessingException (p_name p) (str e)))]) @ tr'"
      by (auto simp: prepend_def)
    then show ?thesis by (intro exI conjI) (assumption, assumption, simp)
  next
    case (Inr res)
    with w Cons.prems obtain tr' where
      "run_batch wenv path sgl tgl tg ov ps
         (if res \<noteq> None then (Suc (fst c), snd c) else (fst c, Suc (snd c))) = Some (c', tr')"
      "tr = (map (InWorker path p) (trace ws) @ Collected path tg p r # []) @ tr'"
      by (auto simp: prepend_def)
    then show ?thesis by (intro exI conjI) (assumption, assumption, simp)
  qed
  then obtain c1 tr' extra where
    rec: "run_batch wenv path sgl tgl tg ov ps c1 = Some (c', tr')" and
    tr: "tr = (map (InWorker path p) (trace ws) @ Collected path tg p r # extra) @ tr'" and
    ex: "collected extra = []"
    by blast
  have col: "collected tr = (path, tg, p, r) # collected tr'"
    using tr ex by simp
  have sub: "set tr' \<subseteq> set tr" using tr by auto
  show ?case
  proof
    fix x assume "x \<in> set (collected tr)"
    then consider "x = (path, tg, p, r)" | "x \<in> set (collected tr')" using col by auto
    then show "fst x = path \<and> fst (snd x) = tg \<and> (\<exists>ws.
         migrate_project (wenv (fst (snd (snd x)))) sgl tgl (fst (snd (snd x))) tg ov =
           Some (snd (snd (snd x)), ws) \<and>
         (\<forall>ev\<in>set (trace ws). InWorker path (fst (snd (snd x))) ev \<in> set tr))"
    proof cases
      case 1
      then show ?thesis using w tr by auto
    next
      case 2
      with Cons.IH[OF rec] sub show ?thesis by blast
    qed
  qed
qed

lemma collected_subs:
  assumes "x \<in> set (collected (concat (map2 (\<lambda>c s. Main (Log INFO (SubgroupStart (path @ ''/'' @ sg_path c))) # s) cs subs)))"
  shows "\<exists>c s. (c, s) \<in> set (zip cs subs) \<and> x \<in> set (collected s)"
  using assms
proof (induction cs arbitrary: subs)
  case Nil
  then show ?case by simp
next
  case (Cons c cs)
  show ?case
  proof (cases subs)
    case Nil
    then show ?thesis using Cons.prems by simp
  next
    case (Cons s subs')
    with Cons.prems consider "x \<in> set (collected s)"
      | "x \<in> set (collected (concat (map2 (\<lambda>c s. Main (Log INFO (SubgroupStart (path @ ''/'' @ sg_path c))) # s) cs subs')))"
      by auto
    then show ?thesis
    proof cases
      case 1
      then show ?thesis using Cons by auto
    next
      case 2
      from Cons.IH[OF this] show ?thesis using Cons by auto
    qed
  qed
qed

lemma run_records:
  "migrate_group env sgl tgl mw ov path g = Some (Ok (), tr) \<Longrightarrow>
   \<forall>x \<in> set (collected tr). recorded env sgl tgl ov path tr x"
proof (induction g arbitrary: path tr)
  case (SGroup gid name seg vis projects subgroups)
  let ?g = "SGroup gid name seg vis projects subgroups"
  from SGroup.prems show ?case
  proof (cases rule: migrate_group_Ok)
    case (1 t1 target_group counts batch t5)
    from migrate_subgroups_Ok[OF 1(7)] obtain subs where
      subs: "list_all2 (\<lambda>c s. migrate_group env sgl tgl mw ov (path @ ''/'' @ sg_path c) c =
                              Some (Ok (), s)) subgroups subs"
      and t5: "t5 = concat (map2 (\<lambda>c s. Main (Log INFO (SubgroupStart (path @ ''/'' @ sg_path c))) # s)
                        subgroups subs)"
      by auto
    have col: "collected tr = collected batch @ collected t5"
      unfolding 1(8) by simp
    have sb: "set batch \<subseteq> set tr" unfolding 1(8) by auto
    have s5: "set t5 \<subseteq> set tr" unfolding 1(8) by auto
    show ?thesis
    proof
      fix x assume "x \<in> set (collected tr)"
      then consider "x \<in> set (collected batch)" | "x \<in> set (collected t5)" using col by auto
      then show "recorded env sgl tgl ov path tr x"
      proof cases
        case 1
        from run_batch_records[OF \<open>run_batch (worker_env env path) path sgl tgl target_group ov
            (sg_projects ?g) (0, 0) = Some (counts, batch)\<close>] 1
        have b: "fst x = path" "fst (snd x) = target_group"
          "\<exists>ws. migrate_project (worker_env env path (fst (snd (snd x)))) sgl tgl (fst (snd (snd x)))
                  target_group ov = Some (snd (snd (snd x)), ws) \<and>
                (\<forall>ev\<in>set (trace ws). InWorker path (fst (snd (snd x))) ev \<in> set batch)"
          by blast+
        from b(3) obtain ws where
          w: "migrate_project (worker_env env path (fst (snd (snd x)))) sgl tgl (fst (snd (snd x)))
                  target_group ov = Some (snd (snd (snd x)), ws)"
             "\<forall>ev\<in>set (trace ws). InWorker path (fst (snd (snd x))) ev \<in> set batch" by blast
        have A: "\<exists>ws. migrate_project (worker_env env (fst x) (fst (snd (snd x)))) sgl tgl
               (fst (snd (snd x))) (fst (snd x)) ov = Some (snd (snd (snd x)), ws) \<and>
            (\<forall>ev\<in>set (trace ws). InWorker (fst x) (fst (snd (snd x))) ev \<in> set tr)"
          using w b(1,2) sb by blast
        have B: "\<exists>vis t1. create_target_group_structure (resolver_env env (fst x)) (fst x) vis =
                   (Inr (fst (snd x)), t1)"
          using b(1,2) \<open>create_target_group_structure (resolver_env env path) path (sg_visibility ?g) =
                       (Inr target_group, t1)\<close> by blast
        have C: "\<exists>suffix. fst x = path @ suffix" using b(1) by simp
        show ?thesis unfolding recorded_def using A B C by blast
      next
        case 2
        from collected_subs[OF 2[unfolded t5]] obtain c s where
          cs: "(c, s) \<in> set (zip subgroups subs)" and xs: "x \<in> set (collected s)" by blast
        from cs have cmem: "c \<in> set subgroups" by (auto dest: set_zip_leftD)
        from subs cs have run: "migrate_group env sgl tgl mw ov (path @ ''/'' @ sg_path c) c = Some (Ok (), s)"
          by (auto simp: list_all2_iff)
        from SGroup.IH[OF cmem run] xs
        have r: "recorded env sgl tgl ov (path @ ''/'' @ sg_path c) s x" by blast
        have "set s \<subseteq> set t5" using cs unfolding t5
          by (auto simp: in_set_zip set_zip)
        then have "set s \<subseteq> set tr" using s5 by auto
        from recorded_below[OF recorded_mono[OF r this]] show ?thesis .
      qed
    qed
  qed
qed

lemma then_step_Next:
  "then_step m f = Some (Next b, s') \<Longrightarrow> \<exists>a s1. m = Some (Next a, s1) \<and> f a s1 = Some (Next b, s')"
  by (auto simp: then_step_def split: option.splits prod.splits step.splits)

lemma import_wait_keeps:
  assumes run: "import_wait env name obj k s = Some y"
  shows "set (trace s) \<subseteq> set (trace (snd y))"
proof (rule import_wait.raw_induct[where P = "\<lambda>env name obj k s y. set (trace s) \<subseteq> set (trace (snd y))",
        OF _ run], goal_cases)
  case (1 iw env name obj k s y)
  show ?case
  proof (cases "o_import_status obj \<noteq> None \<and> o_import_status obj \<noteq> Some ''finished''")
    case False
    then show ?thesis using 1(2) by auto
  next
    case True
    show ?thesis
    proof (cases "import_refresh env k")
      case (Inl e)
      then show ?thesis using 1(2) True by auto
    next
      case (Inr st')
      show ?thesis
      proof (cases "st' = Some ''failed''")
        case t: True
        then show ?thesis using 1(2) True Inr by auto
      next
        case f: False
        then have "iw env name (obj\<lparr>o_import_status := st'\<rparr>) (Suc k) (emit [Sleep 5, ImportRefresh] s) = Some y"
          using 1(2) True Inr by simp
        from 1(1)[OF this] show ?thesis by simp
      qed
    qed
  qed
qed

lemma import_stage_calls:
  "import_stage env name f pa ns nm s = (r, s') \<Longrightarrow> \<exists>t. TgtImport t f pa ns nm \<in> set (trace s')"
  by (auto simp: import_stage_def Let_def split: sum.splits if_splits)

lemma resolve_handle_keeps:
  "resolve_handle env pn r s = (x, s') \<Longrightarrow> set (trace s) \<subseteq> set (trace s')"
  by (auto simp: resolve_handle_def Let_def split: sum.splits option.splits import_response.splits if_splits)

lemma export_wait_Return:
  assumes run: "export_wait env name st k s = Some y"
  shows "\<forall>r. fst y = Return r \<longrightarrow> r = None"
proof (rule export_wait.raw_induct[where P = "\<lambda>env name st k s y. \<forall>r. fst y = Return r \<longrightarrow> r = None",
        OF _ run], goal_cases)
  case (1 ew env name st k s y)
  then show ?case
    by (auto split: if_splits sum.splits)
qed

lemma import_wait_Return:
  assumes run: "import_wait env name obj k s = Some y"
  shows "\<forall>r. fst y = Return r \<longrightarrow> r = None"
proof (rule import_wait.raw_induct[where P = "\<lambda>env name obj k s y. \<forall>r. fst y = Return r \<longrightarrow> r = None",
        OF _ run], goal_cases)
  case (1 iw env name obj k s y)
  then show ?case
    by (auto split: if_splits sum.splits)
qed

lemma export_wait_returns_None:
  "export_wait env name st k s = Some (Return r, s') \<Longrightarrow> r = None"
  using export_wait_Return by fastforce

lemma import_wait_returns_None:
  "import_wait env name obj k s = Some (Return r, s') \<Longrightarrow> r = None"
  using import_wait_Return by fastforce

lemma then_step_Return:
  "then_step m f = Some (Return r, s') \<Longrightarrow>
   m = Some (Return r, s') \<or> (\<exists>a s1. m = Some (Next a, s1) \<and> f a s1 = Some (Return r, s'))"
  by (auto simp: then_step_def split: option.splits prod.splits step.splits)

lemma migrate_fetched_Return:
  assumes "migrate_fetched env project tg ov tp s = Some (Return r, s')"
  shows "r = None"
  using assms
  by (auto simp: migrate_fetched_def Let_def check_path_def check_path_except_def
                 export_stage_def download_stage_def import_stage_def resolve_handle_def
           dest!: then_step_Return dest: export_wait_returns_None import_wait_returns_None
           split: if_splits sum.splits exn.splits option.splits import_response.splits)

lemma migrate_fetched_imports:
  assumes "migrate_fetched env project tg ov tp s = Some (Next obj, s')"
  shows "\<exists>t f. TgtImport t f (sp_path tp) (g_id tg) (sp_name tp) \<in> set (trace s')"
proof -
  from assms obtain f s3 r s4 o1 s5 o2 s6 where
    imp: "import_stage env (sp_name tp) f (sp_path tp) (g_id tg) (sp_name tp) s3 = (Next r, s4)" and
    rh: "resolve_handle env (p_name project) r s4 = (Next o1, s5)" and
    iw: "import_wait env (p_name project) o1 0 s5 = Some (Next o2, s6)" and
    fin: "s' = emit [Log INFO (MigrateSuccess (sp_name tp) (g_full_path tg) (sp_path tp))] s6"
    by (auto simp: migrate_fetched_def Let_def dest!: then_step_Next)
  from import_stage_calls[OF imp] obtain t where "TgtImport t f (sp_path tp) (g_id tg) (sp_name tp) \<in> set (trace s4)"
    by blast
  moreover have "set (trace s4) \<subseteq> set (trace s5)" by (rule resolve_handle_keeps[OF rh])
  moreover have "set (trace s5) \<subseteq> set (trace s6)" using import_wait_keeps[OF iw] by simp
  ultimately have "TgtImport t f (sp_path tp) (g_id tg) (sp_name tp) \<in> set (trace s')"
    using fin by auto
  then show ?thesis by blast
qed

lemma migrated_imported:
  assumes "migrate_project env sgl tgl p (Some tg) ov = Some (Inr (Some h), ws)"
  shows "\<exists>tp t f. src_projects_get env (p_id p) = Inr tp \<and>
           TgtImport t f (sp_path tp) (g_id tg) (sp_name tp) \<in> set (trace ws)"
proof -
  from migrated_was_fetched[OF assms] obtain tp where tp: "src_projects_get env (p_id p) = Inr tp"
    by blast
  from assms tp obtain s2 where
    "migrate_fetched env p tg ov tp s2 = Some (Next h, ws)"
    by (auto simp: migrate_project_def Let_def dest: check_name_result migrate_fetched_Return
             split: option.splits prod.splits step.splits sum.splits)
  from migrate_fetched_imports[OF this] tp show ?thesis by blast
qed

lemma resolver_true_path:
  assumes run: "create_target_group_structure env gp vis = (Inr tgo, t1)"
      and ne: "gp \<noteq> []" and first: "hd gp \<noteq> CHR ''/''" and tp: "true_paths env gp"
  shows "\<exists>tg. tgo = Some tg \<and> g_full_path tg = gp"
proof -
  let ?segs = "split_on CHR ''/'' gp"
  have "fst (walk_levels env vis ?segs (length ?segs) 0 None) = Inr tgo"
    using run resolver_refines[OF ne first, of env vis] by simp
  from walk_levels_result[OF this]
  obtain tg where tg: "tgo = Some tg" "answered env vis ?segs (length ?segs - 1) tg" by auto
  have lp: "level_prefix ?segs (length ?segs - 1) = gp"
    using level_prefix_last[of ?segs] by (simp add: join_split)
  from tg(2) tp have "g_full_path tg = level_prefix ?segs (length ?segs - 1)"
    unfolding answered_def true_paths_def by metis
  then have "g_full_path tg = gp" using lp by simp
  with tg(1) show ?thesis by blast
qed

lemma held_mem:
  assumes "(gp, Some tg, p, Inr (Some h)) \<in> set (collected tr)"
      and "InWorker gp p (TgtImport t f pa (g_id tg) nm) \<in> set tr"
  shows "g_full_path tg @ ''/'' @ pa \<in> set (held tr)"
proof -
  have "(gp, p, g_id tg, pa) \<in> set (import_of (InWorker gp p (TgtImport t f pa (g_id tg) nm)))"
    by simp
  with assms(2) have "(gp, p, g_id tg, pa) \<in> set (import_calls tr)"
    unfolding import_calls_def by (auto intro!: bexI)
  then have "(gp, p, g_id tg, pa) \<in> set (filter (\<lambda>c. fst c = gp \<and> fst (snd c) = p \<and>
                fst (snd (snd c)) = g_id tg) (import_calls tr))"
    by simp
  then have "(\<lambda>c. g_full_path tg @ ''/'' @ snd (snd (snd c))) (gp, p, g_id tg, pa) \<in>
             set (map (\<lambda>c. g_full_path tg @ ''/'' @ snd (snd (snd c)))
                    (filter (\<lambda>c. fst c = gp \<and> fst (snd c) = p \<and>
                       fst (snd (snd c)) = g_id tg) (import_calls tr)))"
    unfolding set_map by (rule imageI)
  then have "g_full_path tg @ ''/'' @ pa \<in> set (held_of (import_calls tr) (gp, Some tg, p, Inr (Some h)))"
    by simp
  with assms(1) show ?thesis unfolding held_def set_concat set_map by blast
qed

lemma below_path:
  "gp = path @ suffix \<Longrightarrow> path \<noteq> [] \<Longrightarrow> hd path \<noteq> c \<Longrightarrow> gp \<noteq> [] \<and> hd gp \<noteq> c"
  by (cases path) auto

lemma migrated_append: "migrated (a @ b) = migrated a @ migrated b"
  by (simp add: migrated_def)

lemma migrated_Main: "migrated (Main e # t) = migrated t"
  by (simp add: migrated_def)

lemma run_batch_tally:
  "run_batch wenv path sgl tgl tg ov ps (s, f) = Some ((s', f'), tr) \<Longrightarrow>
   s' = s + length (migrated tr) \<and> f' + length (migrated tr) = f + length (collected tr)"
proof (induction ps arbitrary: s f tr)
  case Nil
  then show ?case by (simp add: migrated_def)
next
  case (Cons p ps)
  show ?case
  proof (cases "migrate_project (wenv p) sgl tgl p tg ov")
    case None
    then show ?thesis using Cons.prems by simp
  next
    case (Some y)
    obtain r ws where y: "y = (r, ws)" by (cases y)
    show ?thesis
    proof (cases r)
      case (Inl e)
      with Some y Cons.prems obtain tr' where
        rec: "run_batch wenv path sgl tgl tg ov ps (s, Suc f) = Some ((s', f'), tr')" and
        tr: "tr = (map (InWorker path p) (trace ws) @
                      [Collected path tg p (Inl e),
                       Main (Log ERROR (ProcessingException (p_name p) (str e)))]) @ tr'"
        by (auto simp: prepend_def)
      from Cons.IH[OF rec] show ?thesis using tr by (simp add: migrated_def)
    next
      case (Inr res)
      show ?thesis
      proof (cases res)
        case (Some obj)
        with \<open>migrate_project (wenv p) sgl tgl p tg ov = Some y\<close> y Inr Cons.prems obtain tr' where
          rec: "run_batch wenv path sgl tgl tg ov ps (Suc s, f) = Some ((s', f'), tr')" and
          tr: "tr = (map (InWorker path p) (trace ws) @ [Collected path tg p (Inr res)]) @ tr'"
          by (auto simp: prepend_def)
        from Cons.IH[OF rec] show ?thesis using tr Some by (simp add: migrated_def)
      next
        case None
        with \<open>migrate_project (wenv p) sgl tgl p tg ov = Some y\<close> y Inr Cons.prems obtain tr' where
          rec: "run_batch wenv path sgl tgl tg ov ps (s, Suc f) = Some ((s', f'), tr')" and
          tr: "tr = (map (InWorker path p) (trace ws) @ [Collected path tg p (Inr res)]) @ tr'"
          by (auto simp: prepend_def)
        from Cons.IH[OF rec] show ?thesis using tr None by (simp add: migrated_def)
      qed
    qed
  qed
qed

lemma subgroups_tally:
  assumes "list_all2 (\<lambda>c s. migrate_group env sgl tgl mw ov (path @ ''/'' @ sg_path c) c =
                              Some (Ok (), s)) cs subs"
      and "\<forall>c\<in>set cs. \<forall>p tr. migrate_group env sgl tgl mw ov p c = Some (Ok (), tr) \<longrightarrow>
             sum_list (map (\<lambda>x. fst (snd x)) (tallies tr)) = length (migrated tr) \<and>
             sum_list (map (\<lambda>x. snd (snd x)) (tallies tr)) + length (migrated tr) = length (collected tr)"
  shows "sum_list (map (\<lambda>x. fst (snd x)) (tallies (concat (map2 (\<lambda>c s. Main (Log INFO (SubgroupStart (path @ ''/'' @ sg_path c))) # s) cs subs))))
           = length (migrated (concat (map2 (\<lambda>c s. Main (Log INFO (SubgroupStart (path @ ''/'' @ sg_path c))) # s) cs subs)))
       \<and> sum_list (map (\<lambda>x. snd (snd x)) (tallies (concat (map2 (\<lambda>c s. Main (Log INFO (SubgroupStart (path @ ''/'' @ sg_path c))) # s) cs subs))))
           + length (migrated (concat (map2 (\<lambda>c s. Main (Log INFO (SubgroupStart (path @ ''/'' @ sg_path c))) # s) cs subs)))
           = length (collected (concat (map2 (\<lambda>c s. Main (Log INFO (SubgroupStart (path @ ''/'' @ sg_path c))) # s) cs subs)))"
  using assms
proof (induction cs subs rule: list_all2_induct)
  case Nil
  then show ?case by (simp add: migrated_def)
next
  case (Cons c cs s subs)
  have a: "sum_list (map (\<lambda>x. fst (snd x)) (tallies s)) = length (migrated s) \<and>
           sum_list (map (\<lambda>x. snd (snd x)) (tallies s)) + length (migrated s) = length (collected s)"
    using Cons.prems Cons.hyps(1) by simp
  have "\<forall>c\<in>set cs. \<forall>p tr. migrate_group env sgl tgl mw ov p c = Some (Ok (), tr) \<longrightarrow>
             sum_list (map (\<lambda>x. fst (snd x)) (tallies tr)) = length (migrated tr) \<and>
             sum_list (map (\<lambda>x. snd (snd x)) (tallies tr)) + length (migrated tr) = length (collected tr)"
    using Cons.prems by simp
  note b = Cons.IH[OF this]
  show ?case using a b by (simp add: migrated_Main migrated_append)
qed

lemma run_tally:
  "migrate_group env sgl tgl mw ov path g = Some (Ok (), tr) \<Longrightarrow>
   sum_list (map (\<lambda>x. fst (snd x)) (tallies tr)) = length (migrated tr) \<and>
   sum_list (map (\<lambda>x. snd (snd x)) (tallies tr)) + length (migrated tr) = length (collected tr)"
proof (induction g arbitrary: path tr)
  case (SGroup gid name seg vis projects subgroups)
  let ?g = "SGroup gid name seg vis projects subgroups"
  from SGroup.prems show ?case
  proof (cases rule: migrate_group_Ok)
    case (1 t1 target_group counts batch t5)
    from resolver_quiet[OF 1(2)] have q: "tallies (map Main t1) = []" by simp
    obtain s f where counts: "counts = (s, f)" by (cases counts)
    note b = run_batch_shape[OF 1(5)[unfolded counts]]
    note bt = run_batch_tally[OF 1(5)[unfolded counts]]
    from migrate_subgroups_Ok[OF 1(7)] obtain subs where
      subs: "list_all2 (\<lambda>c s. migrate_group env sgl tgl mw ov (path @ ''/'' @ sg_path c) c =
                              Some (Ok (), s)) subgroups subs"
      and t5: "t5 = concat (map2 (\<lambda>c s. Main (Log INFO (SubgroupStart (path @ ''/'' @ sg_path c))) # s)
                        subgroups subs)"
      by auto
    have ih: "\<And>c p tr. c \<in> set subgroups \<Longrightarrow> migrate_group env sgl tgl mw ov p c = Some (Ok (), tr) \<Longrightarrow>
             sum_list (map (\<lambda>x. fst (snd x)) (tallies tr)) = length (migrated tr) \<and>
             sum_list (map (\<lambda>x. snd (snd x)) (tallies tr)) + length (migrated tr) = length (collected tr)"
      using SGroup.IH by blast
    have sc: "sum_list (map (\<lambda>x. fst (snd x)) (tallies t5)) = length (migrated t5) \<and>
              sum_list (map (\<lambda>x. snd (snd x)) (tallies t5)) + length (migrated t5) = length (collected t5)"
      unfolding t5 by (rule subgroups_tally[OF subs]) (use ih in blast)
    have tl: "tallies tr = tallies t5 @ [(path, s, f)]"
      unfolding 1(8) using q b counts by simp
    have cl: "collected tr = collected batch @ collected t5"
      unfolding 1(8) by simp
    have ml: "migrated tr = migrated batch @ migrated t5"
      using cl by (simp add: migrated_def)
    show ?thesis using tl cl ml sc bt by simp
  qed
qed

lemma rerun_worker_skips:
  assumes w1: "migrate_project e1 sgl tgl p (Some tg1) ov1 = Some (Inr (Some h), ws1)"
      and inrun: "\<forall>ev\<in>set (trace ws1). InWorker gp p ev \<in> set tr1"
      and col: "(gp, Some tg1, p, Inr (Some h)) \<in> set (collected tr1)"
      and same: "g_full_path tg2 = g_full_path tg1"
      and src: "src_projects_get e2 = src_projects_get e1"
      and keeps: "target_keeps (held tr1) e2"
  shows "\<exists>ws2. migrate_project e2 sgl' tgl' p (Some tg2) False = Some (Inr None, ws2) \<and> skipped_run ws2"
proof -
  from migrated_imported[OF w1] obtain tp t f where
    tp: "src_projects_get e1 (p_id p) = Inr tp" and
    call: "TgtImport t f (sp_path tp) (g_id tg1) (sp_name tp) \<in> set (trace ws1)"
    by blast
  from call inrun have "InWorker gp p (TgtImport t f (sp_path tp) (g_id tg1) (sp_name tp)) \<in> set tr1"
    by blast
  from held_mem[OF col this] have "g_full_path tg2 @ ''/'' @ sp_path tp \<in> set (held tr1)"
    using same by simp
  with keeps have pathfound: "target_has e2 (g_full_path tg2 @ ''/'' @ sp_path tp)"
    unfolding target_keeps_def by blast
  have tp2: "src_projects_get e2 (p_id p) = Inr tp" using src tp by simp
  have "already_there e2 tg2 p"
  proof (cases "target_has e2 (g_full_path tg2 @ ''/'' @ p_name p)")
    case True
    then show ?thesis by (simp add: already_there_def)
  next
    case False
    then have l: "target_lacks e2 (g_full_path tg2 @ ''/'' @ p_name p)"
      using keeps unfolding target_keeps_def by blast
    have "sp_path tp \<noteq> p_name p" using False pathfound by auto
    then show ?thesis using l tp2 pathfound by (simp add: already_there_def)
  qed
  from worker_skips[OF this] show ?thesis by blast
qed

lemma target_groups_true: "true_paths (target_groups existing step) step"
  by (auto simp: true_paths_def target_groups_def split: option.splits)

lemma stored_keeps: "target_keeps paths (stored paths p)"
  by (simp add: target_keeps_def stored_def target_has_def target_lacks_def not_found_def)

text \<open>
  C3, as stated, fails twice. The second run migrates every project the first one did not
  migrate, so it can migrate new projects; and a worker that skips returns \<open>None\<close>, which
  the coordinator counts as failed: no skipped outcome exists. In the scenario the import
  call of \<open>svc2\<close> times out during the first run, which leaves \<open>svc1\<close> and \<open>svc3\<close> on the
  target.
  The second run, on the target the first one left and with overwrite disabled, migrates
  \<open>svc2\<close>; \<open>svc1\<close> and \<open>svc3\<close> are collected as \<open>None\<close> and tallied as failed.
\<close>

theorem rerun_migrates_what_failed:
  "migrated flaky_trace = [(''team/alpha'', svc1), (''team/alpha/beta'', svc3)]
   \<and> held flaky_trace = [''team/alpha/svc1'', ''team/alpha/beta/svc3'']
   \<and> migrated after_flaky_trace = [(''team/alpha'', svc2)]
   \<and> collected after_flaky_trace =
         [(''team/alpha'', Some \<lparr>g_id = 101, g_full_path = ''team/alpha''\<rparr>, svc1, Inr None),
          (''team/alpha'', Some \<lparr>g_id = 101, g_full_path = ''team/alpha''\<rparr>, svc2,
             Inr (Some \<lparr>o_id = 202, o_import_status = Some ''finished''\<rparr>)),
          (''team/alpha/beta'', Some \<lparr>g_id = 102, g_full_path = ''team/alpha/beta''\<rparr>, svc3, Inr None)]
   \<and> tallies after_flaky_trace = [(''team/alpha/beta'', 0, 1), (''team/alpha'', 1, 1)]"
proof -
  have 1: "\<exists>t. migrate_group denv_flaky gl_src gl_tgt 2 False ''team/alpha'' alpha_tree = Some (Ok (), t)
         \<and> migrated t = [(''team/alpha'', svc1), (''team/alpha/beta'', svc3)]
         \<and> held t = [''team/alpha/svc1'', ''team/alpha/beta/svc3'']"
    by (simp add: driver_defs worker_defs example_defs scenario_defs reader_defs denv_flaky_def
                  held_def import_calls_def)
  then have f: "migrated flaky_trace = [(''team/alpha'', svc1), (''team/alpha/beta'', svc3)]"
               "held flaky_trace = [''team/alpha/svc1'', ''team/alpha/beta/svc3'']"
    unfolding flaky_trace_def by (auto simp: run_trace_def)
  have 2: "\<exists>t. migrate_group (denv_after flaky_trace) gl_src gl_tgt 2 False ''team/alpha'' alpha_tree =
               Some (Ok (), t)
         \<and> migrated t = [(''team/alpha'', svc2)]
         \<and> collected t =
             [(''team/alpha'', Some \<lparr>g_id = 101, g_full_path = ''team/alpha''\<rparr>, svc1, Inr None),
              (''team/alpha'', Some \<lparr>g_id = 101, g_full_path = ''team/alpha''\<rparr>, svc2,
                 Inr (Some \<lparr>o_id = 202, o_import_status = Some ''finished''\<rparr>)),
              (''team/alpha/beta'', Some \<lparr>g_id = 102, g_full_path = ''team/alpha/beta''\<rparr>, svc3, Inr None)]
         \<and> tallies t = [(''team/alpha/beta'', 0, 1), (''team/alpha'', 1, 1)]"
    by (simp add: denv_after_def stored_def f(2) driver_defs worker_defs example_defs scenario_defs
                  reader_defs)
  then have "migrated after_flaky_trace = [(''team/alpha'', svc2)]
         \<and> collected after_flaky_trace =
             [(''team/alpha'', Some \<lparr>g_id = 101, g_full_path = ''team/alpha''\<rparr>, svc1, Inr None),
              (''team/alpha'', Some \<lparr>g_id = 101, g_full_path = ''team/alpha''\<rparr>, svc2,
                 Inr (Some \<lparr>o_id = 202, o_import_status = Some ''finished''\<rparr>)),
              (''team/alpha/beta'', Some \<lparr>g_id = 102, g_full_path = ''team/alpha/beta''\<rparr>, svc3, Inr None)]
         \<and> tallies after_flaky_trace = [(''team/alpha/beta'', 0, 1), (''team/alpha'', 1, 1)]"
    unfolding after_flaky_trace_def by (auto simp: run_trace_def)
  with f show ?thesis by blast
qed

text \<open>
  C3, amended. Two completed runs over the same source tree, the second with overwrite
  disabled, from a group path that does not begin with a slash. The source answers the
  fetch of every project as in the first run. The target is one that kept what the first
  run did: its groups have the full paths they are looked up and created under (in both
  runs), it finds a project under every path \<open>held tr1\<close>, that is, for every import call
  of a worker of the first run that returned the imported project, under the \<open>path\<close> of
  the call below the full path of the group that was the \<open>namespace\<close> of the call, and it
  answers every lookup of a project with a project or with not-found. Then every project
  migrated by the first run is collected by the second with the result \<open>None\<close>, after a
  worker run that ends in the skip log line and makes no deleting, exporting or importing
  call; none of them is migrated again, so the second run migrates only projects the
  first run did not migrate, and none at all if the first run migrated every project of
  the tree. There is no skipped outcome: over the second run the success counts add up
  to the number of projects it migrated and the failed counts to the number of all other
  collected results, the skipped ones included.
\<close>

theorem rerun_skips_migrated:
  assumes run1: "migrate_group env1 sgl1 tgl1 mw1 ov1 path g = Some (Ok (), tr1)"
      and run2: "migrate_group env2 sgl2 tgl2 mw2 False path g = Some (Ok (), tr2)"
      and ne: "path \<noteq> []" and first: "hd path \<noteq> CHR ''/''"
      and groups1: "\<forall>gp. true_paths (resolver_env env1 gp) gp"
      and groups2: "\<forall>gp. true_paths (resolver_env env2 gp) gp"
      and source: "\<forall>gp p. src_projects_get (worker_env env2 gp p) = src_projects_get (worker_env env1 gp p)"
      and keeps: "\<forall>gp p. target_keeps (held tr1) (worker_env env2 gp p)"
  shows "(\<forall>(gp, p) \<in> set (migrated tr1). \<exists>tg2. (gp, tg2, p, Inr None) \<in> set (collected tr2))
       \<and> (\<forall>(gp, tg2, p, r2) \<in> set (collected tr2). (gp, p) \<in> set (migrated tr1) \<longrightarrow>
             r2 = Inr None \<and>
             (\<exists>ws2. migrate_project (worker_env env2 gp p) sgl2 tgl2 p tg2 False =
                      Some (Inr None, ws2) \<and> skipped_run ws2))
       \<and> set (migrated tr2) \<subseteq> set (group_projects path g) - set (migrated tr1)
       \<and> (set (group_projects path g) \<subseteq> set (migrated tr1) \<longrightarrow> migrated tr2 = [])
       \<and> sum_list (map (\<lambda>(gp, s, f). s) (tallies tr2)) = length (migrated tr2)
       \<and> sum_list (map (\<lambda>(gp, s, f). f) (tallies tr2)) + length (migrated tr2) =
           length (collected tr2)"
proof -
  note c1 = run_covers[OF run1, unfolded covers_def]
  note c2 = run_covers[OF run2, unfolded covers_def]
  note r1 = run_records[OF run1]
  note r2 = run_records[OF run2]
  have second: "r2 = Inr None \<and>
             (\<exists>ws2. migrate_project (worker_env env2 gp p) sgl2 tgl2 p tg2 False =
                      Some (Inr None, ws2) \<and> skipped_run ws2)"
    if x: "(gp, tg2, p, r2) \<in> set (collected tr2)" and m: "(gp, p) \<in> set (migrated tr1)"
    for gp tg2 p r2
  proof -
    from m obtain tg1 h where e1: "(gp, tg1, p, Inr (Some h)) \<in> set (collected tr1)"
      using migrated_iff by blast
    from r1 e1 have rec1: "recorded env1 sgl1 tgl1 ov1 path tr1 (gp, tg1, p, Inr (Some h))" by blast
    from r2 x have rec2: "recorded env2 sgl2 tgl2 False path tr2 (gp, tg2, p, r2)" by blast
    from rec1 obtain ws1 vis1 t1 suffix where
      w1: "migrate_project (worker_env env1 gp p) sgl1 tgl1 p tg1 ov1 = Some (Inr (Some h), ws1)" and
      in1: "\<forall>ev\<in>set (trace ws1). InWorker gp p ev \<in> set tr1" and
      res1: "create_target_group_structure (resolver_env env1 gp) gp vis1 = (Inr tg1, t1)" and
      below: "gp = path @ suffix"
      unfolding recorded_def by auto
    from rec2 obtain ws vis2 t2 where
      w2: "migrate_project (worker_env env2 gp p) sgl2 tgl2 p tg2 False = Some (r2, ws)" and
      res2: "create_target_group_structure (resolver_env env2 gp) gp vis2 = (Inr tg2, t2)"
      unfolding recorded_def by auto
    from below_path[OF below ne first] have gp: "gp \<noteq> []" "hd gp \<noteq> CHR ''/''" by simp_all
    from resolver_true_path[OF res1 gp] groups1 obtain g1 where
      g1: "tg1 = Some g1" "g_full_path g1 = gp" by blast
    from resolver_true_path[OF res2 gp] groups2 obtain g2 where
      g2: "tg2 = Some g2" "g_full_path g2 = gp" by blast
    have same: "g_full_path g2 = g_full_path g1" using g1 g2 by simp
    have src: "src_projects_get (worker_env env2 gp p) = src_projects_get (worker_env env1 gp p)"
      using source by blast
    have kp: "target_keeps (held tr1) (worker_env env2 gp p)" using keeps by blast
    from rerun_worker_skips[OF w1[unfolded g1(1)] in1 e1[unfolded g1(1)] same src kp, of sgl2 tgl2]
    obtain ws2 where
      s2: "migrate_project (worker_env env2 gp p) sgl2 tgl2 p (Some g2) False = Some (Inr None, ws2)"
          "skipped_run ws2" by blast
    with w2 g2(1) show ?thesis by auto
  qed
  have 2: "\<forall>(gp, tg2, p, r2) \<in> set (collected tr2). (gp, p) \<in> set (migrated tr1) \<longrightarrow>
             r2 = Inr None \<and>
             (\<exists>ws2. migrate_project (worker_env env2 gp p) sgl2 tgl2 p tg2 False =
                      Some (Inr None, ws2) \<and> skipped_run ws2)"
    using second by blast
  have same: "set (map (\<lambda>x. (fst x, fst (snd (snd x)))) (collected tr2)) = set (group_projects path g)"
             "set (map (\<lambda>x. (fst x, fst (snd (snd x)))) (collected tr1)) = set (group_projects path g)"
    using c1 c2 by simp_all
  have 1: "\<forall>(gp, p) \<in> set (migrated tr1). \<exists>tg2. (gp, tg2, p, Inr None) \<in> set (collected tr2)"
  proof (intro ballI, clarify)
    fix gp p assume m: "(gp, p) \<in> set (migrated tr1)"
    then obtain tg1 h where e1: "(gp, tg1, p, Inr (Some h)) \<in> set (collected tr1)"
      using migrated_iff by blast
    then have "(gp, p) \<in> set (map (\<lambda>x. (fst x, fst (snd (snd x)))) (collected tr1))" by force
    then have "(gp, p) \<in> set (map (\<lambda>x. (fst x, fst (snd (snd x)))) (collected tr2))"
      using same by simp
    then obtain x where x: "x \<in> set (collected tr2)" "fst x = gp" "fst (snd (snd x)) = p" by auto
    obtain tg2 r2 where xe: "x = (gp, tg2, p, r2)" using x(2,3) by (cases x) auto
    from second[OF x(1)[unfolded xe] m] have "r2 = Inr None" by simp
    then show "\<exists>tg2. (gp, tg2, p, Inr None) \<in> set (collected tr2)" using x(1) xe by blast
  qed
  have 3: "set (migrated tr2) \<subseteq> set (group_projects path g) - set (migrated tr1)"
  proof
    fix y assume y: "y \<in> set (migrated tr2)"
    obtain gp p where ye: "y = (gp, p)" by (cases y)
    from y ye obtain tg2 h where e2: "(gp, tg2, p, Inr (Some h)) \<in> set (collected tr2)"
      using migrated_iff by blast
    then have "(gp, p) \<in> set (map (\<lambda>x. (fst x, fst (snd (snd x)))) (collected tr2))" by force
    then have a: "(gp, p) \<in> set (group_projects path g)" using same by simp
    have "(gp, p) \<notin> set (migrated tr1)"
    proof
      assume "(gp, p) \<in> set (migrated tr1)"
      from second[OF e2 this] show False by simp
    qed
    with a ye show "y \<in> set (group_projects path g) - set (migrated tr1)" by simp
  qed
  have 4: "set (group_projects path g) \<subseteq> set (migrated tr1) \<longrightarrow> migrated tr2 = []"
  proof
    assume "set (group_projects path g) \<subseteq> set (migrated tr1)"
    with 3 have "set (migrated tr2) \<subseteq> {}" by blast
    then show "migrated tr2 = []" by simp
  qed
  have t: "sum_list (map (\<lambda>x. fst (snd x)) (tallies tr2)) = length (migrated tr2)"
          "sum_list (map (\<lambda>x. snd (snd x)) (tallies tr2)) + length (migrated tr2) = length (collected tr2)"
    using run_tally[OF run2] by simp_all
  have 5: "sum_list (map (\<lambda>(gp, s, f). s) (tallies tr2)) = length (migrated tr2)"
    using t(1) by (simp add: case_prod_unfold)
  have 6: "sum_list (map (\<lambda>(gp, s, f). f) (tallies tr2)) + length (migrated tr2) =
           length (collected tr2)"
    using t(2) by (simp add: case_prod_unfold)
  show ?thesis by (rule conjI[OF 1 conjI[OF 2 conjI[OF 3 conjI[OF 4 conjI[OF 5 6]]]]])
qed
theorem rerun_skips_migrated_witness:
  "migrate_group denv_fresh gl_src gl_tgt 2 False ''team/alpha'' alpha_tree = Some (Ok (), fresh_trace)
   \<and> migrate_group (denv_after fresh_trace) gl_src gl_tgt 2 False ''team/alpha'' alpha_tree =
       Some (Ok (), after_fresh_trace)
   \<and> ''team/alpha'' \<noteq> [] \<and> hd ''team/alpha'' \<noteq> CHR ''/''
   \<and> (\<forall>gp. true_paths (resolver_env denv_fresh gp) gp)
   \<and> (\<forall>gp. true_paths (resolver_env (denv_after fresh_trace) gp) gp)
   \<and> (\<forall>gp p. src_projects_get (worker_env (denv_after fresh_trace) gp p) =
               src_projects_get (worker_env denv_fresh gp p))
   \<and> (\<forall>gp p. target_keeps (held fresh_trace) (worker_env (denv_after fresh_trace) gp p))
   \<and> migrated fresh_trace = [(''team/alpha'', svc1), (''team/alpha'', svc2), (''team/alpha/beta'', svc3)]
   \<and> held fresh_trace = [''team/alpha/svc1'', ''team/alpha/svc2'', ''team/alpha/beta/svc3'']
   \<and> collected after_fresh_trace =
         [(''team/alpha'', Some \<lparr>g_id = 101, g_full_path = ''team/alpha''\<rparr>, svc1, Inr None),
          (''team/alpha'', Some \<lparr>g_id = 101, g_full_path = ''team/alpha''\<rparr>, svc2, Inr None),
          (''team/alpha/beta'', Some \<lparr>g_id = 102, g_full_path = ''team/alpha/beta''\<rparr>, svc3, Inr None)]
   \<and> (\<exists>ws2. migrate_project (worker_env (denv_after fresh_trace) ''team/alpha'' svc1) gl_src gl_tgt svc1
               (Some \<lparr>g_id = 101, g_full_path = ''team/alpha''\<rparr>) False = Some (Inr None, ws2)
             \<and> skipped_run ws2)
   \<and> migrated after_fresh_trace = []
   \<and> tallies after_fresh_trace = [(''team/alpha/beta'', 0, 1), (''team/alpha'', 0, 2)]"
proof -
  have h: "\<exists>t. migrate_group denv_fresh gl_src gl_tgt 2 False ''team/alpha'' alpha_tree = Some (Ok (), t)
         \<and> held t = [''team/alpha/svc1'', ''team/alpha/svc2'', ''team/alpha/beta/svc3'']"
    by (simp add: driver_defs worker_defs example_defs scenario_defs reader_defs
                  held_def import_calls_def)
  then have held1: "held fresh_trace = [''team/alpha/svc1'', ''team/alpha/svc2'', ''team/alpha/beta/svc3'']"
    unfolding fresh_trace_def by (auto simp: run_trace_def)
  have "\<exists>t. migrate_group (denv_after fresh_trace) gl_src gl_tgt 2 False ''team/alpha'' alpha_tree =
               Some (Ok (), t)
         \<and> collected t =
             [(''team/alpha'', Some \<lparr>g_id = 101, g_full_path = ''team/alpha''\<rparr>, svc1, Inr None),
              (''team/alpha'', Some \<lparr>g_id = 101, g_full_path = ''team/alpha''\<rparr>, svc2, Inr None),
              (''team/alpha/beta'', Some \<lparr>g_id = 102, g_full_path = ''team/alpha/beta''\<rparr>, svc3, Inr None)]
         \<and> tallies t = [(''team/alpha/beta'', 0, 1), (''team/alpha'', 0, 2)]"
    by (simp add: denv_after_def stored_def held1 driver_defs worker_defs example_defs scenario_defs
                  reader_defs)
  then have run2: "migrate_group (denv_after fresh_trace) gl_src gl_tgt 2 False ''team/alpha'' alpha_tree =
               Some (Ok (), after_fresh_trace)"
    and col2: "collected after_fresh_trace =
             [(''team/alpha'', Some \<lparr>g_id = 101, g_full_path = ''team/alpha''\<rparr>, svc1, Inr None),
              (''team/alpha'', Some \<lparr>g_id = 101, g_full_path = ''team/alpha''\<rparr>, svc2, Inr None),
              (''team/alpha/beta'', Some \<lparr>g_id = 102, g_full_path = ''team/alpha/beta''\<rparr>, svc3, Inr None)]"
    and tal2: "tallies after_fresh_trace = [(''team/alpha/beta'', 0, 1), (''team/alpha'', 0, 2)]"
    unfolding after_fresh_trace_def by (auto simp: run_trace_def)
  have ne: "''team/alpha'' \<noteq> []" by simp
  have first: "hd ''team/alpha'' \<noteq> CHR ''/''" by simp
  have g1: "\<forall>gp. true_paths (resolver_env denv_fresh gp) gp"
    by (simp add: denv_fresh_def target_groups_true)
  have g2: "\<forall>gp. true_paths (resolver_env (denv_after fresh_trace) gp) gp"
    by (simp add: denv_after_def target_groups_true)
  have src: "\<forall>gp p. src_projects_get (worker_env (denv_after fresh_trace) gp p) =
               src_projects_get (worker_env denv_fresh gp p)"
    by (simp add: denv_after_def denv_fresh_def stored_def env_of_def)
  have kp: "\<forall>gp p. target_keeps (held fresh_trace) (worker_env (denv_after fresh_trace) gp p)"
    by (simp add: denv_after_def stored_keeps)
  note A = rerun_skips_migrated[OF fresh_facts(1) run2 ne first g1 g2 src kp]
  have all: "set (group_projects ''team/alpha'' alpha_tree) \<subseteq> set (migrated fresh_trace)"
    by (simp add: fresh_facts alpha_tree_def)
  from A all have none: "migrated after_fresh_trace = []" by blast
  have mem: "(''team/alpha'', Some \<lparr>g_id = 101, g_full_path = ''team/alpha''\<rparr>, svc1, Inr None)
               \<in> set (collected after_fresh_trace)"
    by (simp add: col2)
  have mig: "(''team/alpha'', svc1) \<in> set (migrated fresh_trace)" by (simp add: fresh_facts)
  from A[THEN conjunct2, THEN conjunct1] mem mig
  have w: "\<exists>ws2. migrate_project (worker_env (denv_after fresh_trace) ''team/alpha'' svc1) gl_src gl_tgt svc1
               (Some \<lparr>g_id = 101, g_full_path = ''team/alpha''\<rparr>) False = Some (Inr None, ws2)
             \<and> skipped_run ws2"
    by fastforce
  show ?thesis
    using fresh_facts(1,5) run2 ne first g1 g2 src kp held1 col2 w none tal2 by blast
qed

end
